theory Spec2Isabelle
  imports Main "HOL-Library.Word"
begin

unbundle bit_operations_syntax

section \<open>Machine types and error codes\<close>

type_synonym u8 = "8 word"
type_synonym u32 = "32 word"
type_synonym u64 = "64 word"

text \<open>Pointers are addresses; \<open>None\<close> is the NULL pointer.\<close>

type_synonym addr = nat

definition EINVAL :: int where "EINVAL = 22"
definition ENOENT :: int where "ENOENT = 2"
definition ENOMEM :: int where "ENOMEM = 12"
definition ENODEV :: int where "ENODEV = 19"
definition EIO :: int where "EIO = 5"
definition ENOSYS :: int where "ENOSYS = 38"

section \<open>Worker pool: tasks and the priority task queue (hinata\_worker.c)\<close>

definition HINATA_WORKER_PRIORITY_LEVELS :: nat where
  "HINATA_WORKER_PRIORITY_LEVELS = 8"

definition HINATA_WORKER_TASK_TIMEOUT :: u64 where
  "HINATA_WORKER_TASK_TIMEOUT = 30000"

definition NSEC_PER_MSEC :: u64 where
  "NSEC_PER_MSEC = 1000000"

datatype hinata_task_type =
    HINATA_TASK_TYPE_PACKET_PROCESS
  | HINATA_TASK_TYPE_STORAGE_SYNC
  | HINATA_TASK_TYPE_MEMORY_GC
  | HINATA_TASK_TYPE_VALIDATION
  | HINATA_TASK_TYPE_MAINTENANCE
  | HINATA_TASK_TYPE_BACKUP
  | HINATA_TASK_TYPE_RESTORE
  | HINATA_TASK_TYPE_CLEANUP
  | HINATA_TASK_TYPE_CUSTOM

datatype hinata_task_state =
    HINATA_TASK_STATE_PENDING
  | HINATA_TASK_STATE_RUNNING
  | HINATA_TASK_STATE_COMPLETED
  | HINATA_TASK_STATE_FAILED
  | HINATA_TASK_STATE_CANCELLED
  | HINATA_TASK_STATE_TIMEOUT

text \<open>
  \<open>struct hinata_task\<close>. The function pointer and the opaque data pointer are
  addresses; the intrusive list node is represented by the task's position in a lane of
  the queue, and the completion objects carry no data of their own.
\<close>

record hinata_task =
  task_id :: u32
  task_type :: hinata_task_type
  task_state :: hinata_task_state
  task_flags :: u32
  task_priority :: u32
  task_func :: addr
  task_data :: "addr option"
  task_data_size :: u64
  task_worker :: "nat option"
  task_cpu :: int
  task_submit_time :: u64
  task_start_time :: u64
  task_end_time :: u64
  task_timeout :: u64
  task_result :: int
  task_retry_count :: u32
  task_max_retries :: u32
  task_retry_delay :: u64

text \<open>
  \<open>struct hinata_task_queue\<close>: the array of eight list heads is a function from the
  lane index to the lane's tasks, head first; only indices below
  \<open>HINATA_WORKER_PRIORITY_LEVELS\<close> are ever read or written. The \<open>atomic_t\<close>
  counters are 32-bit, the \<open>atomic64_t\<close> ones 64-bit.
\<close>

record hinata_task_queue =
  tasks :: "nat \<Rightarrow> hinata_task list"
  count :: u32
  pending_count :: u32
  tasks_queued :: u64
  tasks_processed :: u64
  tasks_failed :: u64
  tasks_cancelled :: u64
  tasks_timeout :: u64

text \<open>\<open>hinata_task_queue_init\<close>: every lane empty, every counter zero.\<close>

definition hinata_task_queue_init :: hinata_task_queue where
  "hinata_task_queue_init =
     \<lparr>tasks = (\<lambda>_. []), count = 0, pending_count = 0, tasks_queued = 0,
      tasks_processed = 0, tasks_failed = 0, tasks_cancelled = 0, tasks_timeout = 0\<rparr>"

text \<open>
  \<open>hinata_task_queue_add\<close>. The queue is always the pool's own static queue, so only
  the task pointer can be NULL. A priority of 8 or more is clamped to 7 and written back
  to the task; the task goes to the tail of its lane (\<open>list_add_tail\<close>).
\<close>

definition hinata_task_queue_add ::
  "hinata_task_queue \<Rightarrow> hinata_task option \<Rightarrow> int \<times> hinata_task_queue" where
  "hinata_task_queue_add queue task_ptr =
     (case task_ptr of
        None \<Rightarrow> (- EINVAL, queue)
      | Some task \<Rightarrow>
          let priority =
                (if unat (task_priority task) \<ge> HINATA_WORKER_PRIORITY_LEVELS
                 then of_nat (HINATA_WORKER_PRIORITY_LEVELS - 1)
                 else task_priority task);
              task' = task\<lparr>task_priority := priority\<rparr>
          in (0, queue\<lparr>tasks := (tasks queue)(unat priority := tasks queue (unat priority) @ [task']),
                       count := count queue + 1,
                       pending_count := pending_count queue + 1,
                       tasks_queued := tasks_queued queue + 1\<rparr>))"

text \<open>
  \<open>hinata_task_queue_get\<close>: the loop over \<open>i = 0 .. 7\<close> stops at the first lane that
  is not empty, unlinks its first entry and decrements both counters; with every lane
  empty it returns NULL and changes nothing.
\<close>

definition hinata_task_queue_get ::
  "hinata_task_queue \<Rightarrow> hinata_task option \<times> hinata_task_queue" where
  "hinata_task_queue_get queue =
     (case find (\<lambda>i. tasks queue i \<noteq> []) [0..<HINATA_WORKER_PRIORITY_LEVELS] of
        None \<Rightarrow> (None, queue)
      | Some i \<Rightarrow>
          (case tasks queue i of
             [] \<Rightarrow> (None, queue)
           | task # rest \<Rightarrow>
               (Some task, queue\<lparr>tasks := (tasks queue)(i := rest),
                                count := count queue - 1,
                                pending_count := pending_count queue - 1\<rparr>)))"

text \<open>
  \<open>hinata_task_queue_remove\<close> tests \<open>list_empty(&task->list)\<close>, a property of the
  task's list node, which the task record does not carry: the argument \<open>node_empty\<close>
  gives it. \<open>hinata_task_alloc\<close> leaves the node pointing to itself (empty),
  \<open>list_add_tail\<close> links it into a lane, and the \<open>list_del\<close> of
  \<open>hinata_task_queue_get\<close> leaves it non-empty (the kernel poisons its pointers,
  hinata\_compat.h leaves them as they were). For a non-empty node the function unlinks
  the task and moves the counters. When the task is in one of the lanes that removes it
  from its lane; the task is identified by its address, which the model renders as its
  id. When it is in no lane, \<open>list_del\<close> writes through pointers that no longer belong
  to the queue, and the model reports a fault.
\<close>

datatype list_fault = StaleListNode

definition hinata_task_queue_remove ::
  "hinata_task_queue \<Rightarrow> hinata_task option \<Rightarrow> bool \<Rightarrow> list_fault + hinata_task_queue" where
  "hinata_task_queue_remove queue task_ptr node_empty =
     (case task_ptr of
        None \<Rightarrow> Inr queue
      | Some task \<Rightarrow>
          if node_empty then Inr queue
          else
            (case find (\<lambda>i. task_id task \<in> set (map task_id (tasks queue i)))
                    [0..<HINATA_WORKER_PRIORITY_LEVELS] of
               None \<Rightarrow> Inl StaleListNode
             | Some i \<Rightarrow>
                 Inr (queue\<lparr>tasks := (tasks queue)
                             (i := filter (\<lambda>t. task_id t \<noteq> task_id task) (tasks queue i)),
                           count := count queue - 1,
                           pending_count := pending_count queue - 1,
                           tasks_cancelled := tasks_cancelled queue + 1\<rparr>)))"

text \<open>
  The part of the global state that \<open>hinata_submit_task\<close> touches: the pool's queue and
  its distribution counter, the task id allocator, and whether the system is in state
  \<open>HINATA_STATE_RUNNING\<close>.
\<close>

record hinata_worker_pool =
  task_queue :: hinata_task_queue
  tasks_distributed :: u64
  hinata_task_id_counter :: u32
  system_is_running :: bool

text \<open>
  What the environment answers during one submission: whether \<open>kzalloc\<close> returns
  memory, and the clock \<open>ktime_get_ns\<close>.
\<close>

record submit_env =
  kzalloc_ok :: bool
  ktime_ns :: u64

text \<open>
  \<open>hinata_task_alloc\<close>: NULL without a function or without memory; otherwise the next
  id from the counter and the fixed initial values, among them priority 0. Returns the
  task and the new counter.
\<close>

definition hinata_task_alloc ::
  "u32 \<Rightarrow> submit_env \<Rightarrow> hinata_task_type \<Rightarrow> addr option \<Rightarrow> addr option \<Rightarrow> u64 \<Rightarrow> u32
     \<Rightarrow> hinata_task option \<times> u32" where
  "hinata_task_alloc counter env type func data data_size flags =
     (case func of
        None \<Rightarrow> (None, counter)
      | Some f \<Rightarrow>
          if \<not> kzalloc_ok env then (None, counter)
          else (Some \<lparr>task_id = counter + 1,
                      task_type = type,
                      task_state = HINATA_TASK_STATE_PENDING,
                      task_flags = flags,
                      task_priority = 0,
                      task_func = f,
                      task_data = data,
                      task_data_size = data_size,
                      task_worker = None,
                      task_cpu = - 1,
                      task_submit_time = ktime_ns env,
                      task_start_time = 0,
                      task_end_time = 0,
                      task_timeout = HINATA_WORKER_TASK_TIMEOUT * NSEC_PER_MSEC,
                      task_result = 0,
                      task_retry_count = 0,
                      task_max_retries = 3,
                      task_retry_delay = 1000 * NSEC_PER_MSEC\<rparr>,
                counter + 1))"

text \<open>
  \<open>hinata_submit_task\<close>: the result is the task id read as an \<open>int\<close>, or a negative
  error code.
\<close>

definition hinata_submit_task ::
  "hinata_worker_pool \<Rightarrow> submit_env \<Rightarrow> hinata_task_type \<Rightarrow> addr option \<Rightarrow> addr option
     \<Rightarrow> u64 \<Rightarrow> u32 \<Rightarrow> int \<times> hinata_worker_pool" where
  "hinata_submit_task pool env type func data data_size flags =
     (if func = None then (- EINVAL, pool)
      else if \<not> system_is_running pool then (- ENODEV, pool)
      else
        (case hinata_task_alloc (hinata_task_id_counter pool) env type func data data_size flags of
           (None, counter') \<Rightarrow> (- ENOMEM, pool\<lparr>hinata_task_id_counter := counter'\<rparr>)
         | (Some task, counter') \<Rightarrow>
             (case hinata_task_queue_add (task_queue pool) (Some task) of
                (ret, queue') \<Rightarrow>
                  if ret < 0 then (ret, pool\<lparr>hinata_task_id_counter := counter'\<rparr>)
                  else (sint (task_id task),
                        pool\<lparr>task_queue := queue',
                             hinata_task_id_counter := counter',
                             tasks_distributed := tasks_distributed pool + 1\<rparr>))))"

text \<open>\<open>hinata_wait_task\<close> and \<open>hinata_cancel_task\<close>: both bodies are a single return.\<close>

definition hinata_wait_task :: "hinata_worker_pool \<Rightarrow> u32 \<Rightarrow> u32 \<Rightarrow> int \<times> hinata_worker_pool" where
  "hinata_wait_task pool tid timeout_ms = (- ENOSYS, pool)"

definition hinata_cancel_task :: "hinata_worker_pool \<Rightarrow> u32 \<Rightarrow> int \<times> hinata_worker_pool" where
  "hinata_cancel_task pool tid = (- ENOSYS, pool)"

text \<open>
  Callers used to state the scheduling properties: adding a list of tasks one after the
  other, taking \<open>n\<close> tasks one after the other, and submitting a list of requests.
\<close>

fun enqueue_all :: "hinata_task_queue \<Rightarrow> hinata_task list \<Rightarrow> hinata_task_queue" where
  "enqueue_all queue [] = queue"
| "enqueue_all queue (t # ts) = enqueue_all (snd (hinata_task_queue_add queue (Some t))) ts"

fun dequeue_n :: "nat \<Rightarrow> hinata_task_queue \<Rightarrow> hinata_task option list \<times> hinata_task_queue" where
  "dequeue_n 0 queue = ([], queue)"
| "dequeue_n (Suc n) queue =
     (case hinata_task_queue_get queue of
        (r, queue') \<Rightarrow> (case dequeue_n n queue' of (rs, queue'') \<Rightarrow> (r # rs, queue'')))"

record submit_request =
  req_env :: submit_env
  req_type :: hinata_task_type
  req_func :: "addr option"
  req_data :: "addr option"
  req_data_size :: u64
  req_flags :: u32

fun submit_all :: "hinata_worker_pool \<Rightarrow> submit_request list \<Rightarrow> hinata_worker_pool" where
  "submit_all pool [] = pool"
| "submit_all pool (r # rs) =
     submit_all (snd (hinata_submit_task pool (req_env r) (req_type r) (req_func r)
                        (req_data r) (req_data_size r) (req_flags r))) rs"

text \<open>
  A request is accepted when it names a function and \<open>kzalloc\<close> succeeds; the fields
  a request fixes in its task are compared through \<open>request_fields\<close> and
  \<open>task_fields\<close>.
\<close>

definition request_accepted :: "submit_request \<Rightarrow> bool" where
  "request_accepted r = (req_func r \<noteq> None \<and> kzalloc_ok (req_env r))"

definition request_fields ::
  "submit_request \<Rightarrow> hinata_task_type \<times> addr option \<times> addr option \<times> u64 \<times> u32 \<times> u64" where
  "request_fields r =
     (req_type r, req_func r, req_data r, req_data_size r, req_flags r, ktime_ns (req_env r))"

definition task_fields ::
  "hinata_task \<Rightarrow> hinata_task_type \<times> addr option \<times> addr option \<times> u64 \<times> u32 \<times> u64" where
  "task_fields t =
     (task_type t, Some (task_func t), task_data t, task_data_size t, task_flags t,
      task_submit_time t)"

text \<open>A task with a given id and priority, for concrete runs of the queue.\<close>

definition example_task :: "u32 \<Rightarrow> u32 \<Rightarrow> hinata_task" where
  "example_task i p =
     \<lparr>task_id = i, task_type = HINATA_TASK_TYPE_CUSTOM, task_state = HINATA_TASK_STATE_PENDING,
      task_flags = 0, task_priority = p, task_func = 1, task_data = None, task_data_size = 0,
      task_worker = None, task_cpu = - 1, task_submit_time = 0, task_start_time = 0,
      task_end_time = 0, task_timeout = HINATA_WORKER_TASK_TIMEOUT * NSEC_PER_MSEC,
      task_result = 0, task_retry_count = 0, task_max_retries = 3,
      task_retry_delay = 1000 * NSEC_PER_MSEC\<rparr>"

definition example_pool :: hinata_worker_pool where
  "example_pool =
     \<lparr>task_queue = hinata_task_queue_init, tasks_distributed = 0,
      hinata_task_id_counter = 0, system_is_running = True\<rparr>"

definition example_request :: "addr \<Rightarrow> submit_request" where
  "example_request d =
     \<lparr>req_env = \<lparr>kzalloc_ok = True, ktime_ns = 100\<rparr>, req_type = HINATA_TASK_TYPE_CUSTOM,
      req_func = Some 1, req_data = Some d, req_data_size = 0, req_flags = 0\<rparr>"

section \<open>Memory manager (kernel/hinata\_memory.c)\<close>

definition HINATA_MEMORY_POOL_COUNT :: nat where
  "HINATA_MEMORY_POOL_COUNT = 8"

definition memory_pool_sizes :: "u64 list" where
  "memory_pool_sizes = [32, 64, 128, 256, 512, 1024, 2048, 4096]"

definition HINATA_MEMORY_MAX_SINGLE :: u64 where
  "HINATA_MEMORY_MAX_SINGLE = 16 * 1024 * 1024"

definition HINATA_MEMORY_MAX_TOTAL :: u64 where
  "HINATA_MEMORY_MAX_TOTAL = 1024 * 1024 * 1024"

definition HINATA_MEMORY_WARNING_THRESHOLD :: u64 where
  "HINATA_MEMORY_WARNING_THRESHOLD = 512 * 1024 * 1024"

definition HINATA_MEMORY_CRITICAL_THRESHOLD :: u64 where
  "HINATA_MEMORY_CRITICAL_THRESHOLD = 768 * 1024 * 1024"

definition HINATA_MEMORY_FLAG_TRACKED :: u32 where
  "HINATA_MEMORY_FLAG_TRACKED = push_bit 0 1"

definition PAGE_SIZE :: u64 where
  "PAGE_SIZE = 4096"

definition SIZE_MAX :: u64 where
  "SIZE_MAX = - 1"

text \<open>\<open>struct hinata_memory_block\<close>, the tracking record of one allocation.\<close>

record hinata_memory_block =
  block_ptr :: addr
  block_size :: u64
  block_flags :: u32
  block_alloc_time :: u64
  block_access_time :: u64
  block_access_count :: u32

text \<open>\<open>struct hinata_memory_pool\<close> with the counters of its statistics.\<close>

record hinata_memory_pool =
  pool_size :: u64
  pool_allocated_count :: u32
  pool_free_count :: u32
  pool_total_count :: u32
  pool_allocations :: u64
  pool_bytes_allocated :: u64
  pool_frees :: u64
  pool_bytes_freed :: u64

text \<open>
  \<open>struct hinata_memory_context\<close> together with the flag \<open>memory_initialized\<close>. The
  hash table and the list of tracked blocks hold the same records; they are one list,
  newest first. \<open>heap\<close> is the memory handed out by the slab caches, \<open>kmalloc\<close> and
  \<open>vmalloc\<close>: the bytes stored at each live address.
\<close>

record hinata_memory_context =
  memory_initialized :: bool
  pools :: "hinata_memory_pool list"
  blocks_list :: "hinata_memory_block list"
  total_allocated :: u64
  total_freed :: u64
  peak_usage :: u64
  allocation_count :: u64
  free_count :: u64
  leak_count :: u64
  oom_count :: u64
  max_total_size :: u64
  max_single_alloc :: u64
  warning_threshold :: u64
  critical_threshold :: u64
  enable_tracking :: bool
  enable_pooling :: bool
  heap :: "addr \<rightharpoonup> u8 list"

text \<open>
  What the kernel allocators answer during one call of \<open>hinata_malloc\<close>: the result of
  \<open>kmem_cache_alloc\<close>, of \<open>kmalloc\<close> and of \<open>vmalloc\<close> for the buffer, whether
  \<open>kmalloc\<close> of the tracking record succeeds, the bytes found in the fresh buffer, and
  the clock.
\<close>

record malloc_env =
  cache_alloc_result :: "addr option"
  kmalloc_result :: "addr option"
  vmalloc_result :: "addr option"
  block_kmalloc_ok :: bool
  fresh_bytes :: "u8 list"
  alloc_timestamp :: u64

text \<open>
  The state after \<open>hinata_memory_init\<close>: eight empty pools of the fixed sizes, zeroed
  counters, the default limits, tracking and pooling enabled.
\<close>

definition hinata_memory_init :: hinata_memory_context where
  "hinata_memory_init =
     \<lparr>memory_initialized = True,
      pools = map (\<lambda>s. \<lparr>pool_size = s, pool_allocated_count = 0, pool_free_count = 0,
                          pool_total_count = 0, pool_allocations = 0, pool_bytes_allocated = 0,
                          pool_frees = 0, pool_bytes_freed = 0\<rparr>) memory_pool_sizes,
      blocks_list = [],
      total_allocated = 0, total_freed = 0, peak_usage = 0, allocation_count = 0,
      free_count = 0, leak_count = 0, oom_count = 0,
      max_total_size = HINATA_MEMORY_MAX_TOTAL,
      max_single_alloc = HINATA_MEMORY_MAX_SINGLE,
      warning_threshold = HINATA_MEMORY_WARNING_THRESHOLD,
      critical_threshold = HINATA_MEMORY_CRITICAL_THRESHOLD,
      enable_tracking = True, enable_pooling = True,
      heap = Map.empty\<rparr>"

text \<open>
  The loop of \<open>hinata_memory_pool_alloc\<close> and \<open>hinata_memory_pool_free\<close>: the index of
  the first pool whose block size is at least \<open>size\<close>.
\<close>

fun find_pool :: "hinata_memory_pool list \<Rightarrow> u64 \<Rightarrow> nat \<Rightarrow> nat option" where
  "find_pool [] sz i = None"
| "find_pool (p # ps) sz i = (if pool_size p \<ge> sz then Some i else find_pool ps sz (Suc i))"

text \<open>
  \<open>hinata_memory_pool_alloc\<close>: NULL when no pool is large enough or the slab cache has
  no memory; otherwise the pool's counters are bumped.
\<close>

definition hinata_memory_pool_alloc ::
  "hinata_memory_context \<Rightarrow> malloc_env \<Rightarrow> u64 \<Rightarrow> addr option \<times> hinata_memory_context" where
  "hinata_memory_pool_alloc ctx env sz =
     (case find_pool (take HINATA_MEMORY_POOL_COUNT (pools ctx)) sz 0 of
        None \<Rightarrow> (None, ctx)
      | Some i \<Rightarrow>
          (case cache_alloc_result env of
             None \<Rightarrow> (None, ctx)
           | Some ptr \<Rightarrow>
               let pool = pools ctx ! i;
                   pool' = pool\<lparr>pool_allocated_count := pool_allocated_count pool + 1,
                                pool_total_count := pool_total_count pool + 1,
                                pool_allocations := pool_allocations pool + 1,
                                pool_bytes_allocated := pool_bytes_allocated pool + pool_size pool\<rparr>
               in (Some ptr, ctx\<lparr>pools := (pools ctx)[i := pool'],
                                 heap := (heap ctx)(ptr \<mapsto> fresh_bytes env)\<rparr>)))"

text \<open>
  \<open>hinata_memory_pool_free\<close>: without a suitable pool the pointer goes to \<open>vfree\<close> or
  \<open>kfree\<close>; otherwise back to the pool's cache.
\<close>

definition hinata_memory_pool_free ::
  "hinata_memory_context \<Rightarrow> addr \<Rightarrow> u64 \<Rightarrow> hinata_memory_context" where
  "hinata_memory_pool_free ctx ptr sz =
     (case find_pool (take HINATA_MEMORY_POOL_COUNT (pools ctx)) sz 0 of
        None \<Rightarrow> ctx\<lparr>heap := (heap ctx)(ptr := None)\<rparr>
      | Some i \<Rightarrow>
          let pool = pools ctx ! i;
              pool' = pool\<lparr>pool_allocated_count := pool_allocated_count pool - 1,
                           pool_frees := pool_frees pool + 1,
                           pool_bytes_freed := pool_bytes_freed pool + pool_size pool\<rparr>
          in ctx\<lparr>pools := (pools ctx)[i := pool'], heap := (heap ctx)(ptr := None)\<rparr>)"

text \<open>
  \<open>hinata_memory_block_create\<close>: NULL when the record cannot be allocated; otherwise
  the record is linked at the head of the tracking list.
\<close>

definition hinata_memory_block_create ::
  "hinata_memory_context \<Rightarrow> malloc_env \<Rightarrow> addr \<Rightarrow> u64 \<Rightarrow> u32
     \<Rightarrow> hinata_memory_block option \<times> hinata_memory_context" where
  "hinata_memory_block_create ctx env ptr sz flags =
     (if \<not> block_kmalloc_ok env then (None, ctx)
      else
        let block = \<lparr>block_ptr = ptr, block_size = sz, block_flags = flags,
                     block_alloc_time = alloc_timestamp env,
                     block_access_time = alloc_timestamp env,
                     block_access_count = 1\<rparr>
        in (Some block, ctx\<lparr>blocks_list := block # blocks_list ctx\<rparr>))"

text \<open>
  The end of \<open>hinata_malloc\<close>: the statistics and the peak usage. All sizes and
  counters are 64-bit and wrap; the comparisons are unsigned. The threshold tests that
  follow only write to the log.
\<close>

definition update_statistics :: "hinata_memory_context \<Rightarrow> u64 \<Rightarrow> hinata_memory_context" where
  "update_statistics ctx sz =
     (let ctx1 = ctx\<lparr>total_allocated := total_allocated ctx + sz,
                     allocation_count := allocation_count ctx + 1\<rparr>;
          current_usage = total_allocated ctx1 - total_freed ctx1
      in if current_usage \<le> peak_usage ctx1 then ctx1
         else ctx1\<lparr>peak_usage := current_usage\<rparr>)"

text \<open>
  \<open>hinata_malloc\<close> from the label \<open>track_allocation\<close> on: when tracking is enabled
  and the record cannot be created, the buffer is given back and NULL is returned.
\<close>

definition track_allocation ::
  "hinata_memory_context \<Rightarrow> malloc_env \<Rightarrow> addr \<Rightarrow> u64 \<Rightarrow> addr option \<times> hinata_memory_context" where
  "track_allocation ctx env ptr sz =
     (if enable_tracking ctx then
        (case hinata_memory_block_create ctx env ptr sz HINATA_MEMORY_FLAG_TRACKED of
           (None, ctx1) \<Rightarrow>
             (None,
              if enable_pooling ctx1 then hinata_memory_pool_free ctx1 ptr sz
              else ctx1\<lparr>heap := (heap ctx1)(ptr := None)\<rparr>)
         | (Some block, ctx1) \<Rightarrow> (Some ptr, update_statistics ctx1 sz))
      else (Some ptr, update_statistics ctx sz))"

text \<open>
  \<open>hinata_malloc\<close>. The first test returns NULL without touching any counter; the two
  limit tests count an out-of-memory event; then the pool is tried, then \<open>kmalloc\<close>
  (up to a page) or \<open>vmalloc\<close>.
\<close>

definition hinata_malloc ::
  "hinata_memory_context \<Rightarrow> malloc_env \<Rightarrow> u64 \<Rightarrow> addr option \<times> hinata_memory_context" where
  "hinata_malloc ctx env sz =
     (if \<not> memory_initialized ctx \<or> sz = 0 then (None, ctx)
      else if sz > max_single_alloc ctx then (None, ctx\<lparr>oom_count := oom_count ctx + 1\<rparr>)
      else if total_allocated ctx - total_freed ctx + sz > max_total_size ctx
           then (None, ctx\<lparr>oom_count := oom_count ctx + 1\<rparr>)
      else
        (case (if enable_pooling ctx then hinata_memory_pool_alloc ctx env sz else (None, ctx)) of
           (Some ptr, ctx1) \<Rightarrow> track_allocation ctx1 env ptr sz
         | (None, ctx1) \<Rightarrow>
             (case (if sz \<le> PAGE_SIZE then kmalloc_result env else vmalloc_result env) of
                None \<Rightarrow> (None, ctx1\<lparr>oom_count := oom_count ctx1 + 1\<rparr>)
              | Some ptr \<Rightarrow>
                  track_allocation (ctx1\<lparr>heap := (heap ctx1)(ptr \<mapsto> fresh_bytes env)\<rparr>)
                    env ptr sz)))"

text \<open>\<open>memset(ptr, 0, n)\<close> on the heap: the first \<open>n\<close> bytes of the buffer become zero.\<close>

definition memset_zero :: "(addr \<rightharpoonup> u8 list) \<Rightarrow> addr \<Rightarrow> nat \<Rightarrow> (addr \<rightharpoonup> u8 list)" where
  "memset_zero h ptr n =
     (case h ptr of
        None \<Rightarrow> h
      | Some bytes \<Rightarrow> h(ptr \<mapsto> replicate n 0 @ drop n bytes))"

text \<open>
  \<open>hinata_calloc\<close>: the overflow test comes before the multiplication, which is the
  wrapping multiplication of \<open>size_t\<close>.
\<close>

definition hinata_calloc ::
  "hinata_memory_context \<Rightarrow> malloc_env \<Rightarrow> u64 \<Rightarrow> u64 \<Rightarrow> addr option \<times> hinata_memory_context" where
  "hinata_calloc ctx env nmemb sz =
     (if nmemb \<noteq> 0 \<and> sz > SIZE_MAX div nmemb then (None, ctx)
      else
        let total_size = nmemb * sz
        in (case hinata_malloc ctx env total_size of
              (None, ctx') \<Rightarrow> (None, ctx')
            | (Some ptr, ctx') \<Rightarrow>
                (Some ptr, ctx'\<lparr>heap := memset_zero (heap ctx') ptr (unat total_size)\<rparr>)))"

text \<open>An allocator environment in which every kernel allocation succeeds.\<close>

definition example_malloc_env :: malloc_env where
  "example_malloc_env =
     \<lparr>cache_alloc_result = Some 4096, kmalloc_result = Some 8192, vmalloc_result = Some 16384,
      block_kmalloc_ok = True, fresh_bytes = [170, 187, 204, 221, 238, 255, 17, 34],
      alloc_timestamp = 1\<rparr>"

text \<open>
  Two states for concrete runs: the state that \<open>hinata_memory_cleanup\<close> leaves when
  nothing was allocated (the limits stay, the flag is cleared), and a running state whose
  usage of 64 bytes lies above a total cap that was lowered to 32 bytes.
\<close>

definition memory_ctx_after_cleanup :: hinata_memory_context where
  "memory_ctx_after_cleanup = hinata_memory_init\<lparr>memory_initialized := False\<rparr>"

definition memory_ctx_over_cap :: hinata_memory_context where
  "memory_ctx_over_cap =
     hinata_memory_init\<lparr>total_allocated := 64, allocation_count := 1, peak_usage := 64,
                         max_total_size := 32\<rparr>"

section \<open>Packets and their reference counts (core/hinata\_packet.c)\<close>

definition HINATA_PACKET_MAGIC :: u32 where
  "HINATA_PACKET_MAGIC = 0x48494E41"

definition HINATA_PACKET_VERSION :: u32 where
  "HINATA_PACKET_VERSION = 1"

text \<open>
  The size limits of hinata\_types.h, which every file but hinata\_packet.c sees:
  1 MB of content, 64 KB of metadata. hinata\_packet.c overrides two of them with
  \<open>#define\<close>s of its own, 512 KB of content and 1 MB for a whole packet; they apply to
  \<open>hinata_packet_create\<close> and \<open>hinata_packet_validate\<close> only.
\<close>

definition HINATA_MAX_CONTENT_SIZE :: u64 where
  "HINATA_MAX_CONTENT_SIZE = 1024 * 1024"

definition HINATA_MAX_METADATA_SIZE :: u64 where
  "HINATA_MAX_METADATA_SIZE = 64 * 1024"

definition packet_c_HINATA_MAX_CONTENT_SIZE :: u64 where
  "packet_c_HINATA_MAX_CONTENT_SIZE = 512 * 1024"

definition packet_c_HINATA_MAX_PACKET_SIZE :: u64 where
  "packet_c_HINATA_MAX_PACKET_SIZE = 1024 * 1024"

definition HINATA_UUID_LENGTH :: nat where
  "HINATA_UUID_LENGTH = 37"

definition HINATA_MAX_SOURCE_LENGTH :: nat where
  "HINATA_MAX_SOURCE_LENGTH = 256"

definition HINATA_MAX_TAGS :: nat where
  "HINATA_MAX_TAGS = 16"

definition HINATA_MAX_TAG_LENGTH :: nat where
  "HINATA_MAX_TAG_LENGTH = 64"

definition HINATA_PACKET_TEXT :: u32 where "HINATA_PACKET_TEXT = 0"
definition HINATA_PACKET_MARKDOWN :: u32 where "HINATA_PACKET_MARKDOWN = 1"
definition HINATA_PACKET_CODE :: u32 where "HINATA_PACKET_CODE = 2"
definition HINATA_PACKET_DATA :: u32 where "HINATA_PACKET_DATA = 3"
definition HINATA_PACKET_LINK :: u32 where "HINATA_PACKET_LINK = 4"
definition HINATA_PACKET_IMAGE :: u32 where "HINATA_PACKET_IMAGE = 5"
definition HINATA_PACKET_AUDIO :: u32 where "HINATA_PACKET_AUDIO = 6"
definition HINATA_PACKET_VIDEO :: u32 where "HINATA_PACKET_VIDEO = 7"
definition HINATA_PACKET_DOCUMENT :: u32 where "HINATA_PACKET_DOCUMENT = 8"
definition HINATA_PACKET_ARCHIVE :: u32 where "HINATA_PACKET_ARCHIVE = 9"
definition HINATA_PACKET_CUSTOM :: u32 where "HINATA_PACKET_CUSTOM = 10"
definition HINATA_PACKET_TYPE_MAX :: u32 where "HINATA_PACKET_TYPE_MAX = 11"

text \<open>
  \<open>struct hinata_packet\<close>. The character arrays \<open>id\<close>, \<open>source\<close> and \<open>tags[i]\<close>
  are C strings and are represented by the characters before their terminating NUL; the
  three enums are kept as the integers the structure stores; \<open>content\<close> and
  \<open>metadata\<close> are pointers; \<open>ref_count\<close> is an \<open>atomic_t\<close>, a 32-bit counter that
  wraps.
\<close>

record hinata_packet =
  pkt_magic :: u32
  pkt_version :: u32
  pkt_id :: string
  pkt_type :: u32
  pkt_priority :: u32
  pkt_status :: u32
  pkt_size :: u64
  content_size :: u64
  metadata_size :: u64
  content_hash :: u32
  created_at :: u64
  updated_at :: u64
  pkt_source :: string
  pkt_tags :: "string list"
  tag_count :: u64
  content :: "addr option"
  metadata :: "addr option"
  ref_count :: u32
  pkt_flags :: u32

text \<open>\<open>struct hinata_packet_node\<close>, an entry of the packet hash table.\<close>

record hinata_packet_node =
  node_packet :: addr
  node_ref_count :: u32
  node_created_time :: u64
  node_last_access :: u64

text \<open>
  The state of the packet subsystem: the live objects of the slab cache
  \<open>packet_cache\<close>, the buffers obtained from \<open>kmalloc\<close>, the hash table as a
  function from the bucket index to the bucket's chain (head first), and the statistics.
  \<open>kfree_log\<close> records every non-NULL pointer passed to \<open>kfree\<close>, in order, so that
  the number of times a buffer is freed can be stated. The calls of
  \<open>hinata_increment_packet_count\<close> and \<open>hinata_decrement_packet_count\<close> are
  left out: \<open>hinata_core.h\<close> declares the two functions, no source file defines them,
  and they take no argument, so they cannot reach a packet or the hash table.
\<close>

record packet_state =
  packet_cache :: "addr \<rightharpoonup> hinata_packet"
  kmem :: "addr \<rightharpoonup> u8 list"
  packet_hash_table :: "nat \<Rightarrow> hinata_packet_node list"
  kfree_log :: "addr list"
  packet_create_count :: u64
  packet_validate_count :: u64
  packet_destroy_count :: u64
  packet_hash_collisions :: u64

text \<open>
  Reading through a pointer to a packet that has been returned to its cache has no
  defined result; the model reports it as a fault instead of returning a value.
\<close>

datatype fault = UseAfterFree

text \<open>\<open>kfree\<close>: nothing for NULL, otherwise the buffer is released and the call logged.\<close>

definition kfree :: "packet_state \<Rightarrow> addr option \<Rightarrow> packet_state" where
  "kfree st ptr =
     (case ptr of
        None \<Rightarrow> st
      | Some a \<Rightarrow> st\<lparr>kmem := (kmem st)(a := None), kfree_log := kfree_log st @ [a]\<rparr>)"

text \<open>
  \<open>hinata_packet_find_node\<close> walks the chain of the bucket that the kernel's hash of
  the id selects (\<open>bucket\<close> stands for \<open>jhash\<close> followed by the table's bucket
  selection) and compares each node's packet id with \<open>strcmp\<close>.
\<close>

fun find_node_in ::
  "(addr \<rightharpoonup> hinata_packet) \<Rightarrow> hinata_packet_node list \<Rightarrow> string
     \<Rightarrow> fault + hinata_packet_node option" where
  "find_node_in objs [] ident = Inr None"
| "find_node_in objs (n # ns) ident =
     (case objs (node_packet n) of
        None \<Rightarrow> Inl UseAfterFree
      | Some pk \<Rightarrow> if pkt_id pk = ident then Inr (Some n) else find_node_in objs ns ident)"

definition hinata_packet_find_node ::
  "(string \<Rightarrow> nat) \<Rightarrow> packet_state \<Rightarrow> string \<Rightarrow> fault + hinata_packet_node option" where
  "hinata_packet_find_node bucket st ident =
     find_node_in (packet_cache st) (packet_hash_table st (bucket ident)) ident"

text \<open>
  \<open>hinata_packet_add_to_hash\<close>: \<open>-ENOMEM\<close> without memory for the node, \<open>-EEXIST\<close>
  (and a counted collision) when the id is already registered, otherwise the node is
  added at the head of its bucket.
\<close>

definition EEXIST :: int where "EEXIST = 17"

definition hinata_packet_add_to_hash ::
  "(string \<Rightarrow> nat) \<Rightarrow> packet_state \<Rightarrow> bool \<Rightarrow> u64 \<Rightarrow> addr \<Rightarrow> fault + (int \<times> packet_state)" where
  "hinata_packet_add_to_hash bucket st node_alloc_ok now ptr =
     (if \<not> node_alloc_ok then Inr (- ENOMEM, st)
      else
        (case packet_cache st ptr of
           None \<Rightarrow> Inl UseAfterFree
         | Some pk \<Rightarrow>
             (case hinata_packet_find_node bucket st (pkt_id pk) of
                Inl f \<Rightarrow> Inl f
              | Inr (Some n) \<Rightarrow>
                  Inr (- EEXIST, st\<lparr>packet_hash_collisions := packet_hash_collisions st + 1\<rparr>)
              | Inr None \<Rightarrow>
                  let node = \<lparr>node_packet = ptr, node_ref_count = 1, node_created_time = now,
                              node_last_access = now\<rparr>;
                      b = bucket (pkt_id pk)
                  in Inr (0, st\<lparr>packet_hash_table :=
                                   (packet_hash_table st)(b := node # packet_hash_table st b)\<rparr>))))"

text \<open>
  \<open>hinata_packet_remove_from_hash\<close>: the node found for the id, if any, is unlinked
  and released (its own count drops from 1 to 0, which frees the node).
\<close>

definition hinata_packet_remove_from_hash ::
  "(string \<Rightarrow> nat) \<Rightarrow> packet_state \<Rightarrow> string \<Rightarrow> fault + packet_state" where
  "hinata_packet_remove_from_hash bucket st ident =
     (case hinata_packet_find_node bucket st ident of
        Inl f \<Rightarrow> Inl f
      | Inr None \<Rightarrow> Inr st
      | Inr (Some n) \<Rightarrow>
          Inr (st\<lparr>packet_hash_table :=
                    (packet_hash_table st)
                      (bucket ident := remove1 n (packet_hash_table st (bucket ident)))\<rparr>))"

text \<open>
  \<open>hinata_packet_destroy\<close>: unregister the id, free content and metadata, give the
  structure back to its cache, count the destruction.
\<close>

definition hinata_packet_destroy ::
  "(string \<Rightarrow> nat) \<Rightarrow> packet_state \<Rightarrow> addr option \<Rightarrow> fault + packet_state" where
  "hinata_packet_destroy bucket st packet =
     (case packet of
        None \<Rightarrow> Inr st
      | Some ptr \<Rightarrow>
          (case packet_cache st ptr of
             None \<Rightarrow> Inl UseAfterFree
           | Some pk \<Rightarrow>
               (case hinata_packet_remove_from_hash bucket st (pkt_id pk) of
                  Inl f \<Rightarrow> Inl f
                | Inr st1 \<Rightarrow>
                    let st2 = kfree st1 (content pk);
                        st3 = kfree st2 (metadata pk)
                    in Inr (st3\<lparr>packet_cache := (packet_cache st3)(ptr := None),
                                 packet_destroy_count := packet_destroy_count st3 + 1\<rparr>))))"

text \<open>\<open>hinata_packet_get\<close>: NULL for NULL, otherwise one more reference.\<close>

definition hinata_packet_get ::
  "packet_state \<Rightarrow> addr option \<Rightarrow> fault + (addr option \<times> packet_state)" where
  "hinata_packet_get st packet =
     (case packet of
        None \<Rightarrow> Inr (None, st)
      | Some ptr \<Rightarrow>
          (case packet_cache st ptr of
             None \<Rightarrow> Inl UseAfterFree
           | Some pk \<Rightarrow>
               Inr (Some ptr,
                    st\<lparr>packet_cache :=
                         (packet_cache st)(ptr \<mapsto> pk\<lparr>ref_count := ref_count pk + 1\<rparr>)\<rparr>)))"

text \<open>
  \<open>hinata_packet_put\<close>: \<open>atomic_dec_and_test\<close> decrements the count and is true
  when the new value is zero; then the packet is destroyed.
\<close>

definition hinata_packet_put ::
  "(string \<Rightarrow> nat) \<Rightarrow> packet_state \<Rightarrow> addr option \<Rightarrow> fault + packet_state" where
  "hinata_packet_put bucket st packet =
     (case packet of
        None \<Rightarrow> Inr st
      | Some ptr \<Rightarrow>
          (case packet_cache st ptr of
             None \<Rightarrow> Inl UseAfterFree
           | Some pk \<Rightarrow>
               let st1 = st\<lparr>packet_cache :=
                            (packet_cache st)(ptr \<mapsto> pk\<lparr>ref_count := ref_count pk - 1\<rparr>)\<rparr>
               in if ref_count pk - 1 = 0 then hinata_packet_destroy bucket st1 (Some ptr)
                  else Inr st1))"

text \<open>A sequence of \<open>get\<close> and \<open>put\<close> calls on one packet pointer.\<close>

datatype ref_op = Get | Put

fun run_ref_ops ::
  "(string \<Rightarrow> nat) \<Rightarrow> packet_state \<Rightarrow> addr \<Rightarrow> ref_op list \<Rightarrow> fault + packet_state" where
  "run_ref_ops bucket st ptr [] = Inr st"
| "run_ref_ops bucket st ptr (Get # ops) =
     (case hinata_packet_get st (Some ptr) of
        Inl f \<Rightarrow> Inl f
      | Inr (r, st') \<Rightarrow> run_ref_ops bucket st' ptr ops)"
| "run_ref_ops bucket st ptr (Put # ops) =
     (case hinata_packet_put bucket st (Some ptr) of
        Inl f \<Rightarrow> Inl f
      | Inr st' \<Rightarrow> run_ref_ops bucket st' ptr ops)"

text \<open>
  The condition of the claim on a sequence: at every point of the sequence (after each
  of its calls), the number of gets so far plus one exceeds the number of puts so far.
\<close>

definition holds_reference :: "ref_op list \<Rightarrow> bool" where
  "holds_reference ops =
     list_all (\<lambda>k. count_list (take k ops) Put < 1 + count_list (take k ops) Get)
       [0..<Suc (length ops)]"

text \<open>
  The table invariant that \<open>hinata_packet_add_to_hash\<close> maintains: every node sits in
  the bucket of its packet's id, points to a live packet, and no two nodes of a bucket
  carry the same id.
\<close>

definition node_id :: "packet_state \<Rightarrow> hinata_packet_node \<Rightarrow> string option" where
  "node_id st n = map_option pkt_id (packet_cache st (node_packet n))"

definition hash_table_ok :: "(string \<Rightarrow> nat) \<Rightarrow> packet_state \<Rightarrow> bool" where
  "hash_table_ok bucket st =
     (\<forall>b. (\<forall>n \<in> set (packet_hash_table st b).
              \<exists>pk. packet_cache st (node_packet n) = Some pk \<and> bucket (pkt_id pk) = b) \<and>
          distinct (map (node_id st) (packet_hash_table st b)))"

definition registered :: "packet_state \<Rightarrow> addr \<Rightarrow> bool" where
  "registered st ptr = (\<exists>b. ptr \<in> node_packet ` set (packet_hash_table st b))"

text \<open>
  The number of references left after a sequence of calls that starts with \<open>c\<close>
  references; \<open>None\<close> when a call is made after the count has reached zero.
\<close>

fun refs_after :: "nat \<Rightarrow> ref_op list \<Rightarrow> nat option" where
  "refs_after c [] = Some c"
| "refs_after c (Get # ops) = (if c = 0 then None else refs_after (Suc c) ops)"
| "refs_after c (Put # ops) = (if c = 0 then None else refs_after (c - 1) ops)"

text \<open>The state in which the packet at \<open>ptr\<close> is \<open>pk\<close> with reference count \<open>c\<close>.\<close>

definition with_refs :: "packet_state \<Rightarrow> addr \<Rightarrow> hinata_packet \<Rightarrow> u32 \<Rightarrow> packet_state" where
  "with_refs st ptr pk c = st\<lparr>packet_cache := (packet_cache st)(ptr \<mapsto> pk\<lparr>ref_count := c\<rparr>)\<rparr>"

text \<open>
  A concrete packet subsystem: one text packet with content \<open>hello\<close> at address 100
  and metadata \<open>{}\<close> at address 101, registered in the hash table, reference count 1.
\<close>

definition example_bucket :: "string \<Rightarrow> nat" where
  "example_bucket s = length s mod 256"

definition example_packet :: hinata_packet where
  "example_packet =
     \<lparr>pkt_magic = 0x48494E41, pkt_version = 1,
      pkt_id = ''123e4567-e89b-12d3-a456-426614174000'',
      pkt_type = 0, pkt_priority = 1, pkt_status = 0,
      pkt_size = 1431, content_size = 5, metadata_size = 2, content_hash = 5,
      created_at = 1000, updated_at = 1000, pkt_source = ''test'', pkt_tags = [''a'', ''b''],
      tag_count = 2, content = Some 100, metadata = Some 101, ref_count = 1, pkt_flags = 0\<rparr>"

definition example_packet_state :: packet_state where
  "example_packet_state =
     \<lparr>packet_cache = [1 \<mapsto> example_packet],
      kmem = [100 \<mapsto> [104, 101, 108, 108, 111], 101 \<mapsto> [123, 125]],
      packet_hash_table =
        (\<lambda>_. [])(36 := [\<lparr>node_packet = 1, node_ref_count = 1, node_created_time = 7,
                             node_last_access = 7\<rparr>]),
      kfree_log = [],
      packet_create_count = 1, packet_validate_count = 0, packet_destroy_count = 0,
      packet_hash_collisions = 0\<rparr>"

section \<open>Packet validation and the validation cache (core/hinata\_validation.c)\<close>

definition HINATA_VALIDATE_BASIC :: u32 where "HINATA_VALIDATE_BASIC = push_bit 0 1"
definition HINATA_VALIDATE_CONTENT :: u32 where "HINATA_VALIDATE_CONTENT = push_bit 1 1"
definition HINATA_VALIDATE_METADATA :: u32 where "HINATA_VALIDATE_METADATA = push_bit 2 1"
definition HINATA_VALIDATE_SECURITY :: u32 where "HINATA_VALIDATE_SECURITY = push_bit 3 1"
definition HINATA_VALIDATE_INTEGRITY :: u32 where "HINATA_VALIDATE_INTEGRITY = push_bit 4 1"
definition HINATA_VALIDATE_FORCE_RECHECK :: u32 where "HINATA_VALIDATE_FORCE_RECHECK = push_bit 5 1"
definition HINATA_VALIDATE_DEEP :: u32 where "HINATA_VALIDATE_DEEP = push_bit 6 1"
definition HINATA_VALIDATE_STRICT :: u32 where "HINATA_VALIDATE_STRICT = push_bit 7 1"

definition HINATA_VALIDATE_MINIMAL :: u32 where
  "HINATA_VALIDATE_MINIMAL = HINATA_VALIDATE_BASIC"

definition HINATA_VALIDATE_STANDARD :: u32 where
  "HINATA_VALIDATE_STANDARD =
     HINATA_VALIDATE_BASIC OR HINATA_VALIDATE_CONTENT OR HINATA_VALIDATE_INTEGRITY"

definition HINATA_VALIDATE_COMPREHENSIVE :: u32 where
  "HINATA_VALIDATE_COMPREHENSIVE =
     HINATA_VALIDATE_BASIC OR HINATA_VALIDATE_CONTENT OR HINATA_VALIDATE_METADATA OR
     HINATA_VALIDATE_SECURITY OR HINATA_VALIDATE_INTEGRITY"

definition HINATA_VALIDATE_PARANOID :: u32 where
  "HINATA_VALIDATE_PARANOID =
     HINATA_VALIDATE_COMPREHENSIVE OR HINATA_VALIDATE_DEEP OR HINATA_VALIDATE_STRICT OR
     HINATA_VALIDATE_FORCE_RECHECK"

definition HINATA_VALIDATION_SUCCESS :: int where
  "HINATA_VALIDATION_SUCCESS = 0"

definition HINATA_UUID_PATTERN_LENGTH :: nat where
  "HINATA_UUID_PATTERN_LENGTH = 36"

definition HINATA_VALIDATION_CACHE_SIZE :: nat where
  "HINATA_VALIDATION_CACHE_SIZE = 256"

definition HZ :: u64 where
  "HZ = 100"

text \<open>
  \<open>sizeof(struct hinata_packet)\<close> for the LP64 layout of the structure declared in
  hinata\_packet.h.
\<close>

definition sizeof_hinata_packet :: u64 where
  "sizeof_hinata_packet = 1424"

text \<open>
  What the validator takes from outside this file: the kernel's \<open>crc32\<close> with seed 0,
  the character classes of \<open>ctype.h\<close>, the three helpers
  \<open>hinata_packet_is_valid_type\<close>, \<open>_priority\<close> and \<open>_status\<close> that the packet
  header declares, the wall clock in nanoseconds, the value of \<open>jiffies\<close> when the
  cache is searched and when an entry is written, and the memory that the packet's
  content and metadata pointers refer to.
\<close>

record validation_env =
  crc32 :: "u8 list \<Rightarrow> u32"
  isprint :: "u8 \<Rightarrow> bool"
  isspace :: "u8 \<Rightarrow> bool"
  isalnum :: "u8 \<Rightarrow> bool"
  isxdigit :: "u8 \<Rightarrow> bool"
  is_valid_type :: "u32 \<Rightarrow> bool"
  is_valid_priority :: "u32 \<Rightarrow> bool"
  is_valid_status :: "u32 \<Rightarrow> bool"
  current_ns :: u64
  jiffies_lookup :: u64
  jiffies_add :: u64
  mem :: "addr \<rightharpoonup> u8 list"

text \<open>
  The bytes of a C string, and the first \<open>n\<close> bytes behind a pointer. A packet's
  size fields are taken to describe its buffers, as \<open>hinata_packet_create\<close>
  establishes; bytes beyond the end of a buffer are not modelled.
\<close>

definition byte_of :: "char \<Rightarrow> u8" where
  "byte_of c = of_nat (of_char c)"

definition read_bytes :: "(addr \<rightharpoonup> u8 list) \<Rightarrow> addr \<Rightarrow> u64 \<Rightarrow> u8 list" where
  "read_bytes m ptr n = take (unat n) (case m ptr of None \<Rightarrow> [] | Some bytes \<Rightarrow> bytes)"

text \<open>\<open>struct validation_cache_entry\<close> and the state of the file's static variables.\<close>

record validation_cache_entry =
  vc_id :: string
  vc_content_hash :: u32
  vc_is_valid :: bool
  vc_timestamp :: u64

record validation_state =
  validation_cache :: "nat \<Rightarrow> validation_cache_entry"
  cache_index :: u32
  validation_count :: u64
  validation_success_count :: u64
  validation_failure_count :: u64
  uuid_validation_count :: u64
  content_validation_count :: u64
  metadata_validation_count :: u64

definition zero_entry :: validation_cache_entry where
  "zero_entry = \<lparr>vc_id = [], vc_content_hash = 0, vc_is_valid = False, vc_timestamp = 0\<rparr>"

text \<open>The state after \<open>hinata_validation_init\<close>: the cache is zeroed memory.\<close>

definition hinata_validation_init :: validation_state where
  "hinata_validation_init =
     \<lparr>validation_cache = (\<lambda>_. zero_entry), cache_index = 0, validation_count = 0,
      validation_success_count = 0, validation_failure_count = 0, uuid_validation_count = 0,
      content_validation_count = 0, metadata_validation_count = 0\<rparr>"

text \<open>\<open>hinata_validate_uuid_format\<close>: 36 characters, hyphens at 8, 13, 18 and 23.\<close>

definition hinata_validate_uuid_format :: "validation_env \<Rightarrow> string \<Rightarrow> bool" where
  "hinata_validate_uuid_format env uuid =
     (length uuid = HINATA_UUID_PATTERN_LENGTH \<and>
      list_all (\<lambda>i. if i = 8 \<or> i = 13 \<or> i = 18 \<or> i = 23 then uuid ! i = CHR ''-''
                     else isxdigit env (byte_of (uuid ! i)))
        [0..<HINATA_UUID_PATTERN_LENGTH])"

text \<open>
  \<open>hinata_is_printable_string\<close> on a byte buffer: the scan stops at \<open>max_len\<close> or at
  the first NUL.
\<close>

definition hinata_is_printable_string :: "validation_env \<Rightarrow> u8 list \<Rightarrow> bool" where
  "hinata_is_printable_string env bytes =
     list_all (\<lambda>b. isprint env b \<or> isspace env b) (takeWhile (\<lambda>b. b \<noteq> 0) bytes)"

definition hinata_validate_content_integrity :: "validation_env \<Rightarrow> addr option \<Rightarrow> u64 \<Rightarrow> u32 \<Rightarrow> bool" where
  "hinata_validate_content_integrity env ptr sz expected_hash =
     (case ptr of
        None \<Rightarrow> False
      | Some a \<Rightarrow> sz \<noteq> 0 \<and> crc32 env (read_bytes (mem env) a sz) = expected_hash)"

definition hinata_validate_metadata_format :: "validation_env \<Rightarrow> addr option \<Rightarrow> u64 \<Rightarrow> bool" where
  "hinata_validate_metadata_format env ptr sz =
     (case ptr of
        None \<Rightarrow> False
      | Some a \<Rightarrow> sz \<noteq> 0 \<and>
          list_all (\<lambda>b. isprint env b \<or> isspace env b) (read_bytes (mem env) a sz))"

text \<open>
  The tag array has \<open>HINATA_MAX_TAGS\<close> slots; slots the packet never filled are empty
  strings.
\<close>

definition tag_at :: "string list \<Rightarrow> nat \<Rightarrow> string" where
  "tag_at ts i = (if i < length ts then ts ! i else [])"

definition hinata_validate_tags_format :: "validation_env \<Rightarrow> string list \<Rightarrow> u64 \<Rightarrow> bool" where
  "hinata_validate_tags_format env ts cnt =
     (unat cnt \<le> HINATA_MAX_TAGS \<and>
      list_all (\<lambda>i. let tag = tag_at ts i in
                   length tag \<noteq> 0 \<and> length tag < HINATA_MAX_TAG_LENGTH \<and>
                   list_all (\<lambda>c. isalnum env (byte_of c) \<or> c = CHR ''_'' \<or> c = CHR ''-'') tag)
        [0..<unat cnt])"

definition hinata_validate_source_format :: "validation_env \<Rightarrow> string \<Rightarrow> bool" where
  "hinata_validate_source_format env src =
     (length src \<noteq> 0 \<and> length src < HINATA_MAX_SOURCE_LENGTH \<and>
      hinata_is_printable_string env (map byte_of src))"

definition hinata_validate_timestamps :: "validation_env \<Rightarrow> u64 \<Rightarrow> u64 \<Rightarrow> bool" where
  "hinata_validate_timestamps env c u =
     (\<not> (c = 0 \<or> u = 0) \<and> \<not> u < c \<and> \<not> (c > current_ns env \<or> u > current_ns env))"

text \<open>
  \<open>hinata_validate_packet_structure\<close>: the checks in the order of the source; every
  failure is \<open>-EINVAL\<close>. The reference count is read as a signed \<open>int\<close>.
\<close>

definition hinata_validate_packet_structure :: "validation_env \<Rightarrow> hinata_packet option \<Rightarrow> int" where
  "hinata_validate_packet_structure env packet =
     (case packet of
        None \<Rightarrow> - EINVAL
      | Some p \<Rightarrow>
          if pkt_magic p \<noteq> HINATA_PACKET_MAGIC then - EINVAL
          else if pkt_version p \<noteq> HINATA_PACKET_VERSION then - EINVAL
          else if \<not> hinata_validate_uuid_format env (pkt_id p) then - EINVAL
          else if \<not> is_valid_type env (pkt_type p) then - EINVAL
          else if \<not> is_valid_priority env (pkt_priority p) then - EINVAL
          else if \<not> is_valid_status env (pkt_status p) then - EINVAL
          else if content_size p = 0 \<or> content_size p > HINATA_MAX_CONTENT_SIZE then - EINVAL
          else if metadata_size p > HINATA_MAX_METADATA_SIZE then - EINVAL
          else if content p = None then - EINVAL
          else if metadata_size p > 0 \<and> metadata p = None then - EINVAL
          else if \<not> hinata_validate_source_format env (pkt_source p) then - EINVAL
          else if \<not> hinata_validate_timestamps env (created_at p) (updated_at p) then - EINVAL
          else if \<not> hinata_validate_tags_format env (pkt_tags p) (tag_count p) then - EINVAL
          else if sint (ref_count p) \<le> 0 then - EINVAL
          else 0)"

text \<open>
  \<open>hinata_validate_packet_content\<close>: counts the call, checks the CRC, then the
  type-specific rule.
\<close>

definition hinata_validate_packet_content ::
  "validation_state \<Rightarrow> validation_env \<Rightarrow> hinata_packet option \<Rightarrow> int \<times> validation_state" where
  "hinata_validate_packet_content vs env packet =
     (case packet of
        None \<Rightarrow> (- EINVAL, vs)
      | Some p \<Rightarrow>
          if content p = None then (- EINVAL, vs)
          else
            let vs1 = vs\<lparr>content_validation_count := content_validation_count vs + 1\<rparr>;
                text_ok = hinata_is_printable_string env
                            (read_bytes (mem env) (the (content p)) (content_size p))
            in if \<not> hinata_validate_content_integrity env (content p) (content_size p)
                       (content_hash p)
               then (- EINVAL, vs1)
               else if pkt_type p = HINATA_PACKET_TEXT \<or> pkt_type p = HINATA_PACKET_MARKDOWN
               then (if \<not> text_ok then (- EINVAL, vs1) else (0, vs1))
               else if pkt_type p = HINATA_PACKET_CODE
               then (if \<not> text_ok then (- EINVAL, vs1) else (0, vs1))
               else if pkt_type p = HINATA_PACKET_LINK
               then (if content_size p > 2048 then (- EINVAL, vs1) else (0, vs1))
               else if pkt_type p = HINATA_PACKET_DATA \<or> pkt_type p = HINATA_PACKET_IMAGE \<or>
                       pkt_type p = HINATA_PACKET_AUDIO \<or> pkt_type p = HINATA_PACKET_VIDEO \<or>
                       pkt_type p = HINATA_PACKET_DOCUMENT \<or> pkt_type p = HINATA_PACKET_ARCHIVE
               then (if content_size p > HINATA_MAX_CONTENT_SIZE then (- EINVAL, vs1) else (0, vs1))
               else (0, vs1))"

definition hinata_validate_packet_metadata ::
  "validation_state \<Rightarrow> validation_env \<Rightarrow> hinata_packet option \<Rightarrow> int \<times> validation_state" where
  "hinata_validate_packet_metadata vs env packet =
     (case packet of
        None \<Rightarrow> (- EINVAL, vs)
      | Some p \<Rightarrow>
          if metadata_size p = 0 then (0, vs)
          else if metadata p = None then (- EINVAL, vs)
          else
            let vs1 = vs\<lparr>metadata_validation_count := metadata_validation_count vs + 1\<rparr>
            in if \<not> hinata_validate_metadata_format env (metadata p) (metadata_size p)
               then (- EINVAL, vs1) else (0, vs1))"

text \<open>\<open>strstr(haystack, needle) != NULL\<close>.\<close>

fun strstr_found :: "string \<Rightarrow> string \<Rightarrow> bool" where
  "strstr_found [] needle = (needle = [])"
| "strstr_found (c # cs) needle =
     (take (length needle) (c # cs) = needle \<or> strstr_found cs needle)"

text \<open>
  \<open>hinata_validate_packet_security\<close>: the NUL scan runs over the first
  \<open>content_size - 1\<close> bytes of text and code content (the subtraction is unsigned),
  then the source and the tag lengths are checked.
\<close>

definition hinata_validate_packet_security :: "validation_env \<Rightarrow> hinata_packet option \<Rightarrow> int" where
  "hinata_validate_packet_security env packet =
     (case packet of
        None \<Rightarrow> - EINVAL
      | Some p \<Rightarrow>
          if (pkt_type p = HINATA_PACKET_TEXT \<or> pkt_type p = HINATA_PACKET_CODE) \<and>
             (0 :: u8) \<in> set (case content p of
                               None \<Rightarrow> []
                             | Some a \<Rightarrow> read_bytes (mem env) a (content_size p - 1))
          then - EINVAL
          else if strstr_found (pkt_source p) ''..'' \<or> strstr_found (pkt_source p) ''/''
          then - EINVAL
          else if \<not> list_all (\<lambda>i. length (tag_at (pkt_tags p) i) < HINATA_MAX_TAG_LENGTH)
                       [0..<unat (tag_count p)]
          then - EINVAL
          else 0)"

text \<open>
  \<open>hinata_validate_packet_integrity\<close>: the recomputed CRC and the recomputed total
  size (in \<open>size_t\<close> arithmetic) must equal the stored ones.
\<close>

definition hinata_validate_packet_integrity :: "validation_env \<Rightarrow> hinata_packet option \<Rightarrow> int" where
  "hinata_validate_packet_integrity env packet =
     (case packet of
        None \<Rightarrow> - EINVAL
      | Some p \<Rightarrow>
          (case content p of
             None \<Rightarrow> - EINVAL
           | Some a \<Rightarrow>
               if crc32 env (read_bytes (mem env) a (content_size p)) \<noteq> content_hash p
               then - EINVAL
               else
                 let expected_size =
                       sizeof_hinata_packet + content_size p +
                       (if metadata_size p > 0 then metadata_size p else 0)
                 in if pkt_size p \<noteq> expected_size then - EINVAL else 0))"

text \<open>\<open>time_before(a, b)\<close> is \<open>(long)(a - b) < 0\<close>.\<close>

definition time_before :: "u64 \<Rightarrow> u64 \<Rightarrow> bool" where
  "time_before a b = (sint (a - b) < 0)"

definition key_match :: "validation_cache_entry \<Rightarrow> string \<Rightarrow> u32 \<Rightarrow> bool" where
  "key_match e ident h = (vc_id e = ident \<and> vc_content_hash e = h)"

text \<open>
  \<open>hinata_validation_cache_lookup\<close>: the scan stops at the first slot whose id and
  hash match. A fresh entry answers with 1 or 0; an expired one is zeroed and the result
  is \<open>-1\<close>, as it is when no slot matches.
\<close>

definition hinata_validation_cache_lookup ::
  "validation_state \<Rightarrow> validation_env \<Rightarrow> string \<Rightarrow> u32 \<Rightarrow> int \<times> validation_state" where
  "hinata_validation_cache_lookup vs env ident h =
     (case find (\<lambda>i. key_match (validation_cache vs i) ident h)
             [0..<HINATA_VALIDATION_CACHE_SIZE] of
        None \<Rightarrow> (- 1, vs)
      | Some i \<Rightarrow>
          if time_before (jiffies_lookup env)
               (vc_timestamp (validation_cache vs i) + 5 * 60 * HZ)
          then (if vc_is_valid (validation_cache vs i) then 1 else 0, vs)
          else (- 1, vs\<lparr>validation_cache := (validation_cache vs)(i := zero_entry)\<rparr>))"

text \<open>
  \<open>hinata_validation_cache_add\<close>: the slot is the incremented 32-bit counter, read as
  an \<open>int\<close>, modulo 256 with C's remainder, which is negative for a negative counter
  that is no multiple of 256; the array write is then outside the array, and the model
  reports a fault. The id is copied with \<open>strncpy\<close> up to 36 characters.
\<close>

datatype cache_fault = OutOfBounds

definition c_rem :: "int \<Rightarrow> int \<Rightarrow> int" where
  "c_rem a b = (if a \<ge> 0 then a mod b else - ((- a) mod b))"

definition hinata_validation_cache_add ::
  "validation_state \<Rightarrow> validation_env \<Rightarrow> string \<Rightarrow> u32 \<Rightarrow> bool
     \<Rightarrow> cache_fault + validation_state" where
  "hinata_validation_cache_add vs env ident h is_valid =
     (let counter = cache_index vs + 1;
          index = c_rem (sint counter) (int HINATA_VALIDATION_CACHE_SIZE);
          vs1 = vs\<lparr>cache_index := counter\<rparr>
      in if index < 0 then Inl OutOfBounds
         else Inr (vs1\<lparr>validation_cache := (validation_cache vs1)
                         (nat index := \<lparr>vc_id = take (HINATA_UUID_LENGTH - 1) ident,
                                        vc_content_hash = h,
                                        vc_is_valid = is_valid,
                                        vc_timestamp = jiffies_add env\<rparr>)\<rparr>))"

text \<open>
  The staged checks of \<open>hinata_validate_packet_full\<close> between the cache lookup and
  the cache insertion: the structure check always runs, the others when their flag is
  set (the metadata check also needs a metadata pointer); the first failure ends them.
\<close>

definition run_validation_stages ::
  "validation_state \<Rightarrow> validation_env \<Rightarrow> hinata_packet \<Rightarrow> u32 \<Rightarrow> int \<times> validation_state" where
  "run_validation_stages vs env p flags =
     (let r1 = hinata_validate_packet_structure env (Some p) in
      if r1 < 0 then (r1, vs)
      else
        let (r2, vs2) = (if flags AND HINATA_VALIDATE_CONTENT \<noteq> 0
                         then hinata_validate_packet_content vs env (Some p) else (0, vs)) in
        if r2 < 0 then (r2, vs2)
        else
          let (r3, vs3) = (if flags AND HINATA_VALIDATE_METADATA \<noteq> 0 \<and> metadata p \<noteq> None
                           then hinata_validate_packet_metadata vs2 env (Some p) else (0, vs2)) in
          if r3 < 0 then (r3, vs3)
          else
            let r4 = (if flags AND HINATA_VALIDATE_SECURITY \<noteq> 0
                      then hinata_validate_packet_security env (Some p) else 0) in
            if r4 < 0 then (r4, vs3)
            else
              let r5 = (if flags AND HINATA_VALIDATE_INTEGRITY \<noteq> 0
                        then hinata_validate_packet_integrity env (Some p) else 0) in
              if r5 < 0 then (r5, vs3) else (0, vs3))"

text \<open>
  \<open>hinata_validate_packet_full\<close>: a NULL packet fails at once; without the
  force-recheck flag a cache answer ends the call; otherwise the stages run and their
  verdict is written to the cache, on success and at the label \<open>validation_failed\<close>.
\<close>

definition hinata_validate_packet_full ::
  "validation_state \<Rightarrow> validation_env \<Rightarrow> hinata_packet option \<Rightarrow> u32
     \<Rightarrow> cache_fault + (int \<times> validation_state)" where
  "hinata_validate_packet_full vs env packet flags =
     (case packet of
        None \<Rightarrow> Inr (- EINVAL, vs\<lparr>validation_failure_count := validation_failure_count vs + 1\<rparr>)
      | Some p \<Rightarrow>
          let vs0 = vs\<lparr>validation_count := validation_count vs + 1\<rparr>;
              (cached, vs1) =
                (if flags AND HINATA_VALIDATE_FORCE_RECHECK = 0
                 then hinata_validation_cache_lookup vs0 env (pkt_id p) (content_hash p)
                 else (- 1, vs0))
          in if cached > 0
             then Inr (0, vs1\<lparr>validation_success_count := validation_success_count vs1 + 1\<rparr>)
             else if cached = 0
             then Inr (- EINVAL,
                       vs1\<lparr>validation_failure_count := validation_failure_count vs1 + 1\<rparr>)
             else
               (case run_validation_stages vs1 env p flags of
                  (ret, vs2) \<Rightarrow>
                    (case hinata_validation_cache_add vs2 env (pkt_id p) (content_hash p)
                            (ret = 0) of
                       Inl f \<Rightarrow> Inl f
                     | Inr vs3 \<Rightarrow>
                         if ret = 0
                         then Inr (0, vs3\<lparr>validation_success_count :=
                                             validation_success_count vs3 + 1\<rparr>)
                         else Inr (ret, vs3\<lparr>validation_failure_count :=
                                               validation_failure_count vs3 + 1\<rparr>))))"

text \<open>The slot at which \<open>hinata_validation_cache_lookup\<close> stops for a key, if any.\<close>

definition first_matching_slot :: "validation_state \<Rightarrow> string \<Rightarrow> u32 \<Rightarrow> nat option" where
  "first_matching_slot vs ident h =
     find (\<lambda>i. key_match (validation_cache vs i) ident h) [0..<HINATA_VALIDATION_CACHE_SIZE]"

text \<open>
  A sequence of validation calls, each with its environment, packet and flags: the
  results in order, and the final state unless a call faulted.
\<close>

definition validate_calls ::
  "validation_state \<Rightarrow> (validation_env \<times> hinata_packet \<times> u32) list
     \<Rightarrow> int list \<times> validation_state option" where
  "validate_calls vs cs =
     foldl (\<lambda>(rs, st) (env, p, flags).
              case st of
                None \<Rightarrow> (rs, None)
              | Some s \<Rightarrow>
                  (case hinata_validate_packet_full s env (Some p) flags of
                     Inl f \<Rightarrow> (rs, None)
                   | Inr (r, s') \<Rightarrow> (rs @ [r], Some s')))
       ([], Some vs) cs"

section \<open>Packet creation and cloning (core/hinata\_packet.c)\<close>

text \<open>
  \<open>hinata_validate_uuid\<close> (hinata\_validation.c): false for NULL, otherwise the call is
  counted and the format decides.
\<close>

definition hinata_validate_uuid ::
  "validation_state \<Rightarrow> validation_env \<Rightarrow> string option \<Rightarrow> bool \<times> validation_state" where
  "hinata_validate_uuid vs env uuid =
     (case uuid of
        None \<Rightarrow> (False, vs)
      | Some u \<Rightarrow> (hinata_validate_uuid_format env u,
                   vs\<lparr>uuid_validation_count := uuid_validation_count vs + 1\<rparr>))"

text \<open>
  \<open>hinata_packet_validate_internal\<close>: the checks in the order of the source, with the
  size limits of hinata\_packet.c. The content is read from the memory \<open>m\<close>.
\<close>

definition hinata_packet_validate_internal ::
  "validation_state \<Rightarrow> validation_env \<Rightarrow> (addr \<rightharpoonup> u8 list) \<Rightarrow> hinata_packet
     \<Rightarrow> int \<times> validation_state" where
  "hinata_packet_validate_internal vs env m p =
     (if pkt_magic p \<noteq> HINATA_PACKET_MAGIC then (- EINVAL, vs)
      else if pkt_version p \<noteq> HINATA_PACKET_VERSION then (- EINVAL, vs)
      else if pkt_type p \<ge> HINATA_PACKET_TYPE_MAX then (- EINVAL, vs)
      else
        (case hinata_validate_uuid vs env (Some (pkt_id p)) of
           (uuid_ok, vs1) \<Rightarrow>
             if \<not> uuid_ok then (- EINVAL, vs1)
             else if content p = None \<or> content_size p = 0 then (- EINVAL, vs1)
             else if content_size p > packet_c_HINATA_MAX_CONTENT_SIZE then (- EINVAL, vs1)
             else if metadata_size p > 0 \<and> metadata p = None then (- EINVAL, vs1)
             else if metadata_size p > HINATA_MAX_METADATA_SIZE then (- EINVAL, vs1)
             else if length (pkt_source p) = 0 then (- EINVAL, vs1)
             else if unat (tag_count p) > HINATA_MAX_TAGS then (- EINVAL, vs1)
             else if crc32 env (read_bytes m (the (content p)) (content_size p)) \<noteq> content_hash p
             then (- EINVAL, vs1)
             else if created_at p = 0 \<or> updated_at p = 0 then (- EINVAL, vs1)
             else if updated_at p < created_at p then (- EINVAL, vs1)
             else (0, vs1)))"

text \<open>\<open>hinata_packet_validate\<close>: \<open>-EINVAL\<close> for NULL, otherwise a counted check.\<close>

definition hinata_packet_validate ::
  "validation_state \<Rightarrow> validation_env \<Rightarrow> packet_state \<Rightarrow> hinata_packet option
     \<Rightarrow> int \<times> packet_state \<times> validation_state" where
  "hinata_packet_validate vs env st packet =
     (case packet of
        None \<Rightarrow> (- EINVAL, st, vs)
      | Some p \<Rightarrow>
          (case hinata_packet_validate_internal vs env (kmem st) p of
             (ret, vs1) \<Rightarrow>
               (ret, st\<lparr>packet_validate_count := packet_validate_count st + 1\<rparr>, vs1)))"

text \<open>
  What \<open>hinata_packet_create\<close> takes from outside: the object that the slab cache
  returns, the result of \<open>hinata_generate_uuid\<close> (hinata\_core.h declares it, no source
  file defines it) and the string it leaves in the id array, the wall clock, the two
  buffers from \<open>kmalloc\<close>, whether the hash node can be allocated, and \<open>jiffies\<close>.
\<close>

record create_env =
  packet_alloc :: "addr option"
  generate_uuid :: "int \<times> string"
  real_time_ns :: u64
  content_kmalloc :: "addr option"
  metadata_kmalloc :: "addr option"
  node_alloc_ok :: bool
  node_jiffies :: u64

text \<open>The entry \<open>i\<close> of an array of string pointers; an entry that is not there is NULL.\<close>

definition tag_ptr_at :: "string option list \<Rightarrow> nat \<Rightarrow> string option" where
  "tag_ptr_at ts i = (if i < length ts then ts ! i else None)"

text \<open>
  \<open>hinata_packet_create\<close>. The arguments are checked before anything is allocated;
  the structure is zeroed and filled, the content and the metadata are copied into
  buffers of their own, the CRC of the copy becomes \<open>content_hash\<close>, the reference
  count is 1, and the packet is registered in the hash table (a failure to register is
  ignored). On the way out through an error label the buffers obtained so far are
  released again. Reading the content or metadata through a pointer to released memory
  is reported as a fault.
\<close>

definition hinata_packet_create ::
  "(string \<Rightarrow> nat) \<Rightarrow> validation_env \<Rightarrow> create_env \<Rightarrow> packet_state \<Rightarrow> u32
     \<Rightarrow> addr option \<Rightarrow> u64 \<Rightarrow> addr option \<Rightarrow> u64 \<Rightarrow> string option
     \<Rightarrow> string option list option \<Rightarrow> u64
     \<Rightarrow> fault + (addr option \<times> packet_state)" where
  "hinata_packet_create bucket env cenv st type content_ptr content_sz metadata_ptr metadata_sz
       source tags tag_cnt =
     (if content_ptr = None \<or> content_sz = 0 \<or> content_sz > packet_c_HINATA_MAX_CONTENT_SIZE
      then Inr (None, st)
      else if metadata_ptr \<noteq> None \<and> metadata_sz > HINATA_MAX_METADATA_SIZE then Inr (None, st)
      else if source = None \<or> length (the source) = 0 then Inr (None, st)
      else if unat tag_cnt > HINATA_MAX_TAGS then Inr (None, st)
      else
        let total_size = sizeof_hinata_packet + content_sz +
                           (if metadata_ptr \<noteq> None then metadata_sz else 0)
        in if total_size > packet_c_HINATA_MAX_PACKET_SIZE then Inr (None, st)
           else
             (case packet_alloc cenv of
                None \<Rightarrow> Inr (None, st)
              | Some ptr \<Rightarrow>
                  if fst (generate_uuid cenv) < 0 then Inr (None, st)
                  else
                    (case content_kmalloc cenv of
                       None \<Rightarrow> Inr (None, st)
                     | Some c \<Rightarrow>
                         (case kmem st (the content_ptr) of
                            None \<Rightarrow> Inl UseAfterFree
                          | Some content_bytes \<Rightarrow>
                              let copied = take (unat content_sz) content_bytes;
                                  st1 = st\<lparr>kmem := (kmem st)(c \<mapsto> copied)\<rparr>;
                                  with_metadata = (metadata_ptr \<noteq> None \<and> metadata_sz > 0)
                              in if with_metadata \<and> metadata_kmalloc cenv = None
                                 then Inr (None, kfree st1 (Some c))
                                 else if with_metadata \<and> kmem st1 (the metadata_ptr) = None
                                 then Inl UseAfterFree
                                 else
                                   let st2 = (if with_metadata
                                              then st1\<lparr>kmem := (kmem st1)
                                                     (the (metadata_kmalloc cenv) \<mapsto>
                                                        take (unat metadata_sz)
                                                          (the (kmem st1 (the metadata_ptr))))\<rparr>
                                              else st1);
                                       packet =
                                         \<lparr>pkt_magic = HINATA_PACKET_MAGIC,
                                          pkt_version = HINATA_PACKET_VERSION,
                                          pkt_id = snd (generate_uuid cenv),
                                          pkt_type = type, pkt_priority = 0, pkt_status = 0,
                                          pkt_size = total_size, content_size = content_sz,
                                          metadata_size = metadata_sz,
                                          content_hash = crc32 env copied,
                                          created_at = real_time_ns cenv,
                                          updated_at = real_time_ns cenv,
                                          pkt_source = take (HINATA_MAX_SOURCE_LENGTH - 1) (the source),
                                          pkt_tags =
                                            (case tags of
                                               None \<Rightarrow> []
                                             | Some ts \<Rightarrow>
                                                 map (\<lambda>i. case tag_ptr_at ts i of
                                                             None \<Rightarrow> []
                                                           | Some t \<Rightarrow>
                                                               take (HINATA_MAX_TAG_LENGTH - 1) t)
                                                   [0..<unat tag_cnt]),
                                          tag_count = tag_cnt,
                                          content = Some c,
                                          metadata = (if with_metadata then metadata_kmalloc cenv
                                                      else None),
                                          ref_count = 1, pkt_flags = 0\<rparr>;
                                       st3 = st2\<lparr>packet_cache := (packet_cache st2)(ptr \<mapsto> packet)\<rparr>
                                   in (case hinata_packet_add_to_hash bucket st3 (node_alloc_ok cenv)
                                              (node_jiffies cenv) ptr of
                                         Inl f \<Rightarrow> Inl f
                                       | Inr (ret, st4) \<Rightarrow>
                                           Inr (Some ptr,
                                                st4\<lparr>packet_create_count :=
                                                      packet_create_count st4 + 1\<rparr>))))))"

text \<open>
  \<open>hinata_packet_clone\<close>: NULL for NULL and for a packet that \<open>hinata_packet_validate\<close>
  rejects; otherwise a new packet is created from the original's type, content,
  metadata, source and tags. The id, the timestamps, the priority, the status and the
  flags of the original are not carried over.
\<close>

definition hinata_packet_clone ::
  "(string \<Rightarrow> nat) \<Rightarrow> validation_env \<Rightarrow> create_env \<Rightarrow> packet_state \<Rightarrow> validation_state
     \<Rightarrow> hinata_packet option
     \<Rightarrow> fault + (addr option \<times> packet_state \<times> validation_state)" where
  "hinata_packet_clone bucket env cenv st vs original =
     (case original of
        None \<Rightarrow> Inr (None, st, vs)
      | Some p \<Rightarrow>
          (case hinata_packet_validate vs env st (Some p) of
             (ret, st1, vs1) \<Rightarrow>
               if ret < 0 then Inr (None, st1, vs1)
               else
                 let tags = map (\<lambda>i. Some (tag_at (pkt_tags p) i))
                              [0..<min (unat (tag_count p)) HINATA_MAX_TAGS]
                 in (case hinata_packet_create bucket env cenv st1 (pkt_type p) (content p)
                            (content_size p) (metadata p) (metadata_size p)
                            (Some (pkt_source p)) (Some tags) (tag_count p) of
                       Inl f \<Rightarrow> Inl f
                     | Inr (clone, st2) \<Rightarrow> Inr (clone, st2, vs1))))"

section \<open>Storage regions and the storage cache (storage/hinata\_storage.c)\<close>

definition HINATA_STORAGE_MAX_REGIONS :: nat where
  "HINATA_STORAGE_MAX_REGIONS = 64"

definition HINATA_STORAGE_CACHE_SIZE :: nat where
  "HINATA_STORAGE_CACHE_SIZE = 1024"

definition HINATA_STORAGE_BLOCK_SIZE :: u64 where
  "HINATA_STORAGE_BLOCK_SIZE = 4096"

definition HINATA_STORAGE_TYPE_PACKET :: u32 where
  "HINATA_STORAGE_TYPE_PACKET = 1"

definition HINATA_STORAGE_FLAG_DIRTY :: u32 where
  "HINATA_STORAGE_FLAG_DIRTY = push_bit 0 1"

definition HINATA_STORAGE_FLAG_CACHED :: u32 where
  "HINATA_STORAGE_FLAG_CACHED = push_bit 1 1"

definition HINATA_CACHE_DEFAULT_TTL :: u64 where
  "HINATA_CACHE_DEFAULT_TTL = 60 * 1000000000"

definition ENOSPC :: int where "ENOSPC = 28"

text \<open>\<open>sizeof(struct hinata_storage_header)\<close>; the structure is packed.\<close>

definition sizeof_hinata_storage_header :: u64 where
  "sizeof_hinata_storage_header = 124"

text \<open>
  Modelled from the spec: the constant \<open>HINATA_UUID_STRING_LENGTH\<close>, the size of a
  cache entry's key array, is used by the storage layer but defined nowhere in the
  sources; the spec says the key is the packet UUID, so it is the size of a packet's id
  array.
\<close>

definition HINATA_UUID_STRING_LENGTH :: nat where
  "HINATA_UUID_STRING_LENGTH = HINATA_UUID_LENGTH"

text \<open>
  Modelled from the spec: \<open>hinata_storage_store_packet\<close> validates through
  \<open>hinata_validate_packet(packet, HINATA_VALIDATION_FLAG_FULL)\<close>, and neither the
  function nor the flag is defined in the sources. The spec says that \<open>store_packet\<close>
  validates the packet at \<open>STANDARD\<close> level and that validation goes through the
  validation cache, so the call is \<open>hinata_validate_packet_full\<close> and the flag is
  \<open>HINATA_VALIDATE_STANDARD\<close>.
\<close>

definition HINATA_VALIDATION_FLAG_FULL :: u32 where
  "HINATA_VALIDATION_FLAG_FULL = HINATA_VALIDATE_STANDARD"

definition hinata_validate_packet ::
  "validation_state \<Rightarrow> validation_env \<Rightarrow> hinata_packet option \<Rightarrow> u32
     \<Rightarrow> cache_fault + (int \<times> validation_state)" where
  "hinata_validate_packet vs env packet flags = hinata_validate_packet_full vs env packet flags"

text \<open>\<open>struct hinata_storage_block\<close>.\<close>

record hinata_storage_block =
  sb_id :: u64
  sb_type :: u32
  sb_size :: u32
  sb_flags :: u32
  sb_checksum :: u32
  sb_offset :: u64
  sb_next_block :: u64
  sb_prev_block :: u64
  sb_ref_count :: u32
  sb_access_time :: u64
  sb_modify_time :: u64

text \<open>
  The buffer that \<open>store_packet\<close> fills: the image of the packet structure, then the
  content bytes and the metadata bytes where they were copied; \<open>ser_size\<close> is the
  buffer's size.
\<close>

record serialized_packet =
  ser_header :: hinata_packet
  ser_content :: "u8 list option"
  ser_metadata :: "u8 list option"
  ser_size :: u64

text \<open>
  \<open>struct hinata_storage_region\<close>. The backing file is \<open>None\<close> for a NULL file
  pointer and otherwise the packet records written to it: offset, buffer and the number
  of bytes \<open>kernel_write\<close> reported. The red-black tree \<open>block_tree\<close> and the
  \<open>free_list\<close> are the lists of their entries.
\<close>

record hinata_storage_region =
  region_name :: string
  region_path :: string
  region_type :: u32
  region_flags :: u32
  region_size :: u64
  used_size :: u64
  block_count :: u64
  backing_file :: "(u64 \<times> serialized_packet \<times> u64) list option"
  free_list :: "hinata_storage_block list"
  block_tree :: "hinata_storage_block list"
  region_packets_stored :: u64
  region_bytes_written :: u64

text \<open>\<open>struct hinata_storage_cache_entry\<close>.\<close>

record hinata_storage_cache_entry =
  ce_key :: string
  ce_data :: serialized_packet
  ce_size :: u64
  ce_flags :: u32
  ce_access_count :: u32
  ce_last_access :: u64
  ce_expiry_time :: u64
  ce_ref_count :: u32

text \<open>
  \<open>struct hinata_storage_context\<close> with the flag \<open>storage_initialized\<close>. The cache
  entries are objects in memory, so the hash chains and the LRU list hold their
  addresses.
\<close>

record hinata_storage_context =
  storage_initialized :: bool
  regions :: "nat \<Rightarrow> hinata_storage_region"
  region_count :: u32
  cache_entries :: "addr \<rightharpoonup> hinata_storage_cache_entry"
  cache :: "nat \<Rightarrow> addr list"
  cache_lru :: "addr list"
  cache_size :: u32
  stats_packets_stored :: u64
  stats_packets_loaded :: u64
  stats_packets_deleted :: u64
  stats_bytes_written :: u64
  stats_cache_hits :: u64
  stats_cache_misses :: u64

text \<open>
  What the storage layer takes from outside during one call: the kernel's string hash
  reduced to the cache's buckets, the id that \<open>hash_64\<close> derives from the packet's
  address, the clock, whether \<open>hinata_malloc\<close> returns the serialisation buffer, the
  result of \<open>kernel_write\<close>, the CRC of the buffer, the allocations of
  \<open>hinata_storage_cache_put\<close> and the characters that the entry's unzeroed memory
  holds from the last byte of the key array up to the next NUL, the clone that
  \<open>hinata_packet_clone\<close> makes of a cached packet, and for region creation whether the
  file opens (or the error) and how many header bytes are written.
\<close>

record storage_env =
  hash_str :: "string \<Rightarrow> nat"
  packet_hash_64 :: u64
  timestamp :: u64
  data_malloc_ok :: bool
  written :: u64
  buffer_crc32 :: u32
  entry_malloc :: "addr option"
  stale_key_tail :: string
  copy_malloc_ok :: bool
  packet_clone :: "hinata_packet \<Rightarrow> hinata_packet option"
  filp_open_error :: "int option"
  header_written :: u64

definition empty_region :: hinata_storage_region where
  "empty_region =
     \<lparr>region_name = [], region_path = [], region_type = 0, region_flags = 0, region_size = 0,
      used_size = 0, block_count = 0, backing_file = None, free_list = [], block_tree = [],
      region_packets_stored = 0, region_bytes_written = 0\<rparr>"

text \<open>The state after \<open>hinata_storage_init\<close>.\<close>

definition hinata_storage_init :: hinata_storage_context where
  "hinata_storage_init =
     \<lparr>storage_initialized = True, regions = (\<lambda>_. empty_region), region_count = 0,
      cache_entries = Map.empty, cache = (\<lambda>_. []), cache_lru = [], cache_size = 0,
      stats_packets_stored = 0, stats_packets_loaded = 0, stats_packets_deleted = 0,
      stats_bytes_written = 0, stats_cache_hits = 0, stats_cache_misses = 0\<rparr>"

text \<open>
  \<open>hinata_storage_region_init\<close>: open the file, write the header; on success the used
  size starts at the header size.
\<close>

definition hinata_storage_region_init ::
  "storage_env \<Rightarrow> hinata_storage_region \<Rightarrow> int \<times> hinata_storage_region" where
  "hinata_storage_region_init env region =
     (case filp_open_error env of
        Some err \<Rightarrow> (err, region)
      | None \<Rightarrow>
          if header_written env \<noteq> sizeof_hinata_storage_header
          then (- EIO, region\<lparr>backing_file := None\<rparr>)
          else (0, region\<lparr>backing_file := Some [], used_size := sizeof_hinata_storage_header\<rparr>))"

text \<open>
  \<open>hinata_storage_create_region\<close>: the first slot without a file is taken; name and
  path are copied with \<open>strncpy\<close>.
\<close>

definition hinata_storage_create_region ::
  "hinata_storage_context \<Rightarrow> storage_env \<Rightarrow> string option \<Rightarrow> string option \<Rightarrow> u32 \<Rightarrow> u64
     \<Rightarrow> int \<times> hinata_storage_context" where
  "hinata_storage_create_region st env name path type sz =
     (if \<not> storage_initialized st then (- ENODEV, st)
      else if name = None \<or> path = None \<or> sz = 0 then (- EINVAL, st)
      else
        (case find (\<lambda>i. backing_file (regions st i) = None) [0..<HINATA_STORAGE_MAX_REGIONS] of
           None \<Rightarrow> (- ENOSPC, st)
         | Some region_id \<Rightarrow>
             let region = (regions st region_id)
                   \<lparr>region_name := take 63 (the name), region_path := take 255 (the path),
                    region_type := type, region_size := sz, region_flags := 0\<rparr>
             in (case hinata_storage_region_init env region of
                   (ret, region') \<Rightarrow>
                     if ret \<noteq> 0
                     then (ret, st\<lparr>regions := (regions st)(region_id := region')\<rparr>)
                     else (int region_id,
                           st\<lparr>regions := (regions st)(region_id := region'),
                              region_count := region_count st + 1\<rparr>))))"


text \<open>The first entry of a hash chain whose key equals \<open>key\<close> (\<open>strcmp\<close>).\<close>

fun find_entry ::
  "(addr \<rightharpoonup> hinata_storage_cache_entry) \<Rightarrow> addr list \<Rightarrow> string \<Rightarrow> addr option" where
  "find_entry entries [] key = None"
| "find_entry entries (a # as) key =
     (case entries a of
        None \<Rightarrow> find_entry entries as key
      | Some e \<Rightarrow> if ce_key e = key then Some a else find_entry entries as key)"

text \<open>
  \<open>hinata_storage_cache_get\<close>: a hit bumps the entry's counters, moves it to the front
  of the LRU list and returns its data and size.
\<close>

definition hinata_storage_cache_get ::
  "hinata_storage_context \<Rightarrow> storage_env \<Rightarrow> string option
     \<Rightarrow> (serialized_packet \<times> u64) option \<times> hinata_storage_context" where
  "hinata_storage_cache_get st env key =
     (case key of
        None \<Rightarrow> (None, st)
      | Some k \<Rightarrow>
          (case find_entry (cache_entries st) (cache st (hash_str env k)) k of
             None \<Rightarrow> (None, st)
           | Some a \<Rightarrow>
               (case cache_entries st a of
                  None \<Rightarrow> (None, st)
                | Some e \<Rightarrow>
                    let e' = e\<lparr>ce_access_count := ce_access_count e + 1,
                               ce_last_access := timestamp env,
                               ce_ref_count := ce_ref_count e + 1\<rparr>
                    in (Some (ce_data e, ce_size e),
                        st\<lparr>cache_entries := (cache_entries st)(a \<mapsto> e'),
                           cache_lru := a # remove1 a (cache_lru st)\<rparr>))))"

text \<open>
  \<open>hinata_storage_cache_put\<close>: a new entry with a copy of the data goes to the head of
  its hash chain and of the LRU list; an entry with the same key is not looked for. The
  key is copied with \<open>strncpy(entry->key, key, sizeof(entry->key) - 1)\<close> into memory
  that \<open>hinata_malloc\<close> does not zero: a shorter key arrives with its NUL, a key that
  fills the array up to its last byte is followed by whatever that byte and the memory
  behind it hold.
\<close>

definition hinata_storage_cache_put ::
  "hinata_storage_context \<Rightarrow> storage_env \<Rightarrow> string option \<Rightarrow> serialized_packet option \<Rightarrow> u64
     \<Rightarrow> int \<times> hinata_storage_context" where
  "hinata_storage_cache_put st env key data sz =
     (if key = None \<or> data = None \<or> sz = 0 then (- EINVAL, st)
      else
        (case entry_malloc env of
           None \<Rightarrow> (- ENOMEM, st)
         | Some a \<Rightarrow>
             if \<not> copy_malloc_ok env then (- ENOMEM, st)
             else
               let entry = \<lparr>ce_key =
                              (if length (the key) < HINATA_UUID_STRING_LENGTH - 1 then the key
                               else take (HINATA_UUID_STRING_LENGTH - 1) (the key) @
                                    stale_key_tail env),
                            ce_data = the data, ce_size = sz,
                            ce_flags = HINATA_STORAGE_FLAG_CACHED, ce_access_count = 1,
                            ce_last_access = timestamp env,
                            ce_expiry_time = timestamp env + HINATA_CACHE_DEFAULT_TTL,
                            ce_ref_count = 1\<rparr>;
                   hash_val = hash_str env (the key)
               in (0, st\<lparr>cache_entries := (cache_entries st)(a \<mapsto> entry),
                         cache := (cache st)(hash_val := a # cache st hash_val),
                         cache_lru := a # cache_lru st,
                         cache_size := cache_size st + 1\<rparr>)))"

text \<open>\<open>hinata_storage_cache_remove\<close>: the first entry with the key is unlinked and freed.\<close>

definition hinata_storage_cache_remove ::
  "hinata_storage_context \<Rightarrow> storage_env \<Rightarrow> string option \<Rightarrow> int \<times> hinata_storage_context" where
  "hinata_storage_cache_remove st env key =
     (case key of
        None \<Rightarrow> (- EINVAL, st)
      | Some k \<Rightarrow>
          (case find_entry (cache_entries st) (cache st (hash_str env k)) k of
             None \<Rightarrow> (- ENOENT, st)
           | Some a \<Rightarrow>
               (0, st\<lparr>cache_entries := (cache_entries st)(a := None),
                      cache := (cache st)(hash_str env k := remove1 a (cache st (hash_str env k))),
                      cache_lru := remove1 a (cache_lru st),
                      cache_size := cache_size st - 1\<rparr>)))"

text \<open>\<open>hinata_storage_cache_put_ref\<close>: the first entry with the key loses a reference.\<close>

definition hinata_storage_cache_put_ref ::
  "hinata_storage_context \<Rightarrow> storage_env \<Rightarrow> string option \<Rightarrow> hinata_storage_context" where
  "hinata_storage_cache_put_ref st env key =
     (case key of
        None \<Rightarrow> st
      | Some k \<Rightarrow>
          (case find_entry (cache_entries st) (cache st (hash_str env k)) k of
             None \<Rightarrow> st
           | Some a \<Rightarrow>
               (case cache_entries st a of
                  None \<Rightarrow> st
                | Some e \<Rightarrow>
                    st\<lparr>cache_entries :=
                         (cache_entries st)(a \<mapsto> e\<lparr>ce_ref_count := ce_ref_count e - 1\<rparr>)\<rparr>)))"

text \<open>The serialisation of \<open>store_packet\<close>: structure, content and metadata in one buffer.\<close>

definition serialize_packet :: "validation_env \<Rightarrow> hinata_packet \<Rightarrow> serialized_packet" where
  "serialize_packet venv p =
     \<lparr>ser_header = p,
      ser_content =
        (case content p of
           None \<Rightarrow> None
         | Some a \<Rightarrow> if content_size p > 0 then Some (read_bytes (mem venv) a (content_size p))
                     else None),
      ser_metadata =
        (case metadata p of
           None \<Rightarrow> None
         | Some a \<Rightarrow> if metadata_size p > 0 then Some (read_bytes (mem venv) a (metadata_size p))
                     else None),
      ser_size = sizeof_hinata_packet + content_size p + metadata_size p\<rparr>"

text \<open>
  \<open>hinata_storage_store_packet\<close>. The block record is filled in and then goes out of
  scope with the function: nothing links it into \<open>block_tree\<close>. The result carries the
  storage state and the validator's state.
\<close>

definition hinata_storage_store_packet ::
  "hinata_storage_context \<Rightarrow> validation_state \<Rightarrow> validation_env \<Rightarrow> storage_env
     \<Rightarrow> hinata_packet option \<Rightarrow> u32
     \<Rightarrow> cache_fault + (int \<times> hinata_storage_context \<times> validation_state)" where
  "hinata_storage_store_packet st vs venv env packet region_id =
     (if \<not> storage_initialized st \<or> packet = None then Inr (- EINVAL, st, vs)
      else if unat region_id \<ge> HINATA_STORAGE_MAX_REGIONS then Inr (- EINVAL, st, vs)
      else if backing_file (regions st (unat region_id)) = None then Inr (- ENOENT, st, vs)
      else
        (case hinata_validate_packet vs venv packet HINATA_VALIDATION_FLAG_FULL of
           Inl f \<Rightarrow> Inl f
         | Inr (ret, vs') \<Rightarrow>
             if ret \<noteq> HINATA_VALIDATION_SUCCESS then Inr (- EINVAL, st, vs')
             else
               let p = the packet;
                   region = regions st (unat region_id);
                   data = serialize_packet venv p;
                   data_size = ser_size data
               in if \<not> data_malloc_ok env then Inr (- ENOMEM, st, vs')
                  else
                    let offset = used_size region;
                        region_w = region\<lparr>backing_file := Some (the (backing_file region) @
                                                          [(offset, data, written env)])\<rparr>
                    in if written env \<noteq> data_size
                       then Inr (- EIO, st\<lparr>regions := (regions st)(unat region_id := region_w)\<rparr>,
                                 vs')
                       else
                         let block = \<lparr>sb_id = packet_hash_64 env,
                                      sb_type = HINATA_STORAGE_TYPE_PACKET,
                                      sb_size = ucast data_size,
                                      sb_flags = HINATA_STORAGE_FLAG_DIRTY,
                                      sb_checksum = buffer_crc32 env,
                                      sb_offset = offset + written env,
                                      sb_next_block = 0, sb_prev_block = 0, sb_ref_count = 1,
                                      sb_access_time = timestamp env,
                                      sb_modify_time = timestamp env\<rparr>;
                             region' = region_w
                               \<lparr>used_size := used_size region_w + data_size,
                                block_count := block_count region_w + 1,
                                region_packets_stored := region_packets_stored region_w + 1,
                                region_bytes_written := region_bytes_written region_w + data_size\<rparr>;
                             st1 = st\<lparr>regions := (regions st)(unat region_id := region')\<rparr>;
                             st2 = snd (hinata_storage_cache_put st1 env (Some (pkt_id p))
                                          (Some data) data_size)
                         in Inr (0, st2\<lparr>stats_packets_stored := stats_packets_stored st2 + 1,
                                        stats_bytes_written := stats_bytes_written st2 + data_size\<rparr>,
                                 vs')))"

text \<open>
  \<open>hinata_storage_load_packet\<close>: a cache hit clones the cached packet; after a miss the
  region is locked and unlocked again and the result is the placeholder \<open>-ENOENT\<close>,
  where the source has the comment ``TODO: Implement storage search and load logic''.
  The result carries the value stored through the output pointer, if any.
\<close>

definition hinata_storage_load_packet ::
  "hinata_storage_context \<Rightarrow> storage_env \<Rightarrow> string option \<Rightarrow> u32 \<Rightarrow> bool
     \<Rightarrow> int \<times> hinata_packet option \<times> hinata_storage_context" where
  "hinata_storage_load_packet st env packet_id region_id out_ptr_given =
     (if \<not> storage_initialized st \<or> packet_id = None \<or> \<not> out_ptr_given then (- EINVAL, None, st)
      else if unat region_id \<ge> HINATA_STORAGE_MAX_REGIONS then (- EINVAL, None, st)
      else
        (case hinata_storage_cache_get st env packet_id of
           (Some (data, data_size), st1) \<Rightarrow>
             let loaded = packet_clone env (ser_header data);
                 st2 = hinata_storage_cache_put_ref st1 env packet_id;
                 st3 = st2\<lparr>stats_cache_hits := stats_cache_hits st2 + 1\<rparr>
             in (if loaded \<noteq> None then 0 else - ENOMEM, loaded, st3)
         | (None, st1) \<Rightarrow>
             let st2 = st1\<lparr>stats_cache_misses := stats_cache_misses st1 + 1\<rparr>
             in if backing_file (regions st2 (unat region_id)) = None then (- ENOENT, None, st2)
                else (- ENOENT, None, st2)))"

text \<open>
  \<open>hinata_storage_delete_packet\<close>: the cache entry is removed; the region is not
  touched (``TODO: Implement storage deletion logic''), the result is 0.
\<close>

definition hinata_storage_delete_packet ::
  "hinata_storage_context \<Rightarrow> storage_env \<Rightarrow> string option \<Rightarrow> u32
     \<Rightarrow> int \<times> hinata_storage_context" where
  "hinata_storage_delete_packet st env packet_id region_id =
     (if \<not> storage_initialized st \<or> packet_id = None then (- EINVAL, st)
      else if unat region_id \<ge> HINATA_STORAGE_MAX_REGIONS then (- EINVAL, st)
      else if backing_file (regions st (unat region_id)) = None then (- ENOENT, st)
      else
        let st1 = snd (hinata_storage_cache_remove st env packet_id)
        in (0, st1\<lparr>stats_packets_deleted := stats_packets_deleted st1 + 1\<rparr>))"

section \<open>Concrete environments for running the validator and the storage layer\<close>

text \<open>
  An environment with the ASCII character classes, a stand-in checksum (the length of
  the data), the packet types, priorities and statuses of the header's enums as the
  valid ones, and the memory of \<open>example_packet_state\<close>.
\<close>

definition example_validation_env :: validation_env where
  "example_validation_env =
     \<lparr>crc32 = (\<lambda>bytes. of_nat (length bytes)),
      isprint = (\<lambda>b. 32 \<le> b \<and> b \<le> 126),
      isspace = (\<lambda>b. b = 32 \<or> (9 \<le> b \<and> b \<le> 13)),
      isalnum = (\<lambda>b. (48 \<le> b \<and> b \<le> 57) \<or> (65 \<le> b \<and> b \<le> 90) \<or> (97 \<le> b \<and> b \<le> 122)),
      isxdigit = (\<lambda>b. (48 \<le> b \<and> b \<le> 57) \<or> (65 \<le> b \<and> b \<le> 70) \<or> (97 \<le> b \<and> b \<le> 102)),
      is_valid_type = (\<lambda>t. t < 11),
      is_valid_priority = (\<lambda>t. t < 4),
      is_valid_status = (\<lambda>t. t < 6),
      current_ns = 2000,
      jiffies_lookup = 1000000,
      jiffies_add = 1000000,
      mem = [100 \<mapsto> [104, 101, 108, 108, 111], 101 \<mapsto> [123, 125]]\<rparr>"

text \<open>
  The environment of a packet creation that succeeds: the new structure at address 2,
  its buffers at 200 and 201, a fresh id.
\<close>

definition example_create_env :: create_env where
  "example_create_env =
     \<lparr>packet_alloc = Some 2,
      generate_uuid = (0, ''223e4567-e89b-12d3-a456-426614174000''),
      real_time_ns = 1500,
      content_kmalloc = Some 200,
      metadata_kmalloc = Some 201,
      node_alloc_ok = True,
      node_jiffies = 8\<rparr>"

text \<open>
  The storage environment of the examples. Its clone is the packet that
  \<open>hinata_packet_clone\<close> leaves in the slab cache when it runs in
  \<open>example_packet_state\<close> with \<open>example_create_env\<close>, if it returns one.
\<close>

definition example_storage_env :: storage_env where
  "example_storage_env =
     \<lparr>hash_str = (\<lambda>s. length s mod 1024),
      packet_hash_64 = 1,
      timestamp = 5000,
      data_malloc_ok = True,
      written = 1431,
      buffer_crc32 = 77,
      entry_malloc = Some 500,
      stale_key_tail = [],
      copy_malloc_ok = True,
      packet_clone =
        (\<lambda>p. case hinata_packet_clone example_bucket example_validation_env
                    example_create_env example_packet_state hinata_validation_init (Some p) of
                Inl f \<Rightarrow> None
              | Inr (None, st, vs) \<Rightarrow> None
              | Inr (Some a, st, vs) \<Rightarrow> packet_cache st a),
      filp_open_error = None,
      header_written = 124\<rparr>"

text \<open>A storage context with one freshly created region of 1 MB, in slot 0.\<close>

definition example_storage :: hinata_storage_context where
  "example_storage =
     snd (hinata_storage_create_region hinata_storage_init example_storage_env
            (Some ''r0'') (Some ''/tmp/r0'') HINATA_STORAGE_TYPE_PACKET (1024 * 1024))"

text \<open>
  Three variants of the example packet: one whose id is empty and whose stored hash is
  0, one whose source contains a slash (it passes the structure check and fails the
  security check), and one with a wrong magic number.
\<close>

definition zero_key_packet :: hinata_packet where
  "zero_key_packet = example_packet\<lparr>pkt_id := [], content_hash := 0\<rparr>"

definition slash_packet :: hinata_packet where
  "slash_packet = example_packet\<lparr>pkt_source := ''a/b''\<rparr>"


text \<open>The example environment at a later value of \<open>jiffies\<close>.\<close>

definition example_env_at :: "u64 \<Rightarrow> validation_env" where
  "example_env_at j = example_validation_env\<lparr>jiffies_lookup := j, jiffies_add := j\<rparr>"

text \<open>
  A validation state whose slot 3 holds a passing verdict for the example packet,
  written at jiffies 999000.
\<close>

definition example_cached_state :: validation_state where
  "example_cached_state =
     hinata_validation_init
       \<lparr>validation_cache :=
          (\<lambda>_. zero_entry)
            (3 := \<lparr>vc_id = ''123e4567-e89b-12d3-a456-426614174000'', vc_content_hash = 5,
                   vc_is_valid = True, vc_timestamp = 999000\<rparr>),
        cache_index := 3\<rparr>"





section \<open>Properties of the task queue and of task submission\<close>

lemma upt_8: "[0..<8] = [0,1,2,3,4,5,6,7::nat]" by code_simp

lemma queue_get_first:
  assumes "i < 8" "tasks q i = t # ts" "\<forall>j<i. tasks q j = []"
  shows "hinata_task_queue_get q =
     (Some t, q\<lparr>tasks := (tasks q)(i := ts), count := count q - 1,
                 pending_count := pending_count q - 1\<rparr>)"
proof -
  have "find (\<lambda>i. tasks q i \<noteq> []) [0..<8] = Some i"
    using assms by (auto simp: find_Some_iff)
  then show ?thesis using assms
    by (simp add: hinata_task_queue_get_def HINATA_WORKER_PRIORITY_LEVELS_def)
qed

lemma queue_get_empty:
  assumes "\<forall>j<8. tasks q j = []"
  shows "hinata_task_queue_get q = (None, q)"
proof -
  have "find (\<lambda>i. tasks q i \<noteq> []) [0..<8] = None"
    using assms by (auto simp: find_None_iff)
  then show ?thesis
    by (simp add: hinata_task_queue_get_def HINATA_WORKER_PRIORITY_LEVELS_def)
qed

lemma queue_add_tail:
  assumes "unat (task_priority t) < 8"
  shows "hinata_task_queue_add q (Some t) =
     (0, q\<lparr>tasks := (tasks q)(unat (task_priority t) := tasks q (unat (task_priority t)) @ [t]),
            count := count q + 1, pending_count := pending_count q + 1,
            tasks_queued := tasks_queued q + 1\<rparr>)"
  using assms by (simp add: hinata_task_queue_add_def HINATA_WORKER_PRIORITY_LEVELS_def Let_def)

lemma dequeue_example_lanes:
  assumes "task_priority a = 2" "task_priority b = 0" "task_priority c = 1" "task_priority d = 0"
  shows "fst (dequeue_n 4 (enqueue_all hinata_task_queue_init [a, b, c, d])) =
           [Some b, Some d, Some c, Some a]"
proof -
  define q0 where "q0 = enqueue_all hinata_task_queue_init [a, b, c, d]"
  have lanes: "tasks q0 = ((\<lambda>_. [])(0 := [b, d], 1 := [c], 2 := [a]))"
    unfolding q0_def using assms
    by (auto simp: queue_add_tail hinata_task_queue_init_def fun_upd_def)
  obtain q1 where g1: "hinata_task_queue_get q0 = (Some b, q1)"
    and l1: "tasks q1 = (tasks q0)(0 := [d])"
    using queue_get_first [of 0 q0 b "[d]"] by (simp add: lanes)
  obtain q2 where g2: "hinata_task_queue_get q1 = (Some d, q2)"
    and l2: "tasks q2 = (tasks q1)(0 := [])"
    using queue_get_first [of 0 q1 d "[]"] by (simp add: l1)
  obtain q3 where g3: "hinata_task_queue_get q2 = (Some c, q3)"
    and l3: "tasks q3 = (tasks q2)(1 := [])"
    using queue_get_first [of 1 q2 c "[]"] by (simp add: l2 l1 lanes)
  obtain q4 where g4: "hinata_task_queue_get q3 = (Some a, q4)"
    using queue_get_first [of 2 q3 a "[]"] by (simp add: l3 l2 l1 lanes less_Suc_eq numeral_2_eq_2)
  have "dequeue_n 4 q0 = ([Some b, Some d, Some c, Some a], q4)"
    by (simp add: eval_nat_numeral g1 g2 g3 g4)
  then show ?thesis by (simp add: q0_def)
qed

lemma submit_accepted:
  assumes "system_is_running pool" "request_accepted r"
  shows "\<exists>t. task_priority t = 0 \<and> task_fields t = request_fields r \<and>
           task_id t = hinata_task_id_counter pool + 1 \<and>
           hinata_submit_task pool (req_env r) (req_type r) (req_func r)
                        (req_data r) (req_data_size r) (req_flags r) =
           (sint (task_id t),
            pool\<lparr>task_queue := (task_queue pool)
                    \<lparr>tasks := (tasks (task_queue pool))(0 := tasks (task_queue pool) 0 @ [t]),
                     count := count (task_queue pool) + 1,
                     pending_count := pending_count (task_queue pool) + 1,
                     tasks_queued := tasks_queued (task_queue pool) + 1\<rparr>,
                 hinata_task_id_counter := hinata_task_id_counter pool + 1,
                 tasks_distributed := tasks_distributed pool + 1\<rparr>)"
proof -
  from assms(2) obtain f where f: "req_func r = Some f" and k: "kzalloc_ok (req_env r)"
    by (auto simp: request_accepted_def)
  obtain t where a: "hinata_task_alloc (hinata_task_id_counter pool) (req_env r) (req_type r)
                 (Some f) (req_data r) (req_data_size r) (req_flags r) =
               (Some t, hinata_task_id_counter pool + 1)"
    and p: "task_priority t = 0" and i: "task_id t = hinata_task_id_counter pool + 1"
    and tf: "task_fields t = request_fields r"
    by (simp add: hinata_task_alloc_def f k task_fields_def request_fields_def)
  have "unat (task_priority t) < 8" by (simp add: p)
  from queue_add_tail [OF this] show ?thesis
    by (intro exI [of _ t]) (simp add: p i tf a hinata_submit_task_def f assms(1))
qed

lemma submit_rejected:
  assumes "\<not> request_accepted r"
  shows "snd (hinata_submit_task pool (req_env r) (req_type r) (req_func r)
                        (req_data r) (req_data_size r) (req_flags r)) = pool"
  using assms
  by (auto simp: request_accepted_def hinata_submit_task_def hinata_task_alloc_def)

lemma submit_all_lanes:
  assumes "system_is_running pool"
  shows "\<exists>new. tasks (task_queue (submit_all pool reqs)) =
                  (tasks (task_queue pool))(0 := tasks (task_queue pool) 0 @ new) \<and>
               map task_fields new = map request_fields (filter request_accepted reqs) \<and>
               (\<forall>t \<in> set new. task_priority t = 0)"
  using assms
proof (induction reqs arbitrary: pool)
  case Nil
  then show ?case by (auto simp: fun_eq_iff)
next
  case (Cons r rs)
  show ?case
  proof (cases "request_accepted r")
    case False
    with Cons show ?thesis by (simp add: submit_rejected)
  next
    case True
    from submit_accepted [OF Cons.prems True] obtain t pool' where
      t: "task_priority t = 0" "task_fields t = request_fields r"
      and s: "hinata_submit_task pool (req_env r) (req_type r) (req_func r)
                        (req_data r) (req_data_size r) (req_flags r) = (sint (task_id t), pool')"
      and l: "tasks (task_queue pool') = (tasks (task_queue pool))(0 := tasks (task_queue pool) 0 @ [t])"
      and r: "system_is_running pool'"
      using Cons.prems by fastforce
    from Cons.IH [OF r] obtain new where
      n: "tasks (task_queue (submit_all pool' rs)) =
                  (tasks (task_queue pool'))(0 := tasks (task_queue pool') 0 @ new)"
         "map task_fields new = map request_fields (filter request_accepted rs)"
         "\<forall>t \<in> set new. task_priority t = 0"
      by blast
    show ?thesis
      by (rule exI [of _ "t # new"]) (use True t s l n in simp)
  qed
qed

lemma dequeue_lane0:
  assumes "\<forall>i. 0 < i \<and> i < 8 \<longrightarrow> tasks q i = []"
  shows "fst (dequeue_n (length (tasks q 0)) q) = map Some (tasks q 0)"
  using assms
proof (induction "tasks q 0" arbitrary: q)
  case Nil
  then show ?case by simp
next
  case (Cons t ts)
  have g: "hinata_task_queue_get q =
     (Some t, q\<lparr>tasks := (tasks q)(0 := ts), count := count q - 1,
                 pending_count := pending_count q - 1\<rparr>)"
    using queue_get_first [of 0 q t ts] Cons.hyps(2) by simp
  let ?q' = "q\<lparr>tasks := (tasks q)(0 := ts), count := count q - 1,
                 pending_count := pending_count q - 1\<rparr>"
  have "fst (dequeue_n (length (tasks ?q' 0)) ?q') = map Some (tasks ?q' 0)"
    by (rule Cons.hyps(1)) (use Cons.prems in auto)
  then show ?case
    using Cons.hyps(2) [symmetric] g by (simp add: case_prod_beta)
qed

text \<open>
  C4. Tasks enqueued into the lanes 2, 0, 1, 0 in that order are dequeued as: the first
  lane-0 task, the second lane-0 task, the lane-1 task, the lane-2 task. In general
  \<open>hinata_task_queue_get\<close> removes the head of the lowest-numbered lane that is not
  empty, and \<open>hinata_task_queue_add\<close> appends at the tail of the task's lane, so a
  lane is served in submission order.
\<close>

theorem task_queue_priority_ordering:
  "(task_priority a = 2 \<and> task_priority b = 0 \<and> task_priority c = 1 \<and> task_priority d = 0 \<longrightarrow>
      fst (dequeue_n 4 (enqueue_all hinata_task_queue_init [a, b, c, d])) =
        [Some b, Some d, Some c, Some a]) \<and>
   (i < HINATA_WORKER_PRIORITY_LEVELS \<and> tasks q i = t # ts \<and> (\<forall>j<i. tasks q j = []) \<longrightarrow>
      hinata_task_queue_get q =
        (Some t, q\<lparr>tasks := (tasks q)(i := ts), count := count q - 1,
                    pending_count := pending_count q - 1\<rparr>)) \<and>
   (unat (task_priority u) < HINATA_WORKER_PRIORITY_LEVELS \<longrightarrow>
      hinata_task_queue_add q (Some u) =
        (0, q\<lparr>tasks := (tasks q)(unat (task_priority u) :=
                             tasks q (unat (task_priority u)) @ [u]),
               count := count q + 1, pending_count := pending_count q + 1,
               tasks_queued := tasks_queued q + 1\<rparr>))"
  using dequeue_example_lanes [of a b c d] queue_get_first [of i q t ts] queue_add_tail [of u q]
  by (simp add: HINATA_WORKER_PRIORITY_LEVELS_def)

theorem task_queue_priority_ordering_witness:
  "task_priority (example_task 1 2) = 2 \<and> task_priority (example_task 2 0) = 0 \<and>
   task_priority (example_task 3 1) = 1 \<and> task_priority (example_task 4 0) = 0 \<and>
   fst (dequeue_n 4 (enqueue_all hinata_task_queue_init
          [example_task 1 2, example_task 2 0, example_task 3 1, example_task 4 0])) =
     [Some (example_task 2 0), Some (example_task 4 0), Some (example_task 3 1),
      Some (example_task 1 2)] \<and>
   (1::nat) < HINATA_WORKER_PRIORITY_LEVELS \<and>
   tasks (hinata_task_queue_init\<lparr>tasks := (\<lambda>_. [])(1 := [example_task 3 1, example_task 5 1])\<rparr>) 1 =
     example_task 3 1 # [example_task 5 1] \<and>
   tasks (hinata_task_queue_init\<lparr>tasks := (\<lambda>_. [])(1 := [example_task 3 1, example_task 5 1])\<rparr>) 0 = [] \<and>
   fst (hinata_task_queue_get
          (hinata_task_queue_init\<lparr>tasks := (\<lambda>_. [])(1 := [example_task 3 1, example_task 5 1])\<rparr>)) =
     Some (example_task 3 1) \<and>
   unat (task_priority (example_task 6 1)) < HINATA_WORKER_PRIORITY_LEVELS \<and>
   tasks (snd (hinata_task_queue_add
          (hinata_task_queue_init\<lparr>tasks := (\<lambda>_. [])(1 := [example_task 3 1, example_task 5 1])\<rparr>)
          (Some (example_task 6 1)))) 1 =
     [example_task 3 1, example_task 5 1, example_task 6 1]"
  using task_queue_priority_ordering
    [of "example_task 1 2" "example_task 2 0" "example_task 3 1" "example_task 4 0" 1
        "hinata_task_queue_init\<lparr>tasks := (\<lambda>_. [])(1 := [example_task 3 1, example_task 5 1])\<rparr>"
        "example_task 3 1" "[example_task 5 1]" "example_task 6 1"]
  by (simp add: example_task_def HINATA_WORKER_PRIORITY_LEVELS_def)

text \<open>
  C9. \<open>hinata_task_alloc\<close> gives every task priority 0, and \<open>hinata_submit_task\<close> has
  no priority parameter. So in a running system whose queue is empty, the accepted
  requests of any list of submissions all land in lane 0, in submission order, the other
  lanes stay empty, and taking as many tasks as were accepted returns them in that order.
\<close>

theorem submit_task_priority_zero_fifo:
  "(hinata_task_alloc counter env type func data data_size flags = (Some t, counter') \<longrightarrow>
      task_priority t = 0) \<and>
   (system_is_running pool \<and>
    (\<forall>i<HINATA_WORKER_PRIORITY_LEVELS. tasks (task_queue pool) i = []) \<longrightarrow>
      (\<forall>i<HINATA_WORKER_PRIORITY_LEVELS. 0 < i \<longrightarrow>
          tasks (task_queue (submit_all pool reqs)) i = []) \<and>
      (\<forall>t \<in> set (tasks (task_queue (submit_all pool reqs)) 0). task_priority t = 0) \<and>
      map task_fields (tasks (task_queue (submit_all pool reqs)) 0) =
        map request_fields (filter request_accepted reqs) \<and>
      fst (dequeue_n (length (filter request_accepted reqs)) (task_queue (submit_all pool reqs))) =
        map Some (tasks (task_queue (submit_all pool reqs)) 0))"
proof (intro conjI impI)
  assume "hinata_task_alloc counter env type func data data_size flags = (Some t, counter')"
  then show "task_priority t = 0"
    by (auto simp: hinata_task_alloc_def split: option.splits if_splits)
next
  assume h: "system_is_running pool \<and>
    (\<forall>i<HINATA_WORKER_PRIORITY_LEVELS. tasks (task_queue pool) i = [])"
  let ?q = "task_queue (submit_all pool reqs)"
  from h submit_all_lanes [of pool reqs] obtain new where
    n: "tasks ?q = (tasks (task_queue pool))(0 := tasks (task_queue pool) 0 @ new)"
       "map task_fields new = map request_fields (filter request_accepted reqs)"
       "\<forall>t \<in> set new. task_priority t = 0"
    by blast
  from h have l0: "tasks ?q 0 = new"
    by (simp add: n(1) HINATA_WORKER_PRIORITY_LEVELS_def)
  show others: "\<forall>i<HINATA_WORKER_PRIORITY_LEVELS. 0 < i \<longrightarrow> tasks ?q i = []"
    using h by (simp add: n(1))
  show "\<forall>t \<in> set (tasks ?q 0). task_priority t = 0"
    using n(3) by (simp add: l0)
  show m: "map task_fields (tasks ?q 0) = map request_fields (filter request_accepted reqs)"
    using n(2) by (simp add: l0)
  have len: "length (filter request_accepted reqs) = length (tasks ?q 0)"
    using arg_cong [OF m, of length] by simp
  have "\<forall>i. 0 < i \<and> i < 8 \<longrightarrow> tasks ?q i = []"
    using others by (simp add: HINATA_WORKER_PRIORITY_LEVELS_def)
  from dequeue_lane0 [OF this]
  show "fst (dequeue_n (length (filter request_accepted reqs)) ?q) = map Some (tasks ?q 0)"
    by (simp add: len)
qed

theorem submit_task_priority_zero_fifo_witness:
  "hinata_task_alloc 0 \<lparr>kzalloc_ok = True, ktime_ns = 100\<rparr> HINATA_TASK_TYPE_CUSTOM (Some 1)
       (Some 10) 0 0 =
     (Some ((example_task 1 0)\<lparr>task_data := Some 10, task_submit_time := 100\<rparr>), 1) \<and>
   task_priority ((example_task 1 0)\<lparr>task_data := Some 10, task_submit_time := 100\<rparr>) = 0 \<and>
   system_is_running example_pool \<and>
   list_all (\<lambda>i. tasks (task_queue example_pool) i = []) [0..<HINATA_WORKER_PRIORITY_LEVELS] \<and>
   map task_data (tasks (task_queue (submit_all example_pool
       [example_request 10, example_request 20, example_request 30])) 0) =
     [Some 10, Some 20, Some 30] \<and>
   fst (dequeue_n 3 (task_queue (submit_all example_pool
       [example_request 10, example_request 20, example_request 30]))) =
     map Some (tasks (task_queue (submit_all example_pool
       [example_request 10, example_request 20, example_request 30])) 0)"
proof -
  have a: "hinata_task_alloc 0 \<lparr>kzalloc_ok = True, ktime_ns = 100\<rparr> HINATA_TASK_TYPE_CUSTOM
       (Some 1) (Some 10) 0 0 =
     (Some ((example_task 1 0)\<lparr>task_data := Some 10, task_submit_time := 100\<rparr>), 1)"
    by (simp add: hinata_task_alloc_def example_task_def)
  have r: "system_is_running example_pool"
    by (simp add: example_pool_def)
  have e: "\<forall>i<HINATA_WORKER_PRIORITY_LEVELS. tasks (task_queue example_pool) i = []"
    by (simp add: example_pool_def hinata_task_queue_init_def)
  have f: "filter request_accepted [example_request 10, example_request 20, example_request 30] =
      [example_request 10, example_request 20, example_request 30]"
    by (simp add: request_accepted_def example_request_def)
  note inst = submit_task_priority_zero_fifo
    [of 0 "\<lparr>kzalloc_ok = True, ktime_ns = 100\<rparr>" HINATA_TASK_TYPE_CUSTOM "Some 1" "Some 10" 0 0
        "(example_task 1 0)\<lparr>task_data := Some 10, task_submit_time := 100\<rparr>" 1 example_pool
        "[example_request 10, example_request 20, example_request 30]"]
  from inst a have p: "task_priority ((example_task 1 0)\<lparr>task_data := Some 10, task_submit_time := 100\<rparr>) = 0"
    by blast
  from inst r e have
    m: "map task_fields (tasks (task_queue (submit_all example_pool
          [example_request 10, example_request 20, example_request 30])) 0) =
        map request_fields (filter request_accepted
          [example_request 10, example_request 20, example_request 30])"
    and d: "fst (dequeue_n (length (filter request_accepted
          [example_request 10, example_request 20, example_request 30]))
          (task_queue (submit_all example_pool
            [example_request 10, example_request 20, example_request 30]))) =
        map Some (tasks (task_queue (submit_all example_pool
          [example_request 10, example_request 20, example_request 30])) 0)"
    by blast+
  have "map (\<lambda>x. fst (snd (snd x))) (map task_fields (tasks (task_queue (submit_all example_pool
          [example_request 10, example_request 20, example_request 30])) 0)) =
        [Some 10, Some 20, Some 30]"
    unfolding m f by (simp add: request_fields_def example_request_def)
  then have md: "map task_data (tasks (task_queue (submit_all example_pool
       [example_request 10, example_request 20, example_request 30])) 0) =
     [Some 10, Some 20, Some 30]"
    by (simp add: task_fields_def comp_def)
  have len3: "length (filter request_accepted
      [example_request 10, example_request 20, example_request 30]) = 3"
    unfolding f by simp
  from d have d3: "fst (dequeue_n 3 (task_queue (submit_all example_pool
       [example_request 10, example_request 20, example_request 30]))) =
     map Some (tasks (task_queue (submit_all example_pool
       [example_request 10, example_request 20, example_request 30])) 0)"
    by (simp only: len3)
  from e have e': "list_all (\<lambda>i. tasks (task_queue example_pool) i = [])
      [0..<HINATA_WORKER_PRIORITY_LEVELS]"
    by (simp add: list_all_iff)
  from a p r e' md d3 show ?thesis by blast
qed

text \<open>
  C7. \<open>hinata_cancel_task\<close> returns \<open>-ENOSYS\<close> for a task that is still pending in the
  queue and leaves it there, although \<open>hinata_task_queue_remove\<close> would unlink it:
  task 1 is submitted to a running pool and is the only entry of lane 0 when it is
  cancelled.
\<close>

theorem cancel_pending_task_fails:
  "(case hinata_submit_task example_pool (req_env (example_request 10)) HINATA_TASK_TYPE_CUSTOM
           (Some 1) (Some 10) 0 0 of
      (r, pool1) \<Rightarrow>
        r = 1 \<and>
        map task_id (tasks (task_queue pool1) 0) = [1] \<and>
        hinata_cancel_task pool1 1 = (- 38, pool1) \<and>
        (case hinata_task_queue_remove (task_queue pool1)
                (Some (hd (tasks (task_queue pool1) 0))) False of
           Inl f \<Rightarrow> False
         | Inr queue \<Rightarrow>
             tasks queue 0 = [] \<and> count queue = 0 \<and> pending_count queue = 0 \<and>
             tasks_cancelled queue = 1))"
  by (simp add: hinata_submit_task_def hinata_task_alloc_def hinata_task_queue_add_def
      hinata_cancel_task_def hinata_task_queue_remove_def example_pool_def example_request_def
      hinata_task_queue_init_def HINATA_WORKER_PRIORITY_LEVELS_def ENOSYS_def upt_8)

section \<open>Properties of the memory manager\<close>

lemma heap_update_statistics [simp]: "heap (update_statistics ctx sz) = heap ctx"
  by (simp add: update_statistics_def Let_def)

lemma track_allocation_Some:
  assumes "track_allocation ctx env ptr sz = (Some p, ctx')"
  shows "p = ptr \<and> heap ctx' = heap ctx"
  using assms
  by (auto simp: track_allocation_def hinata_memory_block_create_def Let_def
      split: if_splits prod.splits option.splits)

lemma pool_alloc_Some:
  assumes "hinata_memory_pool_alloc ctx env sz = (Some p, ctx')"
  shows "heap ctx' p = Some (fresh_bytes env)"
  using assms
  by (auto simp: hinata_memory_pool_alloc_def Let_def split: option.splits)

lemma malloc_Some_heap:
  assumes "hinata_malloc ctx env sz = (Some p, ctx')"
  shows "heap ctx' p = Some (fresh_bytes env)"
proof -
  from assms have ok: "memory_initialized ctx" "sz \<noteq> 0" "\<not> sz > max_single_alloc ctx"
      "\<not> total_allocated ctx - total_freed ctx + sz > max_total_size ctx"
    by (auto simp: hinata_malloc_def split: if_splits)
  obtain r ctx1 where pa: "(if enable_pooling ctx then hinata_memory_pool_alloc ctx env sz else (None, ctx)) = (r, ctx1)"
    by (cases "if enable_pooling ctx then hinata_memory_pool_alloc ctx env sz else (None, ctx)")
  show ?thesis
  proof (cases r)
    case (Some ptr)
    with pa ok assms have t: "track_allocation ctx1 env ptr sz = (Some p, ctx')"
      by (simp add: hinata_malloc_def)
    from pa Some have "hinata_memory_pool_alloc ctx env sz = (Some ptr, ctx1)"
      by (simp split: if_splits)
    from pool_alloc_Some [OF this] track_allocation_Some [OF t] show ?thesis by simp
  next
    case None
    with pa ok assms obtain ptr where
      t: "track_allocation (ctx1\<lparr>heap := (heap ctx1)(ptr \<mapsto> fresh_bytes env)\<rparr>) env ptr sz = (Some p, ctx')"
      by (auto simp: hinata_malloc_def split: option.splits)
    from track_allocation_Some [OF t] show ?thesis by simp
  qed
qed

lemma malloc_limit:
  assumes "memory_initialized ctx" "sz \<noteq> 0"
    "sz > max_single_alloc ctx \<or> total_allocated ctx - total_freed ctx + sz > max_total_size ctx"
  shows "hinata_malloc ctx env sz = (None, ctx\<lparr>oom_count := oom_count ctx + 1\<rparr>)"
  using assms by (auto simp: hinata_malloc_def)

lemma calloc_guard_no_overflow:
  fixes nmemb sz :: u64
  assumes "\<not> (nmemb \<noteq> 0 \<and> sz > SIZE_MAX div nmemb)"
  shows "unat nmemb * unat sz < 2 ^ 64"
proof (cases "nmemb = 0")
  case True
  then show ?thesis by simp
next
  case False
  with assms have le: "sz \<le> SIZE_MAX div nmemb" by simp
  have n0: "0 < unat nmemb" using False by (simp add: unat_gt_0)
  have "unat sz \<le> unat (SIZE_MAX div nmemb)" using le by (simp add: word_le_nat_alt)
  also have "\<dots> = unat SIZE_MAX div unat nmemb" by (simp add: unat_div)
  finally have "unat nmemb * unat sz \<le> unat nmemb * (unat SIZE_MAX div unat nmemb)"
    by simp
  also have "\<dots> \<le> unat SIZE_MAX" by simp
  also have "\<dots> < 2 ^ 64" using unsigned_less [of SIZE_MAX, where 'a = nat] by simp
  finally show ?thesis .
qed

lemma calloc_mult_exact:
  fixes nmemb sz :: u64
  assumes "unat nmemb * unat sz < 2 ^ 64"
  shows "unat (nmemb * sz) = unat nmemb * unat sz"
  using assms unat_mult_lem [of nmemb sz] by simp

lemma calloc_Some:
  assumes "hinata_calloc ctx env nmemb sz = (Some p, ctx')"
  shows "\<not> (nmemb \<noteq> 0 \<and> sz > SIZE_MAX div nmemb) \<and>
         heap ctx' p = Some (replicate (unat (nmemb * sz)) 0 @ drop (unat (nmemb * sz)) (fresh_bytes env))"
proof -
  from assms have g: "\<not> (nmemb \<noteq> 0 \<and> sz > SIZE_MAX div nmemb)"
    by (auto simp: hinata_calloc_def split: if_splits)
  with assms obtain ctx1 where m: "hinata_malloc ctx env (nmemb * sz) = (Some p, ctx1)"
    and c: "ctx' = ctx1\<lparr>heap := memset_zero (heap ctx1) p (unat (nmemb * sz))\<rparr>"
    by (auto simp: hinata_calloc_def Let_def split: prod.splits option.splits if_splits)
  from malloc_Some_heap [OF m] c g show ?thesis
    by (simp add: memset_zero_def)
qed

text \<open>
  C5, as stated, fails in two ways that the first test of \<open>hinata_malloc\<close> decides:
  before initialisation (or after cleanup) a request above the single-allocation cap
  returns NULL but counts no out-of-memory event, and a request of size 0 made while the
  usage is above the total cap does the same.
\<close>

theorem malloc_limit_counterexample:
  "max_single_alloc memory_ctx_after_cleanup < HINATA_MEMORY_MAX_SINGLE + 1 \<and>
   fst (hinata_malloc memory_ctx_after_cleanup example_malloc_env (HINATA_MEMORY_MAX_SINGLE + 1)) = None \<and>
   oom_count (snd (hinata_malloc memory_ctx_after_cleanup example_malloc_env
                     (HINATA_MEMORY_MAX_SINGLE + 1))) \<noteq>
     oom_count memory_ctx_after_cleanup + 1 \<and>
   max_total_size memory_ctx_over_cap <
     total_allocated memory_ctx_over_cap - total_freed memory_ctx_over_cap + 0 \<and>
   fst (hinata_malloc memory_ctx_over_cap example_malloc_env 0) = None \<and>
   oom_count (snd (hinata_malloc memory_ctx_over_cap example_malloc_env 0)) \<noteq>
     oom_count memory_ctx_over_cap + 1"
  by (simp add: hinata_malloc_def memory_ctx_after_cleanup_def memory_ctx_over_cap_def
      hinata_memory_init_def HINATA_MEMORY_MAX_SINGLE_def HINATA_MEMORY_MAX_TOTAL_def)

text \<open>
  C5, amended. While the memory manager is initialised, a request of non-zero size that
  exceeds the single-allocation cap, or whose size added to the current usage
  (\<open>total_allocated - total_freed\<close>, in the unsigned 64-bit arithmetic of the code)
  exceeds the total cap, returns NULL, increments the out-of-memory counter by one and
  changes nothing else, so \<open>total_allocated\<close> keeps its value.
\<close>

theorem malloc_limit_rejects:
  "memory_initialized ctx \<and> sz \<noteq> 0 \<and>
   (sz > max_single_alloc ctx \<or>
    total_allocated ctx - total_freed ctx + sz > max_total_size ctx) \<longrightarrow>
     hinata_malloc ctx env sz = (None, ctx\<lparr>oom_count := oom_count ctx + 1\<rparr>) \<and>
     fst (hinata_malloc ctx env sz) = None \<and>
     oom_count (snd (hinata_malloc ctx env sz)) = oom_count ctx + 1 \<and>
     total_allocated (snd (hinata_malloc ctx env sz)) = total_allocated ctx"
  using malloc_limit [of ctx sz env] by simp

theorem malloc_limit_rejects_witness:
  "memory_initialized hinata_memory_init \<and> HINATA_MEMORY_MAX_SINGLE + 1 \<noteq> 0 \<and>
   HINATA_MEMORY_MAX_SINGLE + 1 > max_single_alloc hinata_memory_init \<and>
   fst (hinata_malloc hinata_memory_init example_malloc_env (HINATA_MEMORY_MAX_SINGLE + 1)) = None \<and>
   oom_count (snd (hinata_malloc hinata_memory_init example_malloc_env
                     (HINATA_MEMORY_MAX_SINGLE + 1))) = 1 \<and>
   total_allocated (snd (hinata_malloc hinata_memory_init example_malloc_env
                     (HINATA_MEMORY_MAX_SINGLE + 1))) = 0 \<and>
   memory_initialized memory_ctx_over_cap \<and> (1 :: u64) \<noteq> 0 \<and>
   total_allocated memory_ctx_over_cap - total_freed memory_ctx_over_cap + 1 >
     max_total_size memory_ctx_over_cap \<and>
   fst (hinata_malloc memory_ctx_over_cap example_malloc_env 1) = None \<and>
   oom_count (snd (hinata_malloc memory_ctx_over_cap example_malloc_env 1)) = 1 \<and>
   total_allocated (snd (hinata_malloc memory_ctx_over_cap example_malloc_env 1)) = 64"
  using malloc_limit_rejects [of hinata_memory_init "HINATA_MEMORY_MAX_SINGLE + 1" example_malloc_env]
    malloc_limit_rejects [of memory_ctx_over_cap 1 example_malloc_env]
  by (simp add: hinata_memory_init_def memory_ctx_over_cap_def HINATA_MEMORY_MAX_SINGLE_def
      HINATA_MEMORY_MAX_TOTAL_def)

text \<open>
  C10. When \<open>nmemb\<close> is not zero and \<open>size\<close> exceeds \<open>SIZE_MAX / nmemb\<close>,
  \<open>hinata_calloc\<close> returns NULL and leaves the allocator untouched; this covers every
  pair whose exact product does not fit 64 bits, so the product that is computed is
  always the exact one. On success the buffer starts with \<open>nmemb * size\<close> zero bytes.
\<close>

theorem calloc_overflow_checked_and_zeroed:
  "(nmemb \<noteq> 0 \<and> sz > SIZE_MAX div nmemb \<longrightarrow> hinata_calloc ctx env nmemb sz = (None, ctx)) \<and>
   (2 ^ 64 \<le> unat nmemb * unat sz \<longrightarrow> hinata_calloc ctx env nmemb sz = (None, ctx)) \<and>
   (hinata_calloc ctx env nmemb sz = (Some p, ctx') \<longrightarrow>
      unat (nmemb * sz) = unat nmemb * unat sz \<and>
      (\<exists>buf. heap ctx' p = Some buf \<and>
             take (unat nmemb * unat sz) buf = replicate (unat nmemb * unat sz) 0))"
proof (intro conjI impI)
  assume "nmemb \<noteq> 0 \<and> sz > SIZE_MAX div nmemb"
  then show "hinata_calloc ctx env nmemb sz = (None, ctx)"
    by (simp add: hinata_calloc_def)
next
  assume "2 ^ 64 \<le> unat nmemb * unat sz"
  with calloc_guard_no_overflow [of nmemb sz] have "nmemb \<noteq> 0 \<and> sz > SIZE_MAX div nmemb"
    by fastforce
  then show "hinata_calloc ctx env nmemb sz = (None, ctx)"
    by (simp add: hinata_calloc_def)
next
  assume s: "hinata_calloc ctx env nmemb sz = (Some p, ctx')"
  from calloc_Some [OF s] have g: "\<not> (nmemb \<noteq> 0 \<and> sz > SIZE_MAX div nmemb)"
    and h: "heap ctx' p =
      Some (replicate (unat (nmemb * sz)) 0 @ drop (unat (nmemb * sz)) (fresh_bytes env))"
    by simp_all
  from calloc_mult_exact [OF calloc_guard_no_overflow [OF g]]
  show e: "unat (nmemb * sz) = unat nmemb * unat sz" .
  from h show "\<exists>buf. heap ctx' p = Some buf \<and>
             take (unat nmemb * unat sz) buf = replicate (unat nmemb * unat sz) 0"
    by (simp add: e)
qed

theorem calloc_overflow_checked_and_zeroed_witness:
  "(2 ^ 63 :: u64) \<noteq> 0 \<and> (2 :: u64) > SIZE_MAX div 2 ^ 63 \<and>
   (2 ^ 64 :: nat) \<le> unat (2 ^ 63 :: u64) * unat (2 :: u64) \<and>
   hinata_calloc hinata_memory_init example_malloc_env (2 ^ 63) 2 = (None, hinata_memory_init) \<and>
   fst (hinata_calloc hinata_memory_init example_malloc_env 2 3) = Some 4096 \<and>
   heap (snd (hinata_calloc hinata_memory_init example_malloc_env 2 3)) 4096 =
     Some [0, 0, 0, 0, 0, 0, 17, 34]"
proof -
  have g: "(2 ^ 63 :: u64) \<noteq> 0 \<and> (2 :: u64) > SIZE_MAX div 2 ^ 63"
    by (simp add: SIZE_MAX_def)
  have o: "(2 ^ 64 :: nat) \<le> unat (2 ^ 63 :: u64) * unat (2 :: u64)"
    by simp
  from g calloc_overflow_checked_and_zeroed
      [of "2 ^ 63" 2 hinata_memory_init example_malloc_env]
  have n: "hinata_calloc hinata_memory_init example_malloc_env (2 ^ 63) 2 =
      (None, hinata_memory_init)"
    by blast
  have s: "hinata_calloc hinata_memory_init example_malloc_env 2 3 =
      (Some 4096, snd (hinata_calloc hinata_memory_init example_malloc_env 2 3))"
    by (simp add: hinata_calloc_def hinata_malloc_def hinata_memory_pool_alloc_def
        track_allocation_def hinata_memory_block_create_def hinata_memory_init_def
        memory_pool_sizes_def HINATA_MEMORY_POOL_COUNT_def example_malloc_env_def SIZE_MAX_def
        HINATA_MEMORY_MAX_SINGLE_def HINATA_MEMORY_MAX_TOTAL_def Let_def)
  from calloc_overflow_checked_and_zeroed
      [of 2 3 hinata_memory_init example_malloc_env 4096
          "snd (hinata_calloc hinata_memory_init example_malloc_env 2 3)"] s
  obtain buf where b: "heap (snd (hinata_calloc hinata_memory_init example_malloc_env 2 3)) 4096 = Some buf"
    and z: "take 6 buf = replicate 6 0"
    by auto
  have r: "replicate 6 (0 :: u8) = [0, 0, 0, 0, 0, 0]"
    by (simp add: numeral_eq_Suc)
  have h: "heap (snd (hinata_calloc hinata_memory_init example_malloc_env 2 3)) 4096 =
     Some [0, 0, 0, 0, 0, 0, 17, 34]"
    by (simp add: r hinata_calloc_def hinata_malloc_def hinata_memory_pool_alloc_def
        track_allocation_def hinata_memory_block_create_def hinata_memory_init_def
        memory_pool_sizes_def HINATA_MEMORY_POOL_COUNT_def example_malloc_env_def SIZE_MAX_def
        HINATA_MEMORY_MAX_SINGLE_def HINATA_MEMORY_MAX_TOTAL_def Let_def memset_zero_def
        update_statistics_def)
  from s have f: "fst (hinata_calloc hinata_memory_init example_malloc_env 2 3) = Some 4096"
    by (metis fst_conv)
  from g o n f h show ?thesis by blast
qed

section \<open>Properties of packet reference counting\<close>

lemma with_refs_cache [simp]: "packet_cache (with_refs st p pk c) p = Some (pk\<lparr>ref_count := c\<rparr>)"
  by (simp add: with_refs_def)

lemma with_refs_twice [simp]: "with_refs (with_refs st p pk a) p pk b = with_refs st p pk b"
  by (simp add: with_refs_def)

lemma get_with_refs:
  "hinata_packet_get (with_refs st p pk c) (Some p) = Inr (Some p, with_refs st p pk (c + 1))"
  by (simp add: hinata_packet_get_def with_refs_def)

lemma put_with_refs:
  "hinata_packet_put bucket (with_refs st p pk c) (Some p) =
     (if c - 1 = 0 then hinata_packet_destroy bucket (with_refs st p pk 0) (Some p)
      else Inr (with_refs st p pk (c - 1)))"
  by (simp add: hinata_packet_put_def with_refs_def Let_def)

lemma destroy_result:
  assumes "hinata_packet_destroy bucket st (Some p) = Inr st'"
  shows "packet_cache st' p = None"
  using assms
  by (auto simp: hinata_packet_destroy_def Let_def split: option.splits sum.splits)

lemma refs_after_0: "ops \<noteq> [] \<Longrightarrow> refs_after 0 ops = None"
  by (cases ops; cases "hd ops") auto

lemma run_dead:
  assumes "packet_cache st p = None" "ops \<noteq> []"
  shows "run_ref_ops bucket st p ops = Inl UseAfterFree"
proof (cases ops)
  case Nil
  with assms show ?thesis by simp
next
  case (Cons a as)
  with assms show ?thesis
    by (cases a) (simp_all add: hinata_packet_get_def hinata_packet_put_def)
qed

lemma of_nat_u32_eq_0:
  assumes "n < 2 ^ 32"
  shows "(of_nat n :: u32) = 0 \<longleftrightarrow> n = 0"
proof -
  have "unat (of_nat n :: u32) = n"
    using assms by (simp add: unat_of_nat)
  then show ?thesis by auto
qed

lemma run_ref_ops_refs:
  assumes "0 < c" "c + count_list ops Get \<le> 2 ^ 32"
  shows "run_ref_ops bucket (with_refs st p pk (of_nat c)) p ops =
     (case refs_after c ops of
        None \<Rightarrow> Inl UseAfterFree
      | Some n \<Rightarrow>
          if n = 0 then hinata_packet_destroy bucket (with_refs st p pk 0) (Some p)
          else Inr (with_refs st p pk (of_nat n)))"
  using assms
proof (induction ops arbitrary: c)
  case Nil
  then show ?case by simp
next
  case (Cons a ops)
  show ?case
  proof (cases a)
    case Get
    have "run_ref_ops bucket (with_refs st p pk (of_nat (Suc c))) p ops =
        (case refs_after (Suc c) ops of
           None \<Rightarrow> Inl UseAfterFree
         | Some n \<Rightarrow>
             if n = 0 then hinata_packet_destroy bucket (with_refs st p pk 0) (Some p)
             else Inr (with_refs st p pk (of_nat n)))"
      by (rule Cons.IH) (use Cons.prems Get in simp_all)
    with Get Cons.prems show ?thesis
      by (simp add: get_with_refs add.commute)
  next
    case Put
    show ?thesis
    proof (cases "c = 1")
      case True
      have z: "(of_nat c :: u32) - 1 = 0" using True by simp
      show ?thesis
      proof (cases "hinata_packet_destroy bucket (with_refs st p pk 0) (Some p)")
        case (Inl f)
        then show ?thesis using Put True z
          by (cases f; cases "ops = []") (simp_all add: put_with_refs refs_after_0)
      next
        case (Inr st')
        from destroy_result [OF Inr] have d: "packet_cache st' p = None" .
        show ?thesis
        proof (cases ops)
          case Nil
          then show ?thesis using Put True z Inr by (simp add: put_with_refs)
        next
          case (Cons b bs)
          then have r: "refs_after 0 ops = None" by (cases b) simp_all
          from run_dead [OF d, of ops bucket] Cons
          have "run_ref_ops bucket st' p ops = Inl UseAfterFree" by simp
          then show ?thesis using Put True z Inr r by (simp add: put_with_refs)
        qed
      qed
    next
      case False
      with Cons.prems Put have c2: "0 < c - 1" "c - 1 + count_list ops Get \<le> 2 ^ 32"
        by simp_all
      from Cons.prems have c3: "c - 1 < 2 ^ 32" by simp
      have nz: "(of_nat c :: u32) - 1 \<noteq> 0"
      proof -
        have "(of_nat c :: u32) - 1 = of_nat (c - 1)" using Cons.prems by simp
        moreover have "(of_nat (c - 1) :: u32) \<noteq> 0"
          using of_nat_u32_eq_0 [of "c - 1"] c2 c3 by simp
        ultimately show ?thesis by simp
      qed
      have e: "(of_nat c :: u32) - 1 = of_nat (c - 1)" using Cons.prems by simp
      have step: "hinata_packet_put bucket (with_refs st p pk (of_nat c)) (Some p) =
          Inr (with_refs st p pk (of_nat (c - 1)))"
        using nz by (simp only: put_with_refs e if_False)
      have "run_ref_ops bucket (with_refs st p pk (of_nat c)) p (Put # ops) =
          run_ref_ops bucket (with_refs st p pk (of_nat (c - 1))) p ops"
        by (simp only: run_ref_ops.simps step sum.case)
      also have "\<dots> = (case refs_after (c - 1) ops of
           None \<Rightarrow> Inl UseAfterFree
         | Some n \<Rightarrow>
             if n = 0 then hinata_packet_destroy bucket (with_refs st p pk 0) (Some p)
             else Inr (with_refs st p pk (of_nat n)))"
        by (rule Cons.IH [OF c2])
      also have "refs_after (c - 1) ops = refs_after c (Put # ops)"
        using Cons.prems by simp
      finally show ?thesis using Put by simp
    qed
  qed
qed

lemma all_le_Suc_split: "(\<forall>k\<le>Suc n. P k) \<longleftrightarrow> P 0 \<and> (\<forall>j\<le>n. P (Suc j))"
proof
  assume a: "\<forall>k\<le>Suc n. P k"
  then show "P 0 \<and> (\<forall>j\<le>n. P (Suc j))" by auto
next
  assume a: "P 0 \<and> (\<forall>j\<le>n. P (Suc j))"
  show "\<forall>k\<le>Suc n. P k"
  proof (intro allI impI)
    fix k assume "k \<le> Suc n"
    then show "P k" using a by (cases k) auto
  qed
qed

lemma holds_reference_iff:
  "holds_reference ops \<longleftrightarrow>
     (\<forall>k\<le>length ops. count_list (take k ops) Put < 1 + count_list (take k ops) Get)"
  by (auto simp: holds_reference_def list_all_iff less_Suc_eq_le)

lemma prefix_balance_refs:
  "(\<forall>k\<le>length ops. count_list (take k ops) Put < c + count_list (take k ops) Get) \<longleftrightarrow>
     (\<exists>n>0. refs_after c ops = Some n)"
proof (induction ops arbitrary: c)
  case Nil
  then show ?case by auto
next
  case (Cons a ops)
  show ?case
  proof (cases a)
    case Get
    have "(\<forall>k\<le>length (a # ops). count_list (take k (a # ops)) Put < c + count_list (take k (a # ops)) Get)
        \<longleftrightarrow> 0 < c \<and> (\<forall>j\<le>length ops. count_list (take j ops) Put < Suc c + count_list (take j ops) Get)"
      using Get by (simp add: all_le_Suc_split)
    also have "\<dots> \<longleftrightarrow> 0 < c \<and> (\<exists>n>0. refs_after (Suc c) ops = Some n)"
      by (simp only: Cons.IH)
    also have "\<dots> \<longleftrightarrow> (\<exists>n>0. refs_after c (a # ops) = Some n)"
      using Get by auto
    finally show ?thesis .
  next
    case Put
    have "(\<forall>k\<le>length (a # ops). count_list (take k (a # ops)) Put < c + count_list (take k (a # ops)) Get)
        \<longleftrightarrow> 0 < c \<and> (\<forall>j\<le>length ops. Suc (count_list (take j ops) Put) < c + count_list (take j ops) Get)"
      using Put by (simp add: all_le_Suc_split)
    also have "\<dots> \<longleftrightarrow> 0 < c \<and> (\<forall>j\<le>length ops. count_list (take j ops) Put < (c - 1) + count_list (take j ops) Get)"
      by auto
    also have "\<dots> \<longleftrightarrow> 0 < c \<and> (\<exists>n>0. refs_after (c - 1) ops = Some n)"
      by (simp only: Cons.IH)
    also have "\<dots> \<longleftrightarrow> (\<exists>n>0. refs_after c (a # ops) = Some n)"
      using Put by auto
    finally show ?thesis .
  qed
qed

lemma refs_after_count:
  "refs_after c ops = Some n \<Longrightarrow> n + count_list ops Put = c + count_list ops Get"
proof (induction ops arbitrary: c)
  case Nil
  then show ?case by simp
next
  case (Cons a ops)
  then show ?case
    by (cases a) (fastforce split: if_splits)+
qed

lemma refs_after_append:
  "refs_after c (xs @ ys) = (case refs_after c xs of None \<Rightarrow> None | Some n \<Rightarrow>
      if n = 0 \<and> ys \<noteq> [] then None else refs_after n ys)"
proof (induction xs arbitrary: c)
  case Nil
  then show ?case by (simp add: refs_after_0)
next
  case (Cons a xs)
  then show ?case by (cases a) simp_all
qed

lemma find_node_in_live:
  assumes "\<forall>n \<in> set ns. objs (node_packet n) \<noteq> None"
  shows "find_node_in objs ns ident =
           Inr (find (\<lambda>n. map_option pkt_id (objs (node_packet n)) = Some ident) ns)"
  using assms by (induction ns) auto

lemma hash_table_ok_with_refs:
  assumes "hash_table_ok bucket st" "packet_cache st p = Some pk"
  shows "hash_table_ok bucket (with_refs st p pk c)"
proof -
  have ids: "node_id (with_refs st p pk c) = node_id st"
    using assms(2) by (auto simp: node_id_def with_refs_def fun_eq_iff)
  have live: "(\<exists>q. packet_cache (with_refs st p pk c) a = Some q \<and> bucket (pkt_id q) = b) \<longleftrightarrow>
      (\<exists>q. packet_cache st a = Some q \<and> bucket (pkt_id q) = b)" for a b
    using assms(2) by (auto simp: with_refs_def)
  have tbl: "packet_hash_table (with_refs st p pk c) = packet_hash_table st"
    by (simp add: with_refs_def)
  show ?thesis
    using assms(1) unfolding hash_table_ok_def ids live tbl .
qed

lemma destroy_ok:
  assumes inv: "hash_table_ok bucket st" and live: "packet_cache st p = Some pk"
  shows "\<exists>st'. hinata_packet_destroy bucket st (Some p) = Inr st' \<and>
           packet_cache st' = (packet_cache st)(p := None) \<and>
           kfree_log st' = kfree_log st @ (case content pk of None \<Rightarrow> [] | Some c \<Rightarrow> [c])
                                        @ (case metadata pk of None \<Rightarrow> [] | Some m \<Rightarrow> [m]) \<and>
           \<not> registered st' p \<and>
           packet_destroy_count st' = packet_destroy_count st + 1"
proof -
  let ?b = "bucket (pkt_id pk)"
  let ?ns = "packet_hash_table st ?b"
  let ?P = "\<lambda>n. map_option pkt_id (packet_cache st (node_packet n)) = Some (pkt_id pk)"
  from inv have l: "\<forall>n \<in> set ?ns. packet_cache st (node_packet n) \<noteq> None"
    by (fastforce simp: hash_table_ok_def)
  have f: "hinata_packet_find_node bucket st (pkt_id pk) = Inr (find ?P ?ns)"
    unfolding hinata_packet_find_node_def by (rule find_node_in_live [OF l])
  define tbl' where "tbl' = (case find ?P ?ns of None \<Rightarrow> packet_hash_table st
      | Some n \<Rightarrow> (packet_hash_table st)(?b := remove1 n ?ns))"
  have r: "hinata_packet_remove_from_hash bucket st (pkt_id pk) =
      Inr (st\<lparr>packet_hash_table := tbl'\<rparr>)"
    by (simp add: hinata_packet_remove_from_hash_def f tbl'_def split: option.splits)
  have d: "distinct (map (node_id st) ?ns)"
    using inv by (simp add: hash_table_ok_def)
  have nr: "p \<notin> node_packet ` set (tbl' b)" for b
  proof
    assume "p \<in> node_packet ` set (tbl' b)"
    then obtain n' where n': "n' \<in> set (tbl' b)" "node_packet n' = p" by auto
    have sub: "set (tbl' b) \<subseteq> set (packet_hash_table st b)"
      using set_remove1_subset [of _ ?ns]
      by (auto simp: tbl'_def split: option.splits if_splits)
    with n' have n'in: "n' \<in> set (packet_hash_table st b)" by auto
    with inv n'(2) live have b: "b = ?b"
      by (fastforce simp: hash_table_ok_def)
    have Pn': "?P n'" using n'(2) live by simp
    with n'in b obtain n where fn: "find ?P ?ns = Some n"
      by (cases "find ?P ?ns") (auto simp: find_None_iff)
    then have Pn: "?P n" and nin: "n \<in> set ?ns"
      by (auto simp: find_Some_iff)
    have "node_id st n = node_id st n'"
      using Pn Pn' by (auto simp: node_id_def)
    with d nin n'in b have "n = n'"
      by (metis distinct_map inj_on_def)
    moreover have "n \<notin> set (tbl' b)"
      using d fn b by (simp add: tbl'_def distinct_map)
    ultimately show False using n'(1) by simp
  qed
  show ?thesis
    using live r nr
    by (cases "content pk"; cases "metadata pk")
       (simp_all add: hinata_packet_destroy_def kfree_def Let_def registered_def)
qed

lemma run_replicate_get:
  "run_ref_ops bucket (with_refs st p pk c) p (replicate n Get @ ops) =
     run_ref_ops bucket (with_refs st p pk (c + of_nat n)) p ops"
proof (induction n arbitrary: c)
  case 0
  then show ?case by simp
next
  case (Suc n)
  have "run_ref_ops bucket (with_refs st p pk c) p (replicate (Suc n) Get @ ops) =
      run_ref_ops bucket (with_refs st p pk (c + 1)) p (replicate n Get @ ops)"
    by (simp add: get_with_refs)
  also have "\<dots> = run_ref_ops bucket (with_refs st p pk (c + 1 + of_nat n)) p ops"
    by (rule Suc.IH)
  also have "c + 1 + of_nat n = c + of_nat (Suc n)"
    by simp
  finally show ?case .
qed

lemma refs_after_replicate_get:
  "0 < c \<Longrightarrow> refs_after c (replicate n Get @ ops) = refs_after (c + n) ops"
  by (induction n arbitrary: c) simp_all

lemma holds_reference_gets_put: "0 < n \<Longrightarrow> holds_reference (replicate n Get @ [Put])"
proof -
  assume "0 < n"
  then have "refs_after 1 (replicate n Get @ [Put]) = Some n"
    by (simp add: refs_after_replicate_get)
  with \<open>0 < n\<close> have "\<exists>m>0. refs_after 1 (replicate n Get @ [Put]) = Some m" by simp
  then show ?thesis
    unfolding holds_reference_iff using prefix_balance_refs [of "replicate n Get @ [Put]" 1]
    by simp
qed

lemma with_refs_same: "packet_cache st p = Some pk \<Longrightarrow> with_refs st p pk (ref_count pk) = st"
  by (simp add: with_refs_def fun_upd_idem)

lemma example_packet_state_ok: "hash_table_ok example_bucket example_packet_state"
  by (auto simp: hash_table_ok_def example_packet_state_def example_bucket_def
      example_packet_def node_id_def)

text \<open>
  The operations that change the hash table, \<open>hinata_packet_add_to_hash\<close> and
  \<open>hinata_packet_destroy\<close>, keep the table invariant.
\<close>

lemma add_to_hash_preserves:
  assumes inv: "hash_table_ok bucket st" and live: "packet_cache st ptr = Some pk"
  shows "\<exists>r st'. hinata_packet_add_to_hash bucket st ok now ptr = Inr (r, st') \<and>
           hash_table_ok bucket st' \<and> packet_cache st' = packet_cache st"
proof (cases ok)
  case False
  with inv show ?thesis by (simp add: hinata_packet_add_to_hash_def)
next
  case True
  let ?b = "bucket (pkt_id pk)"
  let ?ns = "packet_hash_table st ?b"
  let ?P = "\<lambda>n. map_option pkt_id (packet_cache st (node_packet n)) = Some (pkt_id pk)"
  from inv have l: "\<forall>n \<in> set ?ns. packet_cache st (node_packet n) \<noteq> None"
    by (fastforce simp: hash_table_ok_def)
  have f: "hinata_packet_find_node bucket st (pkt_id pk) = Inr (find ?P ?ns)"
    unfolding hinata_packet_find_node_def by (rule find_node_in_live [OF l])
  show ?thesis
  proof (cases "find ?P ?ns")
    case (Some n)
    have "node_id (st\<lparr>packet_hash_collisions := packet_hash_collisions st + 1\<rparr>) = node_id st"
      by (simp add: node_id_def fun_eq_iff)
    then have "hash_table_ok bucket (st\<lparr>packet_hash_collisions := packet_hash_collisions st + 1\<rparr>)"
      using inv by (simp add: hash_table_ok_def)
    then show ?thesis
      using True live f Some by (simp add: hinata_packet_add_to_hash_def)
  next
    case None
    define node where "node = \<lparr>node_packet = ptr, node_ref_count = 1, node_created_time = now,
                              node_last_access = now\<rparr>"
    define st' where "st' = st\<lparr>packet_hash_table := (packet_hash_table st)(?b := node # ?ns)\<rparr>"
    have e: "hinata_packet_add_to_hash bucket st ok now ptr = Inr (0, st')"
      using True live f None by (simp add: hinata_packet_add_to_hash_def Let_def st'_def node_def)
    have nid: "node_id st' = node_id st"
      by (simp add: node_id_def st'_def fun_eq_iff)
    have fresh: "node_id st node \<notin> set (map (node_id st) ?ns)"
    proof
      assume "node_id st node \<in> set (map (node_id st) ?ns)"
      then obtain n where n: "n \<in> set ?ns" "node_id st n = node_id st node"
        by auto
      then have "?P n"
        using live by (simp add: node_id_def node_def)
      with None n(1) show False
        by (auto simp: find_None_iff)
    qed
    have "hash_table_ok bucket st'"
      unfolding hash_table_ok_def
    proof (intro allI conjI ballI)
      fix b n
      assume "n \<in> set (packet_hash_table st' b)"
      then have "n = node \<and> b = ?b \<or> n \<in> set (packet_hash_table st b)"
        by (auto simp: st'_def split: if_splits)
      then show "\<exists>pk. packet_cache st' (node_packet n) = Some pk \<and> bucket (pkt_id pk) = b"
        using inv live by (auto simp: hash_table_ok_def st'_def node_def)
    next
      fix b
      show "distinct (map (node_id st') (packet_hash_table st' b))"
        using inv fresh unfolding nid by (auto simp: hash_table_ok_def st'_def)
    qed
    with e show ?thesis by (simp add: st'_def)
  qed
qed

lemma distinct_map_remove1:
  "distinct (map f xs) \<Longrightarrow> distinct (map f (remove1 x xs))"
proof (induction xs)
  case Nil
  then show ?case by simp
next
  case (Cons a xs)
  have "f a \<notin> f ` set (remove1 x xs)"
    using Cons.prems set_remove1_subset [of x xs] by auto
  with Cons show ?case by auto
qed

lemma destroy_preserves:
  assumes inv: "hash_table_ok bucket st" and live: "packet_cache st p = Some pk"
  shows "\<exists>st'. hinata_packet_destroy bucket st (Some p) = Inr st' \<and> hash_table_ok bucket st'"
proof -
  let ?b = "bucket (pkt_id pk)"
  let ?ns = "packet_hash_table st ?b"
  let ?P = "\<lambda>n. map_option pkt_id (packet_cache st (node_packet n)) = Some (pkt_id pk)"
  from inv have l: "\<forall>n \<in> set ?ns. packet_cache st (node_packet n) \<noteq> None"
    by (fastforce simp: hash_table_ok_def)
  have f: "hinata_packet_find_node bucket st (pkt_id pk) = Inr (find ?P ?ns)"
    unfolding hinata_packet_find_node_def by (rule find_node_in_live [OF l])
  define tbl' where "tbl' = (case find ?P ?ns of None \<Rightarrow> packet_hash_table st
      | Some n \<Rightarrow> (packet_hash_table st)(?b := remove1 n ?ns))"
  have r: "hinata_packet_remove_from_hash bucket st (pkt_id pk) =
      Inr (st\<lparr>packet_hash_table := tbl'\<rparr>)"
    by (simp add: hinata_packet_remove_from_hash_def f tbl'_def split: option.splits)
  obtain st' where d: "hinata_packet_destroy bucket st (Some p) = Inr st'"
    and pc: "packet_cache st' = (packet_cache st)(p := None)"
    and nreg: "\<not> registered st' p"
    using destroy_ok [OF inv live] by blast
  have tb: "packet_hash_table st' = tbl'"
    using d live r
    by (cases "content pk"; cases "metadata pk")
       (auto simp: hinata_packet_destroy_def kfree_def Let_def)
  have sub: "set (tbl' b) \<subseteq> set (packet_hash_table st b)" for b
    using set_remove1_subset [of _ ?ns]
    by (auto simp: tbl'_def split: option.splits if_splits)
  have np: "node_packet n \<noteq> p" if "n \<in> set (tbl' b)" for n b
    using nreg that unfolding registered_def tb by blast
  have dm: "distinct (map (node_id st) (tbl' b))" for b
    using inv by (auto simp: tbl'_def hash_table_ok_def distinct_map_remove1 split: option.splits)
  have "hash_table_ok bucket st'"
    unfolding hash_table_ok_def tb
  proof (intro allI conjI ballI)
    fix b n
    assume n: "n \<in> set (tbl' b)"
    with sub have "n \<in> set (packet_hash_table st b)" by blast
    with inv obtain q where "packet_cache st (node_packet n) = Some q" "bucket (pkt_id q) = b"
      by (fastforce simp: hash_table_ok_def)
    with np [OF n] show "\<exists>pk. packet_cache st' (node_packet n) = Some pk \<and> bucket (pkt_id pk) = b"
      by (simp add: pc)
  next
    fix b
    have "node_id st' n = node_id st n" if "n \<in> set (tbl' b)" for n
      using np [OF that] by (simp add: node_id_def pc)
    then have eq: "map (node_id st') (tbl' b) = map (node_id st) (tbl' b)"
      by (intro map_cong refl)
    show "distinct (map (node_id st') (tbl' b))"
      unfolding eq by (rule dm)
  qed
  with d show ?thesis by blast
qed

text \<open>
  C3, as stated, fails when the 32-bit counter wraps: after \<open>2^32\<close> gets the count is
  1 again, and a single put destroys the packet although at every point of the sequence
  the gets plus the initial create exceed the puts.
\<close>

theorem refcount_wrap_counterexample:
  "holds_reference (replicate (2 ^ 32) Get @ [Put]) \<and>
   (case run_ref_ops example_bucket example_packet_state 1 (replicate (2 ^ 32) Get @ [Put]) of
      Inl f \<Rightarrow> False
    | Inr st' \<Rightarrow> packet_cache st' 1 = None)"
proof -
  have h: "holds_reference (replicate (2 ^ 32) Get @ [Put])"
    by (rule holds_reference_gets_put) simp
  have c: "packet_cache example_packet_state 1 = Some example_packet"
    by (simp add: example_packet_state_def)
  have r1: "ref_count example_packet = 1"
    by (simp add: example_packet_def)
  have e: "example_packet_state = with_refs example_packet_state 1 example_packet 1"
    using with_refs_same [OF c] r1 by simp
  have w: "(1 :: u32) + of_nat (2 ^ 32) = 1"
    by simp
  have "run_ref_ops example_bucket (with_refs example_packet_state 1 example_packet 1) 1
          (replicate (2 ^ 32) Get @ [Put]) =
        run_ref_ops example_bucket (with_refs example_packet_state 1 example_packet 1) 1 [Put]"
    unfolding run_replicate_get w ..
  also have "\<dots> = hinata_packet_destroy example_bucket
        (with_refs example_packet_state 1 example_packet 0) (Some 1)"
    by (simp add: put_with_refs split: sum.splits)
  finally have run: "run_ref_ops example_bucket example_packet_state 1
        (replicate (2 ^ 32) Get @ [Put]) =
      hinata_packet_destroy example_bucket (with_refs example_packet_state 1 example_packet 0) (Some 1)"
    using e by simp
  from destroy_ok [OF hash_table_ok_with_refs [OF example_packet_state_ok c, of 0], of 1
      "example_packet\<lparr>ref_count := 0\<rparr>"]
  obtain st' where "hinata_packet_destroy example_bucket
        (with_refs example_packet_state 1 example_packet 0) (Some 1) = Inr st'"
    and "packet_cache st' 1 = None"
    by auto
  with run h show ?thesis by simp
qed

text \<open>
  C3, amended. Take a live packet with reference count 1 in a state whose hash table
  satisfies its invariant, and a sequence of get/put calls with fewer than \<open>2^32\<close>
  gets. The packet is still valid after the sequence exactly if at every point of it the
  gets plus the initial create exceeded the puts; then only its count has changed, to
  one plus the gets minus the puts. The put that brings the count to zero destroys the
  packet: \<open>kfree\<close> is called exactly once on its content and once on its metadata
  buffer (if it has one), its structure leaves the cache, and no node of the hash table
  refers to it any more.
\<close>

theorem refcount_lifecycle:
  "hash_table_ok bucket st \<and> packet_cache st p = Some pk \<and> ref_count pk = 1 \<and>
   count_list ops Get < 2 ^ 32 \<longrightarrow>
     (holds_reference ops \<longleftrightarrow>
        (\<exists>st'. run_ref_ops bucket st p ops = Inr st' \<and> packet_cache st' p \<noteq> None)) \<and>
     (holds_reference ops \<longrightarrow>
        run_ref_ops bucket st p ops =
          Inr (with_refs st p pk (1 + of_nat (count_list ops Get) - of_nat (count_list ops Put)))) \<and>
     (holds_reference ops \<and> count_list ops Get = count_list ops Put \<longrightarrow>
        (\<exists>st'. run_ref_ops bucket st p (ops @ [Put]) = Inr st' \<and>
               packet_cache st' = (packet_cache st)(p := None) \<and>
               kfree_log st' =
                 kfree_log st @ (case content pk of None \<Rightarrow> [] | Some c \<Rightarrow> [c])
                              @ (case metadata pk of None \<Rightarrow> [] | Some m \<Rightarrow> [m]) \<and>
               \<not> registered st' p \<and>
               packet_destroy_count st' = packet_destroy_count st + 1))"
proof (intro impI)
  assume a: "hash_table_ok bucket st \<and> packet_cache st p = Some pk \<and> ref_count pk = 1 \<and>
    count_list ops Get < 2 ^ 32"
  then have inv: "hash_table_ok bucket st" and live: "packet_cache st p = Some pk"
    and one: "ref_count pk = 1" and bound: "count_list ops Get < 2 ^ 32"
    by simp_all
  have e: "with_refs st p pk (of_nat 1) = st"
    using with_refs_same [OF live] one by simp
  have run: "run_ref_ops bucket st p xs =
     (case refs_after 1 xs of
        None \<Rightarrow> Inl UseAfterFree
      | Some n \<Rightarrow>
          if n = 0 then hinata_packet_destroy bucket (with_refs st p pk 0) (Some p)
          else Inr (with_refs st p pk (of_nat n)))"
    if "count_list xs Get < 2 ^ 32" for xs
    using run_ref_ops_refs [of 1 xs bucket st p pk] that unfolding e by simp
  have hr: "holds_reference xs \<longleftrightarrow> (\<exists>n>0. refs_after 1 xs = Some n)" for xs
    unfolding holds_reference_iff using prefix_balance_refs [of xs 1] by simp
  from destroy_ok [OF hash_table_ok_with_refs [OF inv live, of 0], of p "pk\<lparr>ref_count := 0\<rparr>"]
  obtain d where d: "hinata_packet_destroy bucket (with_refs st p pk 0) (Some p) = Inr d"
    and dc: "packet_cache d = (packet_cache st)(p := None)"
    and dl: "kfree_log d = kfree_log st @ (case content pk of None \<Rightarrow> [] | Some c \<Rightarrow> [c])
                              @ (case metadata pk of None \<Rightarrow> [] | Some m \<Rightarrow> [m])"
    and dr: "\<not> registered d p"
    and dn: "packet_destroy_count d = packet_destroy_count st + 1"
    by (auto simp: with_refs_def)
  have valid: "holds_reference ops \<longleftrightarrow>
        (\<exists>st'. run_ref_ops bucket st p ops = Inr st' \<and> packet_cache st' p \<noteq> None)"
  proof
    assume "holds_reference ops"
    then obtain n where "0 < n" "refs_after 1 ops = Some n" using hr by auto
    then show "\<exists>st'. run_ref_ops bucket st p ops = Inr st' \<and> packet_cache st' p \<noteq> None"
      using run [OF bound] by simp
  next
    assume "\<exists>st'. run_ref_ops bucket st p ops = Inr st' \<and> packet_cache st' p \<noteq> None"
    then obtain st' where s: "run_ref_ops bucket st p ops = Inr st'" "packet_cache st' p \<noteq> None"
      by auto
    show "holds_reference ops"
    proof (cases "refs_after 1 ops")
      case None
      with s run [OF bound] show ?thesis by simp
    next
      case (Some n)
      show ?thesis
      proof (cases "n = 0")
        case True
        with Some s run [OF bound] d dc show ?thesis by simp
      next
        case False
        with Some hr show ?thesis by simp
      qed
    qed
  qed
  have count: "holds_reference ops \<longrightarrow>
        run_ref_ops bucket st p ops =
          Inr (with_refs st p pk (1 + of_nat (count_list ops Get) - of_nat (count_list ops Put)))"
  proof
    assume "holds_reference ops"
    then obtain n where n: "0 < n" "refs_after 1 ops = Some n" using hr by auto
    from refs_after_count [OF n(2)] have "n + count_list ops Put = 1 + count_list ops Get" .
    then have "(of_nat (n + count_list ops Put) :: u32) = of_nat (1 + count_list ops Get)"
      by simp
    then have "(of_nat n :: u32) = 1 + of_nat (count_list ops Get) - of_nat (count_list ops Put)"
      by (simp add: algebra_simps)
    with n run [OF bound] show "run_ref_ops bucket st p ops =
          Inr (with_refs st p pk (1 + of_nat (count_list ops Get) - of_nat (count_list ops Put)))"
      by simp
  qed
  have last: "holds_reference ops \<and> count_list ops Get = count_list ops Put \<longrightarrow>
        (\<exists>st'. run_ref_ops bucket st p (ops @ [Put]) = Inr st' \<and>
               packet_cache st' = (packet_cache st)(p := None) \<and>
               kfree_log st' =
                 kfree_log st @ (case content pk of None \<Rightarrow> [] | Some c \<Rightarrow> [c])
                              @ (case metadata pk of None \<Rightarrow> [] | Some m \<Rightarrow> [m]) \<and>
               \<not> registered st' p \<and>
               packet_destroy_count st' = packet_destroy_count st + 1)"
  proof
    assume h: "holds_reference ops \<and> count_list ops Get = count_list ops Put"
    then obtain n where n: "0 < n" "refs_after 1 ops = Some n" using hr by auto
    from refs_after_count [OF n(2)] h have "n = 1" by simp
    with n have "refs_after 1 (ops @ [Put]) = Some 0"
      by (simp add: refs_after_append)
    moreover have "count_list (ops @ [Put]) Get < 2 ^ 32" using bound by simp
    ultimately have "run_ref_ops bucket st p (ops @ [Put]) = Inr d"
      using run [of "ops @ [Put]"] d by simp
    with dc dl dr dn show "\<exists>st'. run_ref_ops bucket st p (ops @ [Put]) = Inr st' \<and>
               packet_cache st' = (packet_cache st)(p := None) \<and>
               kfree_log st' =
                 kfree_log st @ (case content pk of None \<Rightarrow> [] | Some c \<Rightarrow> [c])
                              @ (case metadata pk of None \<Rightarrow> [] | Some m \<Rightarrow> [m]) \<and>
               \<not> registered st' p \<and>
               packet_destroy_count st' = packet_destroy_count st + 1"
      by blast
  qed
  from valid count last show "(holds_reference ops \<longleftrightarrow>
        (\<exists>st'. run_ref_ops bucket st p ops = Inr st' \<and> packet_cache st' p \<noteq> None)) \<and>
     (holds_reference ops \<longrightarrow>
        run_ref_ops bucket st p ops =
          Inr (with_refs st p pk (1 + of_nat (count_list ops Get) - of_nat (count_list ops Put)))) \<and>
     (holds_reference ops \<and> count_list ops Get = count_list ops Put \<longrightarrow>
        (\<exists>st'. run_ref_ops bucket st p (ops @ [Put]) = Inr st' \<and>
               packet_cache st' = (packet_cache st)(p := None) \<and>
               kfree_log st' =
                 kfree_log st @ (case content pk of None \<Rightarrow> [] | Some c \<Rightarrow> [c])
                              @ (case metadata pk of None \<Rightarrow> [] | Some m \<Rightarrow> [m]) \<and>
               \<not> registered st' p \<and>
               packet_destroy_count st' = packet_destroy_count st + 1))"
    by blast
qed

theorem refcount_lifecycle_witness:
  "hash_table_ok example_bucket example_packet_state \<and>
   packet_cache example_packet_state 1 = Some example_packet \<and>
   ref_count example_packet = 1 \<and>
   count_list [Get, Put] Get < 2 ^ 32 \<and>
   holds_reference [Get, Put] \<and>
   count_list [Get, Put] Get = count_list [Get, Put] Put \<and>
   run_ref_ops example_bucket example_packet_state 1 [Get, Put] = Inr example_packet_state \<and>
   (case run_ref_ops example_bucket example_packet_state 1 ([Get, Put] @ [Put]) of
      Inl f \<Rightarrow> False
    | Inr st' \<Rightarrow>
        packet_cache st' 1 = None \<and> kfree_log st' = [100, 101] \<and> \<not> registered st' 1 \<and>
        packet_destroy_count st' = 1)"
proof -
  have c: "packet_cache example_packet_state 1 = Some example_packet"
    by (simp add: example_packet_state_def)
  have r: "ref_count example_packet = 1"
    by (simp add: example_packet_def)
  have b: "count_list [Get, Put] Get < 2 ^ 32"
    by simp
  have h: "holds_reference [Get, Put]"
    by (simp add: holds_reference_def upt_rec)
  have q: "count_list [Get, Put] Get = count_list [Get, Put] Put"
    by simp
  note inst = refcount_lifecycle
    [of example_bucket example_packet_state 1 example_packet "[Get, Put]"]
  from inst example_packet_state_ok c r b h
  have "run_ref_ops example_bucket example_packet_state 1 [Get, Put] =
      Inr (with_refs example_packet_state 1 example_packet
             (1 + of_nat (count_list [Get, Put] Get) - of_nat (count_list [Get, Put] Put)))"
    by blast
  then have s: "run_ref_ops example_bucket example_packet_state 1 [Get, Put] =
      Inr example_packet_state"
    using with_refs_same [OF c] r by simp
  from inst example_packet_state_ok c r b h q
  obtain st' where st': "run_ref_ops example_bucket example_packet_state 1 ([Get, Put] @ [Put]) = Inr st'"
    "packet_cache st' = (packet_cache example_packet_state)(1 := None)"
    "kfree_log st' =
       kfree_log example_packet_state
         @ (case content example_packet of None \<Rightarrow> [] | Some c \<Rightarrow> [c])
         @ (case metadata example_packet of None \<Rightarrow> [] | Some m \<Rightarrow> [m])"
    "\<not> registered st' 1"
    "packet_destroy_count st' = packet_destroy_count example_packet_state + 1"
    by blast
  have d: "(case run_ref_ops example_bucket example_packet_state 1 ([Get, Put] @ [Put]) of
      Inl f \<Rightarrow> False
    | Inr st' \<Rightarrow>
        packet_cache st' 1 = None \<and> kfree_log st' = [100, 101] \<and> \<not> registered st' 1 \<and>
        packet_destroy_count st' = 1)"
    unfolding st'(1) using st'(2-5)
    by (simp add: example_packet_state_def example_packet_def)
  from example_packet_state_ok c r b h q s d show ?thesis by blast
qed

section \<open>Properties of validation and of the validation cache\<close>

lemma lookup_hit:
  assumes "first_matching_slot vs ident h = Some i"
    "time_before (jiffies_lookup env) (vc_timestamp (validation_cache vs i) + 5 * 60 * HZ)"
  shows "hinata_validation_cache_lookup vs env ident h =
           (if vc_is_valid (validation_cache vs i) then 1 else 0, vs)"
  using assms by (simp add: hinata_validation_cache_lookup_def first_matching_slot_def)

lemma first_matching_slot_counters [simp]:
  "first_matching_slot (vs\<lparr>validation_count := c\<rparr>) ident h = first_matching_slot vs ident h"
  "first_matching_slot (vs\<lparr>validation_success_count := c\<rparr>) ident h = first_matching_slot vs ident h"
  "first_matching_slot (vs\<lparr>validation_failure_count := c\<rparr>) ident h = first_matching_slot vs ident h"
  by (simp_all add: first_matching_slot_def)

lemma full_hit:
  assumes "flags AND HINATA_VALIDATE_FORCE_RECHECK = 0"
    "first_matching_slot vs (pkt_id p) (content_hash p) = Some i"
    "time_before (jiffies_lookup env) (vc_timestamp (validation_cache vs i) + 5 * 60 * HZ)"
  shows "hinata_validate_packet_full vs env (Some p) flags =
     (if vc_is_valid (validation_cache vs i)
      then Inr (0, vs\<lparr>validation_count := validation_count vs + 1,
                       validation_success_count := validation_success_count vs + 1\<rparr>)
      else Inr (- EINVAL, vs\<lparr>validation_count := validation_count vs + 1,
                              validation_failure_count := validation_failure_count vs + 1\<rparr>))"
proof -
  let ?vs0 = "vs\<lparr>validation_count := validation_count vs + 1\<rparr>"
  have "hinata_validation_cache_lookup ?vs0 env (pkt_id p) (content_hash p) =
           (if vc_is_valid (validation_cache ?vs0 i) then 1 else 0, ?vs0)"
    by (rule lookup_hit) (use assms in simp_all)
  then show ?thesis
    using assms(1) by (simp add: hinata_validate_packet_full_def Let_def)
qed

lemma structure_result:
  "hinata_validate_packet_structure env pk = 0 \<or>
   hinata_validate_packet_structure env pk = - EINVAL"
  by (simp add: hinata_validate_packet_structure_def split: option.splits)

lemma content_result:
  "(fst (hinata_validate_packet_content vs env pk) = 0 \<or>
    fst (hinata_validate_packet_content vs env pk) = - EINVAL) \<and>
   validation_cache (snd (hinata_validate_packet_content vs env pk)) = validation_cache vs \<and>
   cache_index (snd (hinata_validate_packet_content vs env pk)) = cache_index vs"
  by (simp add: hinata_validate_packet_content_def Let_def split: option.splits)

lemma metadata_result:
  "(fst (hinata_validate_packet_metadata vs env pk) = 0 \<or>
    fst (hinata_validate_packet_metadata vs env pk) = - EINVAL) \<and>
   validation_cache (snd (hinata_validate_packet_metadata vs env pk)) = validation_cache vs \<and>
   cache_index (snd (hinata_validate_packet_metadata vs env pk)) = cache_index vs"
  by (simp add: hinata_validate_packet_metadata_def Let_def split: option.splits)

lemma security_result:
  "hinata_validate_packet_security env pk = 0 \<or>
   hinata_validate_packet_security env pk = - EINVAL"
  by (simp add: hinata_validate_packet_security_def split: option.splits)

lemma integrity_result:
  "hinata_validate_packet_integrity env pk = 0 \<or>
   hinata_validate_packet_integrity env pk = - EINVAL"
  by (simp add: hinata_validate_packet_integrity_def Let_def split: option.splits)

lemma stages_result:
  "(fst (run_validation_stages vs env p flags) = 0 \<or>
    fst (run_validation_stages vs env p flags) = - EINVAL) \<and>
   validation_cache (snd (run_validation_stages vs env p flags)) = validation_cache vs \<and>
   cache_index (snd (run_validation_stages vs env p flags)) = cache_index vs"
proof -
  define r1 where "r1 = hinata_validate_packet_structure env (Some p)"
  define c2 where "c2 = (if flags AND HINATA_VALIDATE_CONTENT \<noteq> 0
                         then hinata_validate_packet_content vs env (Some p) else (0, vs))"
  define c3 where "c3 = (if flags AND HINATA_VALIDATE_METADATA \<noteq> 0 \<and> metadata p \<noteq> None
                           then hinata_validate_packet_metadata (snd c2) env (Some p)
                           else (0, snd c2))"
  define r4 where "r4 = (if flags AND HINATA_VALIDATE_SECURITY \<noteq> 0
                      then hinata_validate_packet_security env (Some p) else 0)"
  define r5 where "r5 = (if flags AND HINATA_VALIDATE_INTEGRITY \<noteq> 0
                        then hinata_validate_packet_integrity env (Some p) else 0)"
  have e: "run_validation_stages vs env p flags =
     (if r1 < 0 then (r1, vs)
      else if fst c2 < 0 then c2
      else if fst c3 < 0 then c3
      else if r4 < 0 then (r4, snd c3)
      else if r5 < 0 then (r5, snd c3) else (0, snd c3))"
    unfolding run_validation_stages_def r1_def c2_def c3_def r4_def r5_def
    by (simp add: Let_def case_prod_beta)
  have v1: "r1 = 0 \<or> r1 = - EINVAL"
    unfolding r1_def by (rule structure_result)
  have v2: "(fst c2 = 0 \<or> fst c2 = - EINVAL) \<and> validation_cache (snd c2) = validation_cache vs \<and>
      cache_index (snd c2) = cache_index vs"
    unfolding c2_def using content_result [of vs env "Some p"] by simp
  have v3: "(fst c3 = 0 \<or> fst c3 = - EINVAL) \<and> validation_cache (snd c3) = validation_cache vs \<and>
      cache_index (snd c3) = cache_index vs"
    unfolding c3_def using metadata_result [of "snd c2" env "Some p"] v2 by simp
  have v4: "r4 = 0 \<or> r4 = - EINVAL"
    unfolding r4_def using security_result [of env "Some p"] by simp
  have v5: "r5 = 0 \<or> r5 = - EINVAL"
    unfolding r5_def using integrity_result [of env "Some p"] by simp
  show ?thesis
    unfolding e using v1 v2 v3 v4 v5 by (auto simp: EINVAL_def)
qed

lemma lookup_index [simp]:
  "cache_index (snd (hinata_validation_cache_lookup vs env ident h)) = cache_index vs"
  by (simp add: hinata_validation_cache_lookup_def split: option.splits)

lemma c_rem_bound: "c_rem a 256 < 256"
  by (simp add: c_rem_def) (smt (verit) pos_mod_sign)

lemma first_matching_slot_at:
  assumes "k < HINATA_VALIDATION_CACHE_SIZE" "key_match (validation_cache vs k) ident h"
    "\<forall>j<k. \<not> key_match (validation_cache vs j) ident h"
  shows "first_matching_slot vs ident h = Some k"
  using assms unfolding first_matching_slot_def
  by (auto simp: find_Some_iff)

lemma full_miss:
  assumes look: "(if flags AND HINATA_VALIDATE_FORCE_RECHECK = 0
                 then hinata_validation_cache_lookup (vs\<lparr>validation_count := validation_count vs + 1\<rparr>)
                        env (pkt_id p) (content_hash p)
                 else (- 1, vs\<lparr>validation_count := validation_count vs + 1\<rparr>)) = (- 1, vsL)"
    and idx: "0 \<le> c_rem (sint (cache_index vs + 1)) (int HINATA_VALIDATION_CACHE_SIZE)"
  shows "\<exists>vs1. hinata_validate_packet_full vs env (Some p) flags =
            Inr (fst (run_validation_stages vsL env p flags), vs1) \<and>
          cache_index vs1 = cache_index vs + 1 \<and>
          validation_cache vs1 = (validation_cache vsL)
            (nat (c_rem (sint (cache_index vs + 1)) (int HINATA_VALIDATION_CACHE_SIZE)) :=
               \<lparr>vc_id = take (HINATA_UUID_LENGTH - 1) (pkt_id p),
                vc_content_hash = content_hash p,
                vc_is_valid = (fst (run_validation_stages vsL env p flags) = 0),
                vc_timestamp = jiffies_add env\<rparr>)"
proof -
  obtain ret vs2 where st: "run_validation_stages vsL env p flags = (ret, vs2)"
    by (cases "run_validation_stages vsL env p flags")
  from stages_result [of vsL env p flags] st
  have c2: "validation_cache vs2 = validation_cache vsL" "cache_index vs2 = cache_index vsL"
    by simp_all
  have ci: "cache_index vsL = cache_index vs"
    using look lookup_index [of "vs\<lparr>validation_count := validation_count vs + 1\<rparr>" env
        "pkt_id p" "content_hash p"]
    by (cases "flags AND HINATA_VALIDATE_FORCE_RECHECK = 0") (auto dest: arg_cong [where f = "\<lambda>x. cache_index (snd x)"])
  show ?thesis
    using look idx st c2 ci
    by (simp add: hinata_validate_packet_full_def hinata_validation_cache_add_def Let_def)
qed

lemma lookup_miss:
  assumes "\<forall>i<HINATA_VALIDATION_CACHE_SIZE. \<not> key_match (validation_cache vs i) ident h"
  shows "hinata_validation_cache_lookup vs env ident h = (- 1, vs)"
proof -
  have "find (\<lambda>i. key_match (validation_cache vs i) ident h)
      [0..<HINATA_VALIDATION_CACHE_SIZE] = None"
    using assms by (simp add: find_None_iff)
  then show ?thesis by (simp add: hinata_validation_cache_lookup_def)
qed

text \<open>
  The structure check applies the content limit of hinata\_types.h, 1 MB: a content size
  of 600000 bytes passes, one byte above 1 MB does not.
\<close>

lemma structure_content_limit:
  "hinata_validate_packet_structure example_validation_env
     (Some (example_packet\<lparr>content_size := 600000\<rparr>)) = 0 \<and>
   hinata_validate_packet_structure example_validation_env
     (Some (example_packet\<lparr>content_size := 1024 * 1024\<rparr>)) = 0 \<and>
   hinata_validate_packet_structure example_validation_env
     (Some (example_packet\<lparr>content_size := 1024 * 1024 + 1\<rparr>)) = - EINVAL"
  by code_simp

text \<open>
  C6, as stated, fails in two ways. A packet with an empty id and stored hash 0 has the
  key of an empty cache slot: in the freshly initialised cache both calls stop at slot
  0, find it expired and validate again, so the second call writes a second entry
  instead of being answered from the cache. And after a forced validation has left a
  second entry for a key, two consecutive calls with the same flags can disagree: the
  first finds the older entry expired and validates (verdict pass), the second is
  answered by the younger entry (verdict fail).
\<close>

theorem validate_twice_counterexample:
  "fst (validate_calls hinata_validation_init
          [(example_validation_env, zero_key_packet, HINATA_VALIDATE_STANDARD)]) = [- 22] \<and>
   map_option cache_index (snd (validate_calls hinata_validation_init
          [(example_validation_env, zero_key_packet, HINATA_VALIDATE_STANDARD)])) = Some 1 \<and>
   fst (validate_calls hinata_validation_init
          [(example_validation_env, zero_key_packet, HINATA_VALIDATE_STANDARD),
           (example_validation_env, zero_key_packet, HINATA_VALIDATE_STANDARD)]) = [- 22, - 22] \<and>
   map_option cache_index (snd (validate_calls hinata_validation_init
          [(example_validation_env, zero_key_packet, HINATA_VALIDATE_STANDARD),
           (example_validation_env, zero_key_packet, HINATA_VALIDATE_STANDARD)])) = Some 2 \<and>
   fst (validate_calls hinata_validation_init
          [(example_env_at 1000000, slash_packet,
              HINATA_VALIDATE_MINIMAL OR HINATA_VALIDATE_FORCE_RECHECK),
           (example_env_at 1020000, slash_packet, HINATA_VALIDATE_PARANOID),
           (example_env_at 1031000, slash_packet, HINATA_VALIDATE_MINIMAL),
           (example_env_at 1031000, slash_packet, HINATA_VALIDATE_MINIMAL)]) =
     [0, - 22, 0, - 22]"
  by code_simp

text \<open>
  C6, amended. Without the force-recheck flag, two calls on the same unmodified packet
  return the same result and the second is answered from the cache (it leaves the cache
  and its index as they are) in these two situations. Either the cache already answers
  the first call from slot \<open>i\<close>, and the second call also falls within the 5 minutes
  after that slot's timestamp. Or the first call's lookup finds nothing (or only an
  expired entry, which it clears) and the call validates; then, if the slot index that
  the 32-bit counter yields is not negative, the call writes the slot with the packet's
  id and hash, its verdict (pass or fail alike) and the current time, and, if no slot
  with a lower index holds the packet's key and the second call falls within the 5
  minutes after that time, the second call is answered from that slot.
\<close>

theorem validate_twice_cached:
  "(flags AND HINATA_VALIDATE_FORCE_RECHECK = 0 \<and>
    first_matching_slot vs (pkt_id p) (content_hash p) = Some i \<and>
    time_before (jiffies_lookup env1) (vc_timestamp (validation_cache vs i) + 5 * 60 * HZ) \<and>
    time_before (jiffies_lookup env2) (vc_timestamp (validation_cache vs i) + 5 * 60 * HZ) \<longrightarrow>
      (\<exists>ret vs1 vs2.
          hinata_validate_packet_full vs env1 (Some p) flags = Inr (ret, vs1) \<and>
          hinata_validate_packet_full vs1 env2 (Some p) flags = Inr (ret, vs2) \<and>
          (ret = 0) = vc_is_valid (validation_cache vs i) \<and>
          validation_cache vs1 = validation_cache vs \<and>
          validation_cache vs2 = validation_cache vs1 \<and>
          cache_index vs2 = cache_index vs1)) \<and>
   (flags AND HINATA_VALIDATE_FORCE_RECHECK = 0 \<and>
    length (pkt_id p) < HINATA_UUID_LENGTH \<and>
    hinata_validation_cache_lookup (vs\<lparr>validation_count := validation_count vs + 1\<rparr>) env1
      (pkt_id p) (content_hash p) = (- 1, vsL) \<and>
    0 \<le> c_rem (sint (cache_index vs + 1)) (int HINATA_VALIDATION_CACHE_SIZE) \<and>
    (\<forall>j < nat (c_rem (sint (cache_index vs + 1)) (int HINATA_VALIDATION_CACHE_SIZE)).
        \<not> key_match (validation_cache vsL j) (pkt_id p) (content_hash p)) \<and>
    time_before (jiffies_lookup env2) (jiffies_add env1 + 5 * 60 * HZ) \<longrightarrow>
      (\<exists>ret vs1 vs2.
          hinata_validate_packet_full vs env1 (Some p) flags = Inr (ret, vs1) \<and>
          hinata_validate_packet_full vs1 env2 (Some p) flags = Inr (ret, vs2) \<and>
          validation_cache vs1
              (nat (c_rem (sint (cache_index vs + 1)) (int HINATA_VALIDATION_CACHE_SIZE))) =
            \<lparr>vc_id = pkt_id p, vc_content_hash = content_hash p, vc_is_valid = (ret = 0),
             vc_timestamp = jiffies_add env1\<rparr> \<and>
          validation_cache vs2 = validation_cache vs1 \<and>
          cache_index vs2 = cache_index vs1))"
proof (intro conjI impI)
  assume a: "flags AND HINATA_VALIDATE_FORCE_RECHECK = 0 \<and>
    first_matching_slot vs (pkt_id p) (content_hash p) = Some i \<and>
    time_before (jiffies_lookup env1) (vc_timestamp (validation_cache vs i) + 5 * 60 * HZ) \<and>
    time_before (jiffies_lookup env2) (vc_timestamp (validation_cache vs i) + 5 * 60 * HZ)"
  define ret :: int where "ret = (if vc_is_valid (validation_cache vs i) then 0 else - EINVAL)"
  define bump :: "validation_state \<Rightarrow> validation_state"
    where "bump = (\<lambda>s. if vc_is_valid (validation_cache vs i)
      then s\<lparr>validation_count := validation_count s + 1,
             validation_success_count := validation_success_count s + 1\<rparr>
      else s\<lparr>validation_count := validation_count s + 1,
             validation_failure_count := validation_failure_count s + 1\<rparr>)"
  have c1: "hinata_validate_packet_full vs env1 (Some p) flags = Inr (ret, bump vs)"
    using a full_hit [of flags vs p i env1] by (simp add: ret_def bump_def)
  have same: "validation_cache (bump vs) = validation_cache vs"
    "first_matching_slot (bump vs) (pkt_id p) (content_hash p) = Some i"
    using a by (simp_all add: bump_def)
  have c2: "hinata_validate_packet_full (bump vs) env2 (Some p) flags = Inr (ret, bump (bump vs))"
    using a same full_hit [of flags "bump vs" p i env2] by (simp add: ret_def bump_def)
  have r: "(ret = 0) = vc_is_valid (validation_cache vs i)"
    by (simp add: ret_def EINVAL_def)
  have k: "validation_cache (bump (bump vs)) = validation_cache (bump vs)"
    "cache_index (bump (bump vs)) = cache_index (bump vs)"
    by (simp_all add: bump_def)
  from c1 c2 r same(1) k
  show "\<exists>ret vs1 vs2.
          hinata_validate_packet_full vs env1 (Some p) flags = Inr (ret, vs1) \<and>
          hinata_validate_packet_full vs1 env2 (Some p) flags = Inr (ret, vs2) \<and>
          (ret = 0) = vc_is_valid (validation_cache vs i) \<and>
          validation_cache vs1 = validation_cache vs \<and>
          validation_cache vs2 = validation_cache vs1 \<and>
          cache_index vs2 = cache_index vs1"
    by blast
next
  let ?k = "nat (c_rem (sint (cache_index vs + 1)) (int HINATA_VALIDATION_CACHE_SIZE))"
  assume b: "flags AND HINATA_VALIDATE_FORCE_RECHECK = 0 \<and>
    length (pkt_id p) < HINATA_UUID_LENGTH \<and>
    hinata_validation_cache_lookup (vs\<lparr>validation_count := validation_count vs + 1\<rparr>) env1
      (pkt_id p) (content_hash p) = (- 1, vsL) \<and>
    0 \<le> c_rem (sint (cache_index vs + 1)) (int HINATA_VALIDATION_CACHE_SIZE) \<and>
    (\<forall>j < ?k. \<not> key_match (validation_cache vsL j) (pkt_id p) (content_hash p)) \<and>
    time_before (jiffies_lookup env2) (jiffies_add env1 + 5 * 60 * HZ)"
  define ret where "ret = fst (run_validation_stages vsL env1 p flags)"
  from b full_miss [of flags vs env1 p vsL]
  obtain vs1 where c1: "hinata_validate_packet_full vs env1 (Some p) flags = Inr (ret, vs1)"
    and ch: "validation_cache vs1 = (validation_cache vsL)
            (?k := \<lparr>vc_id = take (HINATA_UUID_LENGTH - 1) (pkt_id p),
                vc_content_hash = content_hash p, vc_is_valid = (ret = 0),
                vc_timestamp = jiffies_add env1\<rparr>)"
    unfolding ret_def by auto
  have tk: "take (HINATA_UUID_LENGTH - 1) (pkt_id p) = pkt_id p"
    using b by (simp add: HINATA_UUID_LENGTH_def)
  have slot: "validation_cache vs1 ?k =
      \<lparr>vc_id = pkt_id p, vc_content_hash = content_hash p, vc_is_valid = (ret = 0),
       vc_timestamp = jiffies_add env1\<rparr>"
    unfolding ch using tk by simp
  have kb: "?k < HINATA_VALIDATION_CACHE_SIZE"
    using c_rem_bound [of "sint (cache_index vs + 1)"] b
    by (simp add: HINATA_VALIDATION_CACHE_SIZE_def)
  have fm: "first_matching_slot vs1 (pkt_id p) (content_hash p) = Some ?k"
  proof (rule first_matching_slot_at [OF kb])
    show "key_match (validation_cache vs1 ?k) (pkt_id p) (content_hash p)"
      by (simp add: slot key_match_def)
    show "\<forall>j<?k. \<not> key_match (validation_cache vs1 j) (pkt_id p) (content_hash p)"
      using b by (simp add: ch)
  qed
  have fresh: "time_before (jiffies_lookup env2)
      (vc_timestamp (validation_cache vs1 ?k) + 5 * 60 * HZ)"
    using b by (simp add: slot)
  have rv: "ret = 0 \<or> ret = - EINVAL"
    unfolding ret_def using stages_result [of vsL env1 p flags] by simp
  from b full_hit [of flags vs1 p ?k env2, OF _ fm fresh] rv
  obtain vs2 where c2: "hinata_validate_packet_full vs1 env2 (Some p) flags = Inr (ret, vs2)"
    and k2: "validation_cache vs2 = validation_cache vs1" "cache_index vs2 = cache_index vs1"
    by (cases "ret = 0") (auto simp: slot EINVAL_def)
  from c1 c2 slot k2
  show "\<exists>ret vs1 vs2.
          hinata_validate_packet_full vs env1 (Some p) flags = Inr (ret, vs1) \<and>
          hinata_validate_packet_full vs1 env2 (Some p) flags = Inr (ret, vs2) \<and>
          validation_cache vs1 ?k =
            \<lparr>vc_id = pkt_id p, vc_content_hash = content_hash p, vc_is_valid = (ret = 0),
             vc_timestamp = jiffies_add env1\<rparr> \<and>
          validation_cache vs2 = validation_cache vs1 \<and>
          cache_index vs2 = cache_index vs1"
    by blast
qed

theorem validate_twice_cached_witness:
  "HINATA_VALIDATE_STANDARD AND HINATA_VALIDATE_FORCE_RECHECK = 0 \<and>
   first_matching_slot example_cached_state (pkt_id example_packet) (content_hash example_packet) =
     Some 3 \<and>
   time_before (jiffies_lookup example_validation_env)
     (vc_timestamp (validation_cache example_cached_state 3) + 5 * 60 * HZ) \<and>
   (case hinata_validate_packet_full example_cached_state example_validation_env
           (Some example_packet) HINATA_VALIDATE_STANDARD of
      Inl f \<Rightarrow> False
    | Inr (r, vs1) \<Rightarrow>
        r = 0 \<and>
        (case hinata_validate_packet_full vs1 example_validation_env (Some example_packet)
                HINATA_VALIDATE_STANDARD of
           Inl f \<Rightarrow> False
         | Inr (r2, vs2) \<Rightarrow> r2 = 0 \<and> cache_index vs2 = cache_index vs1)) \<and>
   length (pkt_id example_packet) < HINATA_UUID_LENGTH \<and>
   hinata_validation_cache_lookup
       (hinata_validation_init\<lparr>validation_count := validation_count hinata_validation_init + 1\<rparr>)
       example_validation_env (pkt_id example_packet) (content_hash example_packet) =
     (- 1, hinata_validation_init\<lparr>validation_count := validation_count hinata_validation_init + 1\<rparr>) \<and>
   0 \<le> c_rem (sint (cache_index hinata_validation_init + 1)) (int HINATA_VALIDATION_CACHE_SIZE) \<and>
   \<not> key_match (validation_cache hinata_validation_init 0) (pkt_id example_packet)
        (content_hash example_packet) \<and>
   time_before (jiffies_lookup example_validation_env)
     (jiffies_add example_validation_env + 5 * 60 * HZ) \<and>
   (case hinata_validate_packet_full hinata_validation_init example_validation_env
           (Some example_packet) HINATA_VALIDATE_STANDARD of
      Inl f \<Rightarrow> False
    | Inr (r, vs1) \<Rightarrow>
        vc_is_valid (validation_cache vs1 1) = (r = 0) \<and>
        vc_id (validation_cache vs1 1) = pkt_id example_packet \<and>
        (case hinata_validate_packet_full vs1 example_validation_env (Some example_packet)
                HINATA_VALIDATE_STANDARD of
           Inl f \<Rightarrow> False
         | Inr (r2, vs2) \<Rightarrow> r2 = r \<and> cache_index vs2 = cache_index vs1))"
proof -
  let ?env = example_validation_env
  let ?p = example_packet
  let ?v0 = "hinata_validation_init\<lparr>validation_count := validation_count hinata_validation_init + 1\<rparr>"
  have nf: "HINATA_VALIDATE_STANDARD AND HINATA_VALIDATE_FORCE_RECHECK = 0"
    by (simp add: HINATA_VALIDATE_STANDARD_def HINATA_VALIDATE_FORCE_RECHECK_def
        HINATA_VALIDATE_BASIC_def HINATA_VALIDATE_CONTENT_def HINATA_VALIDATE_INTEGRITY_def)
  have fm: "first_matching_slot example_cached_state (pkt_id ?p) (content_hash ?p) = Some 3"
    by (rule first_matching_slot_at)
       (simp_all add: example_cached_state_def example_packet_def key_match_def zero_entry_def
          HINATA_VALIDATION_CACHE_SIZE_def)
  have t1: "time_before (jiffies_lookup ?env)
     (vc_timestamp (validation_cache example_cached_state 3) + 5 * 60 * HZ)"
    by (simp add: time_before_def example_validation_env_def example_cached_state_def HZ_def)
  have r1: "vc_is_valid (validation_cache example_cached_state 3)"
    by (simp add: example_cached_state_def)
  note instA = validate_twice_cached
    [where flags = HINATA_VALIDATE_STANDARD and vs = example_cached_state and p = ?p and i = 3
       and ?env1.0 = ?env and ?env2.0 = ?env, THEN conjunct1]
  note instB = validate_twice_cached
    [where flags = HINATA_VALIDATE_STANDARD and vs = hinata_validation_init and p = ?p
       and ?env1.0 = ?env and ?env2.0 = ?env and vsL = ?v0, THEN conjunct2]
  from instA nf fm t1 r1 obtain vs1 vs2 where
    a: "hinata_validate_packet_full example_cached_state ?env (Some ?p) HINATA_VALIDATE_STANDARD =
          Inr (0, vs1)"
       "hinata_validate_packet_full vs1 ?env (Some ?p) HINATA_VALIDATE_STANDARD = Inr (0, vs2)"
       "cache_index vs2 = cache_index vs1"
    by blast
  have partA: "(case hinata_validate_packet_full example_cached_state ?env
           (Some ?p) HINATA_VALIDATE_STANDARD of
      Inl f \<Rightarrow> False
    | Inr (r, vs1) \<Rightarrow>
        r = 0 \<and>
        (case hinata_validate_packet_full vs1 ?env (Some ?p) HINATA_VALIDATE_STANDARD of
           Inl f \<Rightarrow> False
         | Inr (r2, vs2) \<Rightarrow> r2 = 0 \<and> cache_index vs2 = cache_index vs1))"
    by (simp add: a)
  have len: "length (pkt_id ?p) < HINATA_UUID_LENGTH"
    by (simp add: example_packet_def HINATA_UUID_LENGTH_def)
  have nm: "\<not> key_match (validation_cache hinata_validation_init j) (pkt_id ?p) (content_hash ?p)"
    for j
    by (simp add: hinata_validation_init_def key_match_def zero_entry_def example_packet_def)
  have lk: "hinata_validation_cache_lookup ?v0 ?env (pkt_id ?p) (content_hash ?p) = (- 1, ?v0)"
    by (rule lookup_miss) (use nm in simp)
  have ix: "0 \<le> c_rem (sint (cache_index hinata_validation_init + 1))
      (int HINATA_VALIDATION_CACHE_SIZE)"
    by (simp add: hinata_validation_init_def c_rem_def HINATA_VALIDATION_CACHE_SIZE_def)
  have k1: "nat (c_rem (sint (cache_index hinata_validation_init + 1))
      (int HINATA_VALIDATION_CACHE_SIZE)) = 1"
    by (simp add: hinata_validation_init_def c_rem_def HINATA_VALIDATION_CACHE_SIZE_def)
  have t2: "time_before (jiffies_lookup ?env) (jiffies_add ?env + 5 * 60 * HZ)"
    by (simp add: time_before_def example_validation_env_def HZ_def)
  have below: "\<forall>j < nat (c_rem (sint (cache_index hinata_validation_init + 1))
        (int HINATA_VALIDATION_CACHE_SIZE)).
      \<not> key_match (validation_cache ?v0 j) (pkt_id ?p) (content_hash ?p)"
    using nm by simp
  from instB nf len lk ix below t2 obtain ret w1 w2 where
    b: "hinata_validate_packet_full hinata_validation_init ?env (Some ?p) HINATA_VALIDATE_STANDARD =
          Inr (ret, w1)"
       "hinata_validate_packet_full w1 ?env (Some ?p) HINATA_VALIDATE_STANDARD = Inr (ret, w2)"
       "validation_cache w1
          (nat (c_rem (sint (cache_index hinata_validation_init + 1))
             (int HINATA_VALIDATION_CACHE_SIZE))) =
        \<lparr>vc_id = pkt_id ?p, vc_content_hash = content_hash ?p, vc_is_valid = (ret = 0),
         vc_timestamp = jiffies_add ?env\<rparr>"
       "cache_index w2 = cache_index w1"
    by blast
  have partB: "(case hinata_validate_packet_full hinata_validation_init ?env
           (Some ?p) HINATA_VALIDATE_STANDARD of
      Inl f \<Rightarrow> False
    | Inr (r, vs1) \<Rightarrow>
        vc_is_valid (validation_cache vs1 1) = (r = 0) \<and>
        vc_id (validation_cache vs1 1) = pkt_id ?p \<and>
        (case hinata_validate_packet_full vs1 ?env (Some ?p) HINATA_VALIDATE_STANDARD of
           Inl f \<Rightarrow> False
         | Inr (r2, vs2) \<Rightarrow> r2 = r \<and> cache_index vs2 = cache_index vs1))"
    using b(3) unfolding k1 by (simp add: b(1,2,4))
  from nf fm t1 partA len lk ix nm [of 0] t2 partB show ?thesis
    by blast
qed

section \<open>Properties of the storage layer\<close>




lemma store_packet_fault:
  assumes "storage_initialized st"
    and "unat region_id < HINATA_STORAGE_MAX_REGIONS"
    and "backing_file (regions st (unat region_id)) \<noteq> None"
    and "hinata_validate_packet vs venv (Some p) HINATA_VALIDATION_FLAG_FULL = Inl f"
  shows "hinata_storage_store_packet st vs venv env (Some p) region_id = Inl f"
  using assms by (auto simp: hinata_storage_store_packet_def)

text \<open>
  Directly after a store the packet is served from the storage cache: the load returns
  0 and a clone with a new id and the content hash of the original. When the byte behind
  the 36 characters of the cached key is not NUL, the entry is never found again and the
  load fails.
\<close>

lemma load_after_store_cache_hit:
  "(case hinata_storage_store_packet example_storage hinata_validation_init
           example_validation_env example_storage_env (Some example_packet) 0 of
      Inl f \<Rightarrow> False
    | Inr (r, st1, vs1) \<Rightarrow>
        (case hinata_storage_load_packet st1 example_storage_env
                (Some (pkt_id example_packet)) 0 True of
           (r3, loaded, st3) \<Rightarrow>
             r = 0 \<and> r3 = 0 \<and> stats_cache_hits st3 = 1 \<and>
             map_option pkt_id loaded = Some ''223e4567-e89b-12d3-a456-426614174000'' \<and>
             map_option content_hash loaded = Some (content_hash example_packet) \<and>
             map_option pkt_priority loaded = Some 0))"
  by code_simp

lemma load_after_store_unterminated_key:
  "(case hinata_storage_store_packet example_storage hinata_validation_init
           example_validation_env (example_storage_env\<lparr>stale_key_tail := ''x''\<rparr>)
           (Some example_packet) 0 of
      Inl f \<Rightarrow> False
    | Inr (r, st1, vs1) \<Rightarrow>
        (case hinata_storage_load_packet st1 example_storage_env
                (Some (pkt_id example_packet)) 0 True of
           (r3, loaded, st3) \<Rightarrow> r = 0 \<and> r3 = - ENOENT \<and> loaded = None))"
  by code_simp

text \<open>
  No call of \<open>hinata_storage_store_packet\<close> changes the block index of any region, and
  no call of \<open>hinata_storage_delete_packet\<close> changes a region at all.
\<close>

lemma cache_put_regions:
  "regions (snd (hinata_storage_cache_put st env key data sz)) = regions st"
  by (simp add: hinata_storage_cache_put_def Let_def split: option.splits)

lemma cache_remove_regions:
  "regions (snd (hinata_storage_cache_remove st env key)) = regions st"
  by (simp add: hinata_storage_cache_remove_def split: option.splits)

lemma store_packet_block_tree:
  assumes "hinata_storage_store_packet st vs venv env packet region_id = Inr (r, st', vs')"
  shows "block_tree (regions st' i) = block_tree (regions st i)"
  using assms
  by (auto simp: hinata_storage_store_packet_def Let_def cache_put_regions
      split: if_splits sum.splits prod.splits)

lemma delete_packet_regions:
  "regions (snd (hinata_storage_delete_packet st env packet_id region_id)) = regions st"
  by (simp add: hinata_storage_delete_packet_def Let_def cache_remove_regions)

text \<open>
  After a cache miss \<open>hinata_storage_load_packet\<close> never succeeds and never returns a
  packet.
\<close>

lemma load_packet_miss:
  assumes "fst (hinata_storage_cache_get st env packet_id) = None"
  shows "fst (hinata_storage_load_packet st env packet_id region_id out) < 0 \<and>
         fst (snd (hinata_storage_load_packet st env packet_id region_id out)) = None"
  using assms
  by (cases "hinata_storage_cache_get st env packet_id")
     (simp add: hinata_storage_load_packet_def Let_def EINVAL_def ENOENT_def)







text \<open>
  Claim C1. The example packet is valid and is stored into a fresh region: the call
  returns 0 and the backing file holds the packet's structure, content bytes and
  metadata bytes at offset 124. Once its entry is removed from the storage cache,
  \<open>hinata_storage_load_packet\<close> for the packet's id and the same region returns
  \<open>-ENOENT\<close> and no packet.
\<close>

theorem load_after_store_fails:
  "(case hinata_storage_store_packet example_storage hinata_validation_init
           example_validation_env example_storage_env (Some example_packet) 0 of
      Inl f \<Rightarrow> False
    | Inr (r, st1, vs1) \<Rightarrow>
        r = 0 \<and>
        map (\<lambda>(off, d, w). (off, ser_header d = example_packet, ser_content d, ser_metadata d, w))
            (the (backing_file (regions st1 0))) =
          [(124, True, Some [104, 101, 108, 108, 111], Some [123, 125], 1431)] \<and>
        (case hinata_storage_cache_remove st1 example_storage_env (Some (pkt_id example_packet)) of
           (r2, st2) \<Rightarrow>
             r2 = 0 \<and>
             (case hinata_storage_load_packet st2 example_storage_env
                     (Some (pkt_id example_packet)) 0 True of
                (r3, loaded, st3) \<Rightarrow> r3 = - ENOENT \<and> loaded = None)))"
  by code_simp

theorem load_after_store_fails_witness:
  "storage_initialized example_storage \<and>
   fst (hinata_storage_create_region hinata_storage_init example_storage_env
          (Some ''r0'') (Some ''/tmp/r0'') HINATA_STORAGE_TYPE_PACKET (1024 * 1024)) = 0 \<and>
   backing_file (regions example_storage 0) = Some [] \<and>
   (case hinata_validate_packet_full hinata_validation_init example_validation_env
           (Some example_packet)
           (HINATA_VALIDATE_COMPREHENSIVE OR HINATA_VALIDATE_FORCE_RECHECK) of
      Inl f \<Rightarrow> False
    | Inr (r, vs') \<Rightarrow> r = 0) \<and>
   (case hinata_storage_store_packet example_storage hinata_validation_init
           example_validation_env example_storage_env (Some example_packet) 0 of
      Inl f \<Rightarrow> False
    | Inr (r, st1, vs1) \<Rightarrow>
        r = 0 \<and>
        map (\<lambda>(off, d, w). (off, ser_header d = example_packet, ser_content d, ser_metadata d, w))
            (the (backing_file (regions st1 0))) =
          [(124, True, Some [104, 101, 108, 108, 111], Some [123, 125], 1431)] \<and>
        (case hinata_storage_cache_remove st1 example_storage_env (Some (pkt_id example_packet)) of
           (r2, st2) \<Rightarrow>
             r2 = 0 \<and>
             (case hinata_storage_load_packet st2 example_storage_env
                     (Some (pkt_id example_packet)) 0 True of
                (r3, loaded, st3) \<Rightarrow> r3 = - ENOENT \<and> loaded = None)))"
proof -
  have pre: "storage_initialized example_storage \<and>
   fst (hinata_storage_create_region hinata_storage_init example_storage_env
          (Some ''r0'') (Some ''/tmp/r0'') HINATA_STORAGE_TYPE_PACKET (1024 * 1024)) = 0 \<and>
   backing_file (regions example_storage 0) = Some [] \<and>
   (case hinata_validate_packet_full hinata_validation_init example_validation_env
           (Some example_packet)
           (HINATA_VALIDATE_COMPREHENSIVE OR HINATA_VALIDATE_FORCE_RECHECK) of
      Inl f \<Rightarrow> False
    | Inr (r, vs') \<Rightarrow> r = 0)"
    by code_simp
  with load_after_store_fails show ?thesis
    by blast
qed

text \<open>
  Claim C8. After one successful \<open>hinata_storage_store_packet\<close> into a fresh region
  the region's \<open>block_count\<close> is 1 and its block index \<open>block_tree\<close> has no entry;
  after \<open>hinata_storage_delete_packet\<close> of the same packet, which returns 0, both are
  as before: the count is 1 and the index is empty.
\<close>

theorem block_count_differs_from_block_tree:
  "(case hinata_storage_store_packet example_storage hinata_validation_init
           example_validation_env example_storage_env (Some example_packet) 0 of
      Inl f \<Rightarrow> False
    | Inr (r, st1, vs1) \<Rightarrow>
        r = 0 \<and> block_count (regions st1 0) = 1 \<and> length (block_tree (regions st1 0)) = 0 \<and>
        (case hinata_storage_delete_packet st1 example_storage_env
                (Some (pkt_id example_packet)) 0 of
           (r2, st2) \<Rightarrow>
             r2 = 0 \<and> block_count (regions st2 0) = 1 \<and>
             length (block_tree (regions st2 0)) = 0))"
  by code_simp

theorem block_count_differs_from_block_tree_witness:
  "storage_initialized example_storage \<and>
   backing_file (regions example_storage 0) = Some [] \<and>
   block_count (regions example_storage 0) = 0 \<and>
   block_tree (regions example_storage 0) = [] \<and>
   (case hinata_storage_store_packet example_storage hinata_validation_init
           example_validation_env example_storage_env (Some example_packet) 0 of
      Inl f \<Rightarrow> False
    | Inr (r, st1, vs1) \<Rightarrow>
        r = 0 \<and> block_count (regions st1 0) = 1 \<and> length (block_tree (regions st1 0)) = 0 \<and>
        (case hinata_storage_delete_packet st1 example_storage_env
                (Some (pkt_id example_packet)) 0 of
           (r2, st2) \<Rightarrow>
             r2 = 0 \<and> block_count (regions st2 0) = 1 \<and>
             length (block_tree (regions st2 0)) = 0))"
proof -
  have pre: "storage_initialized example_storage \<and>
   backing_file (regions example_storage 0) = Some [] \<and>
   block_count (regions example_storage 0) = 0 \<and>
   block_tree (regions example_storage 0) = []"
    by code_simp
  with block_count_differs_from_block_tree show ?thesis
    by blast
qed

end
